(* ===== verification/Prelude.thy ===== *)
theory Prelude
  imports Main "HOL-Library.Word" "HOL-Library.Sublist" "HOL-Library.Char_ord"
    "HOL-Library.List_Lexorder"
begin

text \<open>
  Shared vocabulary of the development: the byte strings of \<open>std::string\<close>, the widths of the
  machine integers, decimal rendering (\<open>std::to_string\<close>), the searches of \<open>std::string\<close> that
  the sources use, and \<open>std::map\<close> with string keys as a strictly sorted association list.
  Two lemma collections drive the component proofs: \<open>frame_simps\<close> holds the equations that say
  which parts of a state an operation leaves alone, \<open>gcs_defs\<close> the definitions that are always
  safe to unfold.
\<close>

named_theorems frame_simps \<open>fields an operation does not write\<close>
named_theorems gcs_defs \<open>small definitions that proofs unfold\<close>

type_synonym bytes = string
type_synonym int64 = "64 word"
type_synonym uint64 = "64 word"
type_synonym uint32 = "32 word"
type_synonym handle = nat

section \<open>Decimal rendering\<close>

text \<open>\<open>std::to_string\<close> of an unsigned and of a signed integer.\<close>

definition digit_char :: "nat \<Rightarrow> char" where
  "digit_char d = char_of (48 + d)"

fun show_nat :: "nat \<Rightarrow> string" where
  "show_nat n = (if n < 10 then [digit_char n] else show_nat (n div 10) @ [digit_char (n mod 10)])"

declare show_nat.simps [simp del]

definition show_int :: "int \<Rightarrow> string" where
  "show_int i = (if i < 0 then CHR ''-'' # show_nat (nat (- i)) else show_nat (nat i))"

text \<open>The value of a decimal numeral, the left inverse of the rendering.\<close>

definition digit_val :: "char \<Rightarrow> nat" where
  "digit_val c = of_char c - 48"

definition read_nat :: "string \<Rightarrow> nat" where
  "read_nat s = foldl (\<lambda>acc c. 10 * acc + digit_val c) 0 s"

lemma digit_val_char [simp]: "d < 10 \<Longrightarrow> digit_val (digit_char d) = d"
  by (simp add: digit_val_def digit_char_def)

lemma read_show_nat [simp]: "read_nat (show_nat n) = n"
proof (induction n rule: show_nat.induct)
  case (1 n)
  show ?case
  proof (cases "n < 10")
    case True
    then show ?thesis by (subst show_nat.simps) (simp add: read_nat_def)
  next
    case False
    then have "read_nat (show_nat (n div 10)) = n div 10" by (rule 1)
    with False show ?thesis by (subst show_nat.simps) (simp add: read_nat_def)
  qed
qed

lemma show_nat_inj [simp]: "show_nat m = show_nat n \<longleftrightarrow> m = n"
  by (metis read_show_nat)

lemma show_nat_nonempty [simp]: "show_nat n \<noteq> []"
  by (subst show_nat.simps) simp

text \<open>A numeral holds decimal digits only, so a separator outside the digits never occurs in it.\<close>

lemma digit_char_code: "d < 10 \<Longrightarrow> (of_char (digit_char d) :: nat) = 48 + d"
  by (simp add: digit_char_def)

lemma show_nat_chars: "c \<in> set (show_nat n) \<Longrightarrow> 48 \<le> (of_char c :: nat) \<and> (of_char c :: nat) < 58"
proof (induction n rule: show_nat.induct)
  case (1 n)
  show ?case
  proof (cases "n < 10")
    case True
    with 1(2) show ?thesis by (simp add: show_nat.simps [of n] digit_char_code)
  next
    case False
    with 1(2) have "c \<in> set (show_nat (n div 10)) \<or> c = digit_char (n mod 10)"
      by (auto simp: show_nat.simps [of n])
    then show ?thesis
    proof
      assume "c \<in> set (show_nat (n div 10))"
      with False 1(1) show ?thesis by blast
    qed (simp add: digit_char_code)
  qed
qed

lemma dash_notin_show_nat [simp]: "CHR ''-'' \<notin> set (show_nat n)"
  using show_nat_chars [of "CHR ''-''" n] by auto

lemma slash_notin_show_nat [simp]: "CHR ''/'' \<notin> set (show_nat n)"
  using show_nat_chars [of "CHR ''/''" n] by auto

lemma slash_notin_show_int [simp]: "CHR ''/'' \<notin> set (show_int i)"
  by (simp add: show_int_def)

lemma show_int_inj [simp]: "show_int i = show_int j \<longleftrightarrow> i = j"
proof
  assume eq: "show_int i = show_int j"
  have neg: "CHR ''-'' # show_nat m \<noteq> show_nat n" for m n
    by (metis dash_notin_show_nat list.set_intros(1))
  show "i = j"
    using eq neg [of "nat (- i)" "nat j"] neg [of "nat (- j)" "nat i"]
    by (auto simp: show_int_def split: if_splits)
qed simp

text \<open>Splitting at the last occurrence of a separator is unambiguous.\<close>

lemma split_last_sep:
  assumes "xs @ c # ys = xs' @ c # ys'" and "c \<notin> set ys" and "c \<notin> set ys'"
  shows "xs = xs' \<and> ys = ys'"
proof -
  from assms(1) have "rev ys @ c # rev xs = rev ys' @ c # rev xs'"
    by (metis append.assoc append_Cons append_Nil rev.simps(2) rev_append)
  moreover have "takeWhile (\<lambda>d. d \<noteq> c) (rev ys @ c # zs) = rev ys" for zs
    using assms(2) by (subst takeWhile_append2) auto
  moreover have "takeWhile (\<lambda>d. d \<noteq> c) (rev ys' @ c # zs) = rev ys'" for zs
    using assms(3) by (subst takeWhile_append2) auto
  ultimately have "rev ys = rev ys'" by metis
  with assms(1) show ?thesis by simp
qed

section \<open>Searches in byte strings\<close>

text \<open>\<open>std::string::find\<close> for a string, \<open>rfind\<close> for a character; \<open>None\<close> is \<open>npos\<close>.\<close>

fun find_sub :: "string \<Rightarrow> string \<Rightarrow> nat option" where
  "find_sub needle [] = (if needle = [] then Some 0 else None)"
| "find_sub needle (c # cs) =
     (if prefix needle (c # cs) then Some 0 else map_option Suc (find_sub needle cs))"

fun rfind_char :: "char \<Rightarrow> string \<Rightarrow> nat option" where
  "rfind_char c [] = None"
| "rfind_char c (x # xs) =
     (case rfind_char c xs of Some i \<Rightarrow> Some (Suc i)
      | None \<Rightarrow> if x = c then Some 0 else None)"

lemma find_sub_prefix: "prefix n s \<Longrightarrow> find_sub n s = Some 0"
  by (cases s) auto

lemma find_sub_Some: "find_sub n s = Some i \<Longrightarrow> i \<le> length s \<and> prefix n (drop i s)"
  by (induction n s arbitrary: i rule: find_sub.induct) (auto split: if_splits)

lemma rfind_char_None [simp]: "rfind_char c s = None \<longleftrightarrow> c \<notin> set s"
  by (induction s) (auto split: option.splits)

lemma rfind_char_last: "c \<notin> set ys \<Longrightarrow> rfind_char c (xs @ c # ys) = Some (length xs)"
  by (induction xs) (auto simp: rfind_char_None [THEN iffD2])

lemma rfind_char_length: "rfind_char c s = Some i \<Longrightarrow> i < length s \<and> s ! i = c"
  by (induction s arbitrary: i) (auto split: option.splits if_splits)

section \<open>std::map with string keys\<close>

text \<open>
  \<open>std::map\<close> is ordered by \<open>std::less<std::string>\<close>, the lexicographic order on unsigned bytes,
  which is the order of \<open>string\<close> under \<^theory_text>\<open>Char_ord\<close> and \<^theory_text>\<open>List_Lexorder\<close>. The model is a
  list of pairs with strictly increasing keys: iteration is the list itself.
\<close>

type_synonym 'v smap = "(string \<times> 'v) list"

definition smap_ok :: "'v smap \<Rightarrow> bool" where
  "smap_ok m \<longleftrightarrow> sorted_wrt (<) (map fst m)"

text \<open>\<open>emplace\<close> keeps an existing entry; \<open>operator[]\<close> with an assignment replaces it.\<close>

fun smap_emplace :: "string \<Rightarrow> 'v \<Rightarrow> 'v smap \<Rightarrow> 'v smap" where
  "smap_emplace k v [] = [(k, v)]"
| "smap_emplace k v ((k', v') # m) =
     (if k < k' then (k, v) # (k', v') # m
      else if k = k' then (k', v') # m
      else (k', v') # smap_emplace k v m)"

fun smap_assign :: "string \<Rightarrow> 'v \<Rightarrow> 'v smap \<Rightarrow> 'v smap" where
  "smap_assign k v [] = [(k, v)]"
| "smap_assign k v ((k', v') # m) =
     (if k < k' then (k, v) # (k', v') # m
      else if k = k' then (k, v) # m
      else (k', v') # smap_assign k v m)"

text \<open>The interface the entity catalog relies on, stated over an abstraction to a partial map.\<close>

locale ordered_map =
  fixes ok :: "'m \<Rightarrow> bool"
    and look :: "'m \<Rightarrow> string \<Rightarrow> 'v option"
    and emplace :: "string \<Rightarrow> 'v \<Rightarrow> 'm \<Rightarrow> 'm"
    and assign :: "string \<Rightarrow> 'v \<Rightarrow> 'm \<Rightarrow> 'm"
    and entries :: "'m \<Rightarrow> (string \<times> 'v) list"
  assumes ok_emplace: "ok m \<Longrightarrow> ok (emplace k v m)"
    and ok_assign: "ok m \<Longrightarrow> ok (assign k v m)"
    and look_emplace: "ok m \<Longrightarrow>
      look (emplace k v m) = (case look m k of None \<Rightarrow> (look m)(k \<mapsto> v) | Some _ \<Rightarrow> look m)"
    and look_assign: "ok m \<Longrightarrow> look (assign k v m) = (look m)(k \<mapsto> v)"
    and entries_sorted: "ok m \<Longrightarrow> sorted_wrt (<) (map fst (entries m))"
    and entries_look: "ok m \<Longrightarrow> look m k = Some v \<longleftrightarrow> (k, v) \<in> set (entries m)"
begin

lemma emplace_idem: "ok m \<Longrightarrow> look (emplace k v' (emplace k v m)) = look (emplace k v m)"
  by (auto simp: look_emplace ok_emplace split: option.splits)

lemma emplace_present: "ok m \<Longrightarrow> look m k = Some u \<Longrightarrow> look (emplace k v m) = look m"
  by (simp add: look_emplace)

lemma emplace_absent: "ok m \<Longrightarrow> look m k = None \<Longrightarrow> look (emplace k v m) = (look m)(k \<mapsto> v)"
  by (simp add: look_emplace)

text \<open>Two well-formed maps with the same lookups iterate the same entries in the same order.\<close>

lemma entries_eqI:
  assumes "ok m" and "ok n" and "look m = look n"
  shows "entries m = entries n"
proof -
  have "set (entries m) = set (entries n)"
    using assms by (auto simp flip: entries_look)
  moreover have "sorted (map fst (entries m))" "distinct (map fst (entries m))"
    "sorted (map fst (entries n))" "distinct (map fst (entries n))"
    using entries_sorted assms(1,2) by (auto simp: strict_sorted_iff)
  ultimately show ?thesis
    by (intro map_sorted_distinct_set_unique [where f = fst])
      (auto simp: distinct_map inj_on_def)
qed

end

lemma smap_emplace_keys: "fst ` set (smap_emplace k v m) = insert k (fst ` set m)"
  by (induction k v m rule: smap_emplace.induct) auto

lemma smap_assign_keys: "fst ` set (smap_assign k v m) = insert k (fst ` set m)"
  by (induction k v m rule: smap_assign.induct) auto

lemma smap_ok_Cons: "smap_ok ((k, v) # m) \<longleftrightarrow> (\<forall>k' \<in> fst ` set m. k < k') \<and> smap_ok m"
  by (auto simp: smap_ok_def)

lemma smap_ok_Nil [simp]: "smap_ok []"
  by (simp add: smap_ok_def)

lemma smap_ok_emplace [simp]: "smap_ok m \<Longrightarrow> smap_ok (smap_emplace k v m)"
  by (induction k v m rule: smap_emplace.induct) (auto simp: smap_ok_Cons smap_emplace_keys)

lemma smap_ok_assign [simp]: "smap_ok m \<Longrightarrow> smap_ok (smap_assign k v m)"
  by (induction k v m rule: smap_assign.induct) (auto simp: smap_ok_Cons smap_assign_keys)

lemma smap_look_emplace: "smap_ok m \<Longrightarrow>
  map_of (smap_emplace k v m) =
    (case map_of m k of None \<Rightarrow> (map_of m)(k \<mapsto> v) | Some _ \<Rightarrow> map_of m)"
proof (induction k v m rule: smap_emplace.induct)
  case (2 k v k' v' m)
  then have "map_of m k = None" if "k < k'"
    using that by (auto simp: smap_ok_Cons map_of_eq_None_iff)
  with 2 show ?case by (auto simp: smap_ok_Cons fun_eq_iff split: option.splits)
qed simp

lemma smap_look_assign: "map_of (smap_assign k v m) = (map_of m)(k \<mapsto> v)"
  by (induction k v m rule: smap_assign.induct) auto

interpretation smap: ordered_map smap_ok map_of smap_emplace smap_assign "\<lambda>m. m"
proof
  fix m :: "'v smap" and k v
  assume ok: "smap_ok m"
  then show "sorted_wrt (<) (map fst m)" by (simp add: smap_ok_def)
  then have "distinct (map fst m)" by (simp add: strict_sorted_iff)
  then show "map_of m k = Some v \<longleftrightarrow> (k, v) \<in> set m" by simp
qed (simp_all add: smap_look_emplace smap_look_assign)

end
