(* ===== verification/GcsError.thy ===== *)
theory GcsError
  imports Prelude
begin

text \<open>
  The error domain of \<open>src/lib/gcs_storage/common/error.hpp\<close> and \<open>error.cpp\<close>, and
  \<open>outcome::result\<close> as a sum: \<open>Inl\<close> is a failure, \<open>Inr\<close> a success.
\<close>

datatype error = GcsDbError | SdkNotInitialized

type_synonym 'a result = "error + 'a"

text \<open>The underlying \<open>uint8_t\<close> of the enumeration.\<close>

fun error_code :: "error \<Rightarrow> 8 word" where
  "error_code GcsDbError = 22"
| "error_code SdkNotInitialized = 23"

text \<open>
  The category's message for a raw value: a value outside the enumeration (the switch matches
  no case) falls through to the default text.
\<close>

definition error_message :: "8 word \<Rightarrow> string" where
  "error_message e =
     (if e = error_code GcsDbError then ''GCS GlobalDB operation failed''
      else if e = error_code SdkNotInitialized then ''GeniusSDK not initialized''
      else ''Unknown error'')"

definition has_value :: "'a result \<Rightarrow> bool" where
  "has_value r = (case r of Inl _ \<Rightarrow> False | Inr _ \<Rightarrow> True)"

lemma has_value_simps [simp]: "has_value (Inr x)" "\<not> has_value (Inl e)"
  by (simp_all add: has_value_def)

lemma has_value_iff: "has_value r \<longleftrightarrow> (\<exists>x. r = Inr x)"
  by (cases r) auto

lemma error_code_inj: "error_code a = error_code b \<Longrightarrow> a = b"
  by (cases a; cases b) simp_all

lemma error_code_reserved: "21 < error_code e"
  by (cases e) simp_all

end
