(* ===== verification/ChatProto.thy ===== *)
theory ChatProto
  imports GcsError
begin

text \<open>
  The messages of \<open>src/proto/gcs_chat.proto\<close> as the generated accessors expose them: one record
  per message, one datatype per enumeration and per \<open>oneof\<close>. A proto3 enumeration is open, so
  each has an extra constructor for the values the schema does not name. The generated code and
  the protobuf runtime are not in the repository: their serialisers and parsers are the fields of
  the record \<open>codec\<close>, an argument of every definition that uses them, and \<open>protobuf_ok\<close> is what
  the sources rely on (parsing inverts serialising on messages whose strings are UTF-8 and whose
  open enumeration values are not named ones).
\<close>

section \<open>Messages\<close>

datatype Codec = CODEC_UNSPECIFIED | CODEC_PROTOBUF | CODEC_JSON | Codec_open int

record GcsConfig =
  cfg_db_path :: string
  cfg_codec :: Codec
  cfg_mnemonic :: string

datatype MessageRole = MESSAGE_ROLE_UNSPECIFIED | MESSAGE_ROLE_USER_SELF | MESSAGE_ROLE_USER_PEER
  | MESSAGE_ROLE_ASSISTANT | MESSAGE_ROLE_SYSTEM | MessageRole_open int

datatype MessageState = MESSAGE_STATE_UNSPECIFIED | MESSAGE_STATE_PENDING | MESSAGE_STATE_STREAMING
  | MESSAGE_STATE_THINKING | MESSAGE_STATE_COMPLETE | MESSAGE_STATE_ERROR | MessageState_open int

record ChatMessageState =
  cm_id :: string
  cm_room_topic :: string
  cm_role :: MessageRole
  cm_state :: MessageState
  cm_text :: string
  cm_timestamp :: int64
  cm_sender :: string
  cm_deleted :: bool
  cm_deleted_at_ms :: int64

record SpaceRecord =
  sp_id :: string
  sp_name :: string
  sp_is_public :: bool
  sp_auto_join_rooms :: bool
  sp_created_at_ms :: int64
  sp_updated_at_ms :: int64
  sp_deleted :: bool
  sp_deleted_at_ms :: int64

record RoomRecord =
  rm_id :: string
  rm_name :: string
  rm_parent_space_id :: string
  rm_created_at_ms :: int64
  rm_updated_at_ms :: int64
  rm_deleted :: bool
  rm_deleted_at_ms :: int64

record EntityManifest =
  mf_space_id :: "string list"
  mf_room_id :: "string list"

record MessageHistory =
  mh_room_topic :: string
  mh_message :: "ChatMessageState list"

datatype GcsCommand =
    JoinTopic string
  | SendText string string
  | CreateSpace string bool bool
  | CreateRoom string string
  | UpdateSpace string string bool bool
  | PAYLOAD_NOT_SET

datatype GcsEvent =
    Ev_message ChatMessageState
  | Ev_room_list "string list"
  | Ev_readiness bool
  | Ev_error string
  | Ev_space_tree "SpaceRecord list" "RoomRecord list"
  | Ev_message_history MessageHistory

text \<open>A default-constructed message: every scalar zero, every string empty.\<close>

definition empty_message :: ChatMessageState where
  "empty_message = \<lparr>cm_id = [], cm_room_topic = [], cm_role = MESSAGE_ROLE_UNSPECIFIED,
     cm_state = MESSAGE_STATE_UNSPECIFIED, cm_text = [], cm_timestamp = 0, cm_sender = [],
     cm_deleted = False, cm_deleted_at_ms = 0\<rparr>"

definition empty_space :: SpaceRecord where
  "empty_space = \<lparr>sp_id = [], sp_name = [], sp_is_public = False, sp_auto_join_rooms = False,
     sp_created_at_ms = 0, sp_updated_at_ms = 0, sp_deleted = False, sp_deleted_at_ms = 0\<rparr>"

definition empty_room :: RoomRecord where
  "empty_room = \<lparr>rm_id = [], rm_name = [], rm_parent_space_id = [], rm_created_at_ms = 0,
     rm_updated_at_ms = 0, rm_deleted = False, rm_deleted_at_ms = 0\<rparr>"

definition empty_manifest :: EntityManifest where
  "empty_manifest = \<lparr>mf_space_id = [], mf_room_id = []\<rparr>"

section \<open>UTF-8\<close>

text \<open>
  A proto3 \<open>string\<close> field holds UTF-8. The predicate follows the byte ranges of the encoding:
  no overlong form, no surrogate, nothing above U+10FFFF.
\<close>

definition utf8_cont :: "char \<Rightarrow> bool" where
  "utf8_cont c \<longleftrightarrow> 128 \<le> (of_char c :: nat) \<and> (of_char c :: nat) < 192"

fun valid_utf8 :: "string \<Rightarrow> bool" where
  "valid_utf8 [] = True"
| "valid_utf8 (a # s) =
     (let x = (of_char a :: nat) in
      if x < 128 then valid_utf8 s
      else if 194 \<le> x \<and> x < 224 then
        (case s of b # s' \<Rightarrow> utf8_cont b \<and> valid_utf8 s' | _ \<Rightarrow> False)
      else if 224 \<le> x \<and> x < 240 then
        (case s of b # c # s' \<Rightarrow> utf8_cont b \<and> utf8_cont c
             \<and> (x = 224 \<longrightarrow> 160 \<le> (of_char b :: nat)) \<and> (x = 237 \<longrightarrow> (of_char b :: nat) < 160)
             \<and> valid_utf8 s'
         | _ \<Rightarrow> False)
      else if 240 \<le> x \<and> x < 245 then
        (case s of b # c # d # s' \<Rightarrow> utf8_cont b \<and> utf8_cont c \<and> utf8_cont d
             \<and> (x = 240 \<longrightarrow> 144 \<le> (of_char b :: nat)) \<and> (x = 244 \<longrightarrow> (of_char b :: nat) < 144)
             \<and> valid_utf8 s'
         | _ \<Rightarrow> False)
      else False)"

definition ascii :: "string \<Rightarrow> bool" where
  "ascii s \<longleftrightarrow> list_all (\<lambda>c. (of_char c :: nat) < 128) s"

lemma ascii_append [simp]: "ascii (s @ t) \<longleftrightarrow> ascii s \<and> ascii t"
  by (simp add: ascii_def)

lemma ascii_Cons [simp]: "ascii (c # s) \<longleftrightarrow> (of_char c :: nat) < 128 \<and> ascii s"
  by (simp add: ascii_def)

lemma ascii_Nil [simp]: "ascii []"
  by (simp add: ascii_def)

lemma ascii_valid_utf8: "ascii s \<Longrightarrow> valid_utf8 s"
  by (induction s) (simp_all add: Let_def)

lemma ascii_show_nat [simp]: "ascii (show_nat n)"
  using show_nat_chars [of _ n] by (force simp: ascii_def list_all_iff)

lemma ascii_show_int [simp]: "ascii (show_int i)"
  by (simp add: show_int_def)

text \<open>An open enumeration value is one the schema does not name, in the range of an \<open>int32\<close>.\<close>

fun role_ok :: "MessageRole \<Rightarrow> bool" where
  "role_ok (MessageRole_open n) \<longleftrightarrow> (n < 0 \<or> 4 < n) \<and> - (2 ^ 31) \<le> n \<and> n < 2 ^ 31"
| "role_ok _ \<longleftrightarrow> True"

fun state_ok :: "MessageState \<Rightarrow> bool" where
  "state_ok (MessageState_open n) \<longleftrightarrow> (n < 0 \<or> 5 < n) \<and> - (2 ^ 31) \<le> n \<and> n < 2 ^ 31"
| "state_ok _ \<longleftrightarrow> True"

definition wf_message :: "ChatMessageState \<Rightarrow> bool" where
  "wf_message m \<longleftrightarrow> valid_utf8 (cm_id m) \<and> valid_utf8 (cm_room_topic m)
     \<and> valid_utf8 (cm_text m) \<and> valid_utf8 (cm_sender m) \<and> role_ok (cm_role m) \<and> state_ok (cm_state m)"

definition utf8_space :: "SpaceRecord \<Rightarrow> bool" where
  "utf8_space s \<longleftrightarrow> valid_utf8 (sp_id s) \<and> valid_utf8 (sp_name s)"

definition utf8_room :: "RoomRecord \<Rightarrow> bool" where
  "utf8_room r \<longleftrightarrow> valid_utf8 (rm_id r) \<and> valid_utf8 (rm_name r) \<and> valid_utf8 (rm_parent_space_id r)"

definition utf8_manifest :: "EntityManifest \<Rightarrow> bool" where
  "utf8_manifest m \<longleftrightarrow> list_all valid_utf8 (mf_space_id m) \<and> list_all valid_utf8 (mf_room_id m)"

section \<open>The protobuf runtime\<close>

record codec =
  parse_config :: "bytes \<Rightarrow> GcsConfig option"
  parse_command :: "bytes \<Rightarrow> GcsCommand option"
  ser_message :: "ChatMessageState \<Rightarrow> bytes"
  parse_message :: "bytes \<Rightarrow> ChatMessageState option"
  ser_space :: "SpaceRecord \<Rightarrow> bytes"
  parse_space :: "bytes \<Rightarrow> SpaceRecord option"
  ser_room :: "RoomRecord \<Rightarrow> bytes"
  parse_room :: "bytes \<Rightarrow> RoomRecord option"
  ser_manifest :: "EntityManifest \<Rightarrow> bytes"
  parse_manifest :: "bytes \<Rightarrow> EntityManifest option"
  ser_event :: "GcsEvent \<Rightarrow> bool \<times> bytes"

definition protobuf_ok :: "codec \<Rightarrow> bool" where
  "protobuf_ok C \<longleftrightarrow>
     (\<forall>m. wf_message m \<longrightarrow> parse_message C (ser_message C m) = Some m) \<and>
     (\<forall>s. utf8_space s \<longrightarrow> parse_space C (ser_space C s) = Some s) \<and>
     (\<forall>r. utf8_room r \<longrightarrow> parse_room C (ser_room C r) = Some r) \<and>
     (\<forall>f. utf8_manifest f \<longrightarrow> parse_manifest C (ser_manifest C f) = Some f)"

lemma protobuf_okD:
  assumes "protobuf_ok C"
  shows "wf_message m \<Longrightarrow> parse_message C (ser_message C m) = Some m"
    and "utf8_space s \<Longrightarrow> parse_space C (ser_space C s) = Some s"
    and "utf8_room r \<Longrightarrow> parse_room C (ser_room C r) = Some r"
    and "utf8_manifest f \<Longrightarrow> parse_manifest C (ser_manifest C f) = Some f"
  using assms by (auto simp: protobuf_ok_def)

end
