(* ===== verification/Platform.thy ===== *)
theory Platform
  imports ChatProto
begin

text \<open>
  What the program is run against. Everything here is code that is not in the repository: the
  protobuf runtime, the clock and \<open>std::random_device\<close>, SuperGenius (\<open>crdt::GlobalDB\<close>,
  \<open>GossipPubSub\<close>, \<open>GeniusNode\<close>), the GeniusSDK C functions and the host file system. It is one
  record of operations over an abstract type \<open>'w\<close> of outside worlds, passed to every definition
  that calls it. A handle stands for a non-null shared pointer and \<open>None\<close> for a null one.

  The record \<open>proc\<close> is the process itself below the session objects: the outside world, the
  function-local statics of the two id generators, and the calls the program makes towards Dart
  and the pubsub whose outcome it ignores or which register one of its callbacks:
  \<open>posted\<close> lists the buffers handed to \<open>Dart_PostCObject_DL\<close> with their port, oldest first;
  \<open>live_handlers\<close> the topics whose gossip subscription holds the live receive callback, one entry
  per registered callback; \<open>heal_handlers\<close> the patterns of the registered CRDT callbacks.
\<close>

datatype globaldb_error = ROCKSDB_IO | IPFS_DB_NOT_CREATED | DAG_SYNCHER_NOT_LISTENING
  | CRDT_DATASTORE_NOT_CREATED | PUBSUB_BROADCASTER_NOT_CREATED | INVALID_PARAMETERS
  | GLOBALDB_NOT_STARTED | Globaldb_error_unlisted int

record 'w platform =
  proto :: codec
  now_ms :: "'w \<Rightarrow> int64 \<times> 'w"
  random_device :: "'w \<Rightarrow> uint32 \<times> 'w"
  new_address :: "'w \<Rightarrow> handle \<times> 'w"
  globaldb_new :: "string \<Rightarrow> handle \<Rightarrow> handle \<Rightarrow> 'w \<Rightarrow> (int + handle) \<times> 'w"
  globaldb_error_of :: "int \<Rightarrow> globaldb_error"
  globaldb_start :: "handle \<Rightarrow> 'w \<Rightarrow> 'w"
  globaldb_add_listen :: "handle \<Rightarrow> string \<Rightarrow> 'w \<Rightarrow> 'w"
  globaldb_add_broadcast :: "handle \<Rightarrow> string \<Rightarrow> 'w \<Rightarrow> bool \<times> 'w"
  globaldb_put :: "handle \<Rightarrow> string \<Rightarrow> bytes \<Rightarrow> string set \<Rightarrow> 'w \<Rightarrow> bool \<times> 'w"
  globaldb_put_local :: "handle \<Rightarrow> string \<Rightarrow> bytes \<Rightarrow> string \<Rightarrow> 'w \<Rightarrow> bool \<times> 'w"
  globaldb_get :: "handle \<Rightarrow> string \<Rightarrow> 'w \<Rightarrow> bytes option"
  globaldb_query :: "handle \<Rightarrow> string \<Rightarrow> 'w \<Rightarrow> (string \<times> bytes) list option"
  globaldb_register :: "handle \<Rightarrow> string \<Rightarrow> 'w \<Rightarrow> bool \<times> 'w"
  globaldb_shutdown_now :: "handle \<Rightarrow> 'w \<Rightarrow> 'w"
  pubsub_publish :: "handle \<Rightarrow> string \<Rightarrow> bytes \<Rightarrow> 'w \<Rightarrow> bool \<times> 'w"
  pubsub_subscribe :: "handle \<Rightarrow> string \<Rightarrow> 'w \<Rightarrow> bool \<times> 'w"
  sdk_get_node :: "'w \<Rightarrow> handle option"
  node_pubsub :: "handle \<Rightarrow> 'w \<Rightarrow> handle option"
  node_graphsync :: "handle \<Rightarrow> 'w \<Rightarrow> handle option"
  sdk_init :: "string \<Rightarrow> string \<Rightarrow> 'w \<Rightarrow> bool \<times> 'w"
  sdk_init_with_mnemonic :: "string \<Rightarrow> string \<Rightarrow> string \<Rightarrow> 'w \<Rightarrow> bool \<times> 'w"
  sdk_shutdown :: "'w \<Rightarrow> 'w"
  sdk_address :: "'w \<Rightarrow> string"
  temp_directory_path :: "'w \<Rightarrow> string"
  create_directories :: "string \<Rightarrow> 'w \<Rightarrow> 'w"
  register_atexit :: "'w \<Rightarrow> bool \<times> 'w"

record 'w proc =
  world :: 'w
  entity_seed :: "string option"
  entity_sequence :: uint64
  message_seed :: "string option"
  message_sequence :: uint64
  dart_port :: int64
  dart_post_dl :: bool
  posted :: "(int64 \<times> bytes) list"
  live_handlers :: "string list"
  heal_handlers :: "string list"

text \<open>
  Documented behaviour of the store that theorems rely on, between two calls with no remote merge
  in between: a successful \<open>Put\<close> is what \<open>Get\<close> returns for its key and touches no other key, and
  the clock, the random device and the pubsub do not change what is stored.
\<close>

definition store_puts :: "'w platform \<Rightarrow> bool" where
  "store_puts P \<longleftrightarrow>
     (\<forall>h k v T w w'. globaldb_put P h k v T w = (True, w') \<longrightarrow>
        globaldb_get P h k w' = Some v \<and>
        (\<forall>k'. k' \<noteq> k \<longrightarrow> globaldb_get P h k' w' = globaldb_get P h k' w))"

definition store_frame :: "'w platform \<Rightarrow> bool" where
  "store_frame P \<longleftrightarrow>
     (\<forall>h k w. globaldb_get P h k (snd (now_ms P w)) = globaldb_get P h k w) \<and>
     (\<forall>h k w. globaldb_get P h k (snd (random_device P w)) = globaldb_get P h k w)"

definition store_ok :: "'w platform \<Rightarrow> bool" where
  "store_ok P \<longleftrightarrow> store_puts P \<and> store_frame P"

text \<open>The wall clock in milliseconds, the same helper in both id generators and the stores.\<close>

definition NowMs :: "'w platform \<Rightarrow> 'w proc \<Rightarrow> int64 \<times> 'w proc" where
  "NowMs P p = (case now_ms P (world p) of (t, w) \<Rightarrow> (t, p\<lparr>world := w\<rparr>))"

text \<open>
  The seed of an id generator: wall clock and random token joined by a dash, drawn by the first
  call of a process and kept.
\<close>

definition draw_seed :: "'w platform \<Rightarrow> 'w proc \<Rightarrow> string \<times> 'w proc" where
  "draw_seed P p =
     (let (ms, p1) = NowMs P p;
          (tok, w2) = random_device P (world p1)
      in (show_int (sint ms) @ ''-'' @ show_nat (unat tok), p1\<lparr>world := w2\<rparr>))"

lemma NowMs_frame [frame_simps]:
  "entity_seed (snd (NowMs P p)) = entity_seed p"
  "entity_sequence (snd (NowMs P p)) = entity_sequence p"
  "message_seed (snd (NowMs P p)) = message_seed p"
  "message_sequence (snd (NowMs P p)) = message_sequence p"
  "dart_port (snd (NowMs P p)) = dart_port p"
  "dart_post_dl (snd (NowMs P p)) = dart_post_dl p"
  "posted (snd (NowMs P p)) = posted p"
  "live_handlers (snd (NowMs P p)) = live_handlers p"
  "heal_handlers (snd (NowMs P p)) = heal_handlers p"
  by (simp_all add: NowMs_def split: prod.split)

lemma draw_seed_frame [frame_simps]:
  "entity_seed (snd (draw_seed P p)) = entity_seed p"
  "entity_sequence (snd (draw_seed P p)) = entity_sequence p"
  "message_seed (snd (draw_seed P p)) = message_seed p"
  "message_sequence (snd (draw_seed P p)) = message_sequence p"
  "dart_port (snd (draw_seed P p)) = dart_port p"
  "dart_post_dl (snd (draw_seed P p)) = dart_post_dl p"
  "posted (snd (draw_seed P p)) = posted p"
  "live_handlers (snd (draw_seed P p)) = live_handlers p"
  "heal_handlers (snd (draw_seed P p)) = heal_handlers p"
  by (simp_all add: draw_seed_def NowMs_def split: prod.split)

lemma store_frame_NowMs [simp]:
  "store_frame P \<Longrightarrow> globaldb_get P h k (world (snd (NowMs P p))) = globaldb_get P h k (world p)"
  by (simp add: NowMs_def store_frame_def case_prod_beta)

lemma store_frame_draw_seed [simp]:
  "store_frame P \<Longrightarrow> globaldb_get P h k (world (snd (draw_seed P p))) = globaldb_get P h k (world p)"
  by (simp add: draw_seed_def NowMs_def store_frame_def case_prod_beta Let_def)

end
