(* ===== verification/GlobalDb.thy ===== *)
theory GlobalDb
  imports Platform
begin

text \<open>
  \<open>GcsGlobalDb\<close> (\<open>src/lib/gcs_storage/gcs_global_db.hpp\<close>, \<open>gcs_global_db.cpp\<close>): the owner of the
  CRDT store. The record holds the class's members; the locally constructed \<open>io_context\<close>,
  scheduler and generator and the joinable io thread are presence flags, the borrowed or owned
  external objects are handles. Every operation takes the object and the process and returns its
  outcome with the new process; the two lifecycle operations also return the new object.
\<close>

section \<open>State\<close>

definition kDefaultDbPath :: string where
  "kDefaultDbPath = ''./gcs.db''"

definition kReputationTopic :: string where
  "kReputationTopic = ''gcs-reputation''"

record gcs_db =
  m_dbPath :: string
  m_io :: bool
  m_scheduler :: bool
  m_graphsyncNetwork :: "handle option"
  m_generator :: bool
  m_db :: "handle option"
  m_pubsub :: "handle option"
  m_ioThread :: bool
  m_running :: bool

text \<open>The constructor stores the configuration only.\<close>

definition GcsGlobalDb_new :: "string \<Rightarrow> gcs_db" where
  "GcsGlobalDb_new path = \<lparr>m_dbPath = path, m_io = False, m_scheduler = False,
     m_graphsyncNetwork = None, m_generator = False, m_db = None, m_pubsub = None,
     m_ioThread = False, m_running = False\<rparr>"

fun MapGlobalDbError :: "globaldb_error \<Rightarrow> error" where
  "MapGlobalDbError ROCKSDB_IO = GcsDbError"
| "MapGlobalDbError IPFS_DB_NOT_CREATED = GcsDbError"
| "MapGlobalDbError DAG_SYNCHER_NOT_LISTENING = GcsDbError"
| "MapGlobalDbError CRDT_DATASTORE_NOT_CREATED = GcsDbError"
| "MapGlobalDbError PUBSUB_BROADCASTER_NOT_CREATED = GcsDbError"
| "MapGlobalDbError INVALID_PARAMETERS = GcsDbError"
| "MapGlobalDbError GLOBALDB_NOT_STARTED = GcsDbError"
| "MapGlobalDbError (Globaldb_error_unlisted _) = GcsDbError"

definition ExtractGlobalDbError :: "'w platform \<Rightarrow> int \<Rightarrow> globaldb_error" where
  "ExtractGlobalDbError P ec = globaldb_error_of P ec"

section \<open>Lifecycle\<close>

text \<open>The resets of both failure paths and of \<open>Shutdown\<close>.\<close>

definition reset_members :: "gcs_db \<Rightarrow> gcs_db" where
  "reset_members d = d\<lparr>m_db := None, m_pubsub := None, m_generator := False,
     m_graphsyncNetwork := None, m_scheduler := False, m_io := False\<rparr>"

definition GcsGlobalDb_Initialize_injected ::
  "'w platform \<Rightarrow> handle option \<Rightarrow> handle option \<Rightarrow> gcs_db \<Rightarrow> 'w proc
     \<Rightarrow> unit result \<times> gcs_db \<times> 'w proc" where
  "GcsGlobalDb_Initialize_injected P pubsub network d p =
     (if m_running d then (Inl GcsDbError, d, p)
      else case pubsub of None \<Rightarrow> (Inl GcsDbError, d, p)
      | Some ps \<Rightarrow> (case network of None \<Rightarrow> (Inl GcsDbError, d, p)
      | Some net \<Rightarrow>
          let d1 = d\<lparr>m_io := True, m_scheduler := True, m_graphsyncNetwork := Some net,
                     m_generator := True, m_pubsub := Some ps\<rparr>
          in case globaldb_new P (m_dbPath d1) ps net (world p) of
               (Inl ec, w1) \<Rightarrow>
                 (Inl (MapGlobalDbError (ExtractGlobalDbError P ec)),
                  reset_members d1, p\<lparr>world := w1\<rparr>)
             | (Inr h, w1) \<Rightarrow>
                 let d2 = d1\<lparr>m_db := Some h\<rparr>;
                     w2 = globaldb_start P h w1;
                     w3 = globaldb_add_listen P h kReputationTopic w2;
                     (broadcastOk, w4) = globaldb_add_broadcast P h kReputationTopic w3
                 in if \<not> broadcastOk
                    then (Inl GcsDbError, reset_members d2,
                          p\<lparr>world := globaldb_shutdown_now P h w4\<rparr>)
                    else (Inr (), d2\<lparr>m_ioThread := True, m_running := True\<rparr>, p\<lparr>world := w4\<rparr>)))"

definition GcsGlobalDb_Initialize ::
  "'w platform \<Rightarrow> gcs_db \<Rightarrow> 'w proc \<Rightarrow> unit result \<times> gcs_db \<times> 'w proc" where
  "GcsGlobalDb_Initialize P d p =
     (case sdk_get_node P (world p) of
        None \<Rightarrow> (Inl SdkNotInitialized, d, p)
      | Some node \<Rightarrow>
          (case node_pubsub P node (world p) of
             None \<Rightarrow> (Inl SdkNotInitialized, d, p)
           | Some ps \<Rightarrow>
               (case node_graphsync P node (world p) of
                  None \<Rightarrow> (Inl SdkNotInitialized, d, p)
                | Some net \<Rightarrow> GcsGlobalDb_Initialize_injected P (Some ps) (Some net) d p)))"

text \<open>
  Stop the io context, join the io thread, then shut the store down, then drop every member.
  The join makes the thread not joinable.
\<close>

definition GcsGlobalDb_Shutdown :: "'w platform \<Rightarrow> gcs_db \<Rightarrow> 'w proc \<Rightarrow> gcs_db \<times> 'w proc" where
  "GcsGlobalDb_Shutdown P d p =
     (if \<not> m_running d then (d, p)
      else let d1 = d\<lparr>m_ioThread := False\<rparr>;
               p1 = (case m_db d1 of Some h \<Rightarrow> p\<lparr>world := globaldb_shutdown_now P h (world p)\<rparr>
                                    | None \<Rightarrow> p)
           in ((reset_members d1)\<lparr>m_running := False\<rparr>, p1))"

definition GcsGlobalDb_IsRunning :: "gcs_db \<Rightarrow> bool" where
  "GcsGlobalDb_IsRunning d = m_running d"

definition GcsGlobalDb_GraphsyncNetwork :: "gcs_db \<Rightarrow> handle option" where
  "GcsGlobalDb_GraphsyncNetwork d = m_graphsyncNetwork d"

section \<open>Store and topic operations\<close>

text \<open>
  The common shape of the mutating wrappers: refuse when not running, else call the store through
  \<open>m_db\<close> and map a failure to \<open>GcsDbError\<close>. The dereference is defined whenever the object is
  running (\<open>gdb_ok_running\<close> below).
\<close>

definition with_db ::
  "gcs_db \<Rightarrow> (handle \<Rightarrow> 'w \<Rightarrow> bool \<times> 'w) \<Rightarrow> 'w proc \<Rightarrow> unit result \<times> 'w proc" where
  "with_db d call p =
     (if \<not> m_running d then (Inl GcsDbError, p)
      else case call (the (m_db d)) (world p) of
             (ok, w) \<Rightarrow> (if ok then Inr () else Inl GcsDbError, p\<lparr>world := w\<rparr>))"

definition GcsGlobalDb_AddBroadcastTopic ::
  "'w platform \<Rightarrow> gcs_db \<Rightarrow> string \<Rightarrow> 'w proc \<Rightarrow> unit result \<times> 'w proc" where
  "GcsGlobalDb_AddBroadcastTopic P d topic p =
     with_db d (\<lambda>h. globaldb_add_broadcast P h topic) p"

definition GcsGlobalDb_AddListenTopic ::
  "'w platform \<Rightarrow> gcs_db \<Rightarrow> string \<Rightarrow> 'w proc \<Rightarrow> unit result \<times> 'w proc" where
  "GcsGlobalDb_AddListenTopic P d topic p =
     (if \<not> m_running d then (Inl GcsDbError, p)
      else (Inr (), p\<lparr>world := globaldb_add_listen P (the (m_db d)) topic (world p)\<rparr>))"

definition GcsGlobalDb_Put_topics ::
  "'w platform \<Rightarrow> gcs_db \<Rightarrow> string \<Rightarrow> bytes \<Rightarrow> string set \<Rightarrow> 'w proc \<Rightarrow> unit result \<times> 'w proc" where
  "GcsGlobalDb_Put_topics P d key val topics p =
     with_db d (\<lambda>h. globaldb_put P h key val topics) p"

definition GcsGlobalDb_Put ::
  "'w platform \<Rightarrow> gcs_db \<Rightarrow> string \<Rightarrow> bytes \<Rightarrow> 'w proc \<Rightarrow> unit result \<times> 'w proc" where
  "GcsGlobalDb_Put P d key val p = GcsGlobalDb_Put_topics P d key val {} p"

definition GcsGlobalDb_PutLocal ::
  "'w platform \<Rightarrow> gcs_db \<Rightarrow> string \<Rightarrow> bytes \<Rightarrow> string \<Rightarrow> 'w proc \<Rightarrow> unit result \<times> 'w proc" where
  "GcsGlobalDb_PutLocal P d key val ident p =
     with_db d (\<lambda>h. globaldb_put_local P h key val ident) p"

definition GcsGlobalDb_QueryKeyValues ::
  "'w platform \<Rightarrow> gcs_db \<Rightarrow> string \<Rightarrow> 'w proc \<Rightarrow> (string \<times> bytes) list result" where
  "GcsGlobalDb_QueryKeyValues P d keyPrefix p =
     (if \<not> m_running d then Inl GcsDbError
      else case globaldb_query P (the (m_db d)) keyPrefix (world p) of
             None \<Rightarrow> Inl GcsDbError
           | Some entries \<Rightarrow> Inr (map (\<lambda>(k, v). (k, v)) entries))"

definition GcsGlobalDb_RegisterNewElementCallback ::
  "'w platform \<Rightarrow> gcs_db \<Rightarrow> string \<Rightarrow> 'w proc \<Rightarrow> unit result \<times> 'w proc" where
  "GcsGlobalDb_RegisterNewElementCallback P d pat p =
     (if \<not> m_running d then (Inl GcsDbError, p)
      else case globaldb_register P (the (m_db d)) pat (world p) of
             (registered, w) \<Rightarrow>
               if \<not> registered then (Inl GcsDbError, p\<lparr>world := w\<rparr>)
               else (Inr (), p\<lparr>world := w, heal_handlers := heal_handlers p @ [pat]\<rparr>))"

definition GcsGlobalDb_Publish ::
  "'w platform \<Rightarrow> gcs_db \<Rightarrow> string \<Rightarrow> bytes \<Rightarrow> 'w proc \<Rightarrow> unit result \<times> 'w proc" where
  "GcsGlobalDb_Publish P d topic payload p =
     (if \<not> m_running d then (Inl GcsDbError, p)
      else case m_pubsub d of
             None \<Rightarrow> (Inl SdkNotInitialized, p)
           | Some ps \<Rightarrow>
               (case pubsub_publish P ps topic payload (world p) of
                  (ok, w) \<Rightarrow> (if ok then Inr () else Inl GcsDbError, p\<lparr>world := w\<rparr>)))"

definition GcsGlobalDb_Subscribe ::
  "'w platform \<Rightarrow> gcs_db \<Rightarrow> string \<Rightarrow> 'w proc \<Rightarrow> unit result \<times> 'w proc" where
  "GcsGlobalDb_Subscribe P d topic p =
     (if \<not> m_running d then (Inl GcsDbError, p)
      else case m_pubsub d of
             None \<Rightarrow> (Inl SdkNotInitialized, p)
           | Some ps \<Rightarrow>
               (case pubsub_subscribe P ps topic (world p) of
                  (subscribed, w) \<Rightarrow>
                    if \<not> subscribed then (Inl GcsDbError, p\<lparr>world := w\<rparr>)
                    else (Inr (), p\<lparr>world := w, live_handlers := live_handlers p @ [topic]\<rparr>)))"

text \<open>
  The adapter around a subscription's callback: the empty end-of-stream optional is dropped, any
  other delivery is forwarded with its topic and bytes.
\<close>

definition subscription_adapter ::
  "(string \<Rightarrow> bytes \<Rightarrow> 's \<Rightarrow> 's) \<Rightarrow> (string \<times> bytes) option \<Rightarrow> 's \<Rightarrow> 's" where
  "subscription_adapter callback delivery s =
     (case delivery of None \<Rightarrow> s | Some (topic, payload) \<Rightarrow> callback topic payload s)"

definition GcsGlobalDb_Get :: "'w platform \<Rightarrow> gcs_db \<Rightarrow> string \<Rightarrow> 'w proc \<Rightarrow> bytes result" where
  "GcsGlobalDb_Get P d key p =
     (if \<not> m_running d then Inl GcsDbError
      else case globaldb_get P (the (m_db d)) key (world p) of
             None \<Rightarrow> Inl GcsDbError
           | Some buf \<Rightarrow> Inr buf)"

section \<open>Lifecycle invariant\<close>

text \<open>
  A stopped object is indistinguishable from a newly constructed one; a running one has every
  member set and a joinable io thread.
\<close>

definition gdb_ok :: "gcs_db \<Rightarrow> bool" where
  "gdb_ok d \<longleftrightarrow>
     (if m_running d
      then m_io d \<and> m_scheduler d \<and> m_generator d \<and> m_ioThread d \<and>
           m_graphsyncNetwork d \<noteq> None \<and> m_db d \<noteq> None \<and> m_pubsub d \<noteq> None
      else d = GcsGlobalDb_new (m_dbPath d))"

lemma gdb_ok_new [simp]: "gdb_ok (GcsGlobalDb_new path)"
  by (simp add: gdb_ok_def GcsGlobalDb_new_def)

lemma gdb_ok_running: "gdb_ok d \<Longrightarrow> m_running d \<Longrightarrow> \<exists>h ps. m_db d = Some h \<and> m_pubsub d = Some ps"
  by (auto simp: gdb_ok_def)

lemma gdb_ok_stopped: "gdb_ok d \<Longrightarrow> \<not> m_running d \<Longrightarrow> d = GcsGlobalDb_new (m_dbPath d)"
  by (simp add: gdb_ok_def)

lemma new_not_running [simp]: "\<not> m_running (GcsGlobalDb_new path)"
  by (simp add: GcsGlobalDb_new_def)

lemma reset_members_new:
  "d = GcsGlobalDb_new path \<Longrightarrow>
   reset_members (d\<lparr>m_io := a, m_scheduler := b, m_graphsyncNetwork := n, m_generator := g,
     m_db := h, m_pubsub := ps\<rparr>) = d"
  by (simp add: reset_members_def GcsGlobalDb_new_def)

lemma Initialize_injected_cases:
  assumes "gdb_ok d"
  shows "\<not> m_running d \<and> (\<exists>h w ps net. pubsub = Some ps \<and> network = Some net \<and>
            GcsGlobalDb_Initialize_injected P pubsub network d p =
              (Inr (), \<lparr>m_dbPath = m_dbPath d, m_io = True, m_scheduler = True,
                 m_graphsyncNetwork = Some net, m_generator = True, m_db = Some h,
                 m_pubsub = Some ps, m_ioThread = True, m_running = True\<rparr>, p\<lparr>world := w\<rparr>))
       \<or> (\<exists>w. GcsGlobalDb_Initialize_injected P pubsub network d p =
              (Inl GcsDbError, d, p\<lparr>world := w\<rparr>))"
proof (cases "m_running d \<or> pubsub = None \<or> network = None")
  case True
  then have "GcsGlobalDb_Initialize_injected P pubsub network d p =
      (Inl GcsDbError, d, p\<lparr>world := world p\<rparr>)"
    by (auto simp: GcsGlobalDb_Initialize_injected_def split: option.split)
  then show ?thesis by blast
next
  case False
  then obtain ps net where ps: "pubsub = Some ps" and net: "network = Some net"
    by auto
  from False assms have stopped: "d = GcsGlobalDb_new (m_dbPath d)"
    by (simp add: gdb_ok_stopped)
  have err: "MapGlobalDbError e = GcsDbError" for e
    by (cases e) simp_all
  obtain path where d: "d = GcsGlobalDb_new path" using stopped by blast
  show ?thesis
    unfolding d by (cases "globaldb_new P path ps net (world p)")
      (auto simp: GcsGlobalDb_Initialize_injected_def ps net Let_def GcsGlobalDb_new_def
        reset_members_def err split: sum.split prod.split)
qed

lemma Initialize_unfold:
  "GcsGlobalDb_Initialize P d p = (Inl SdkNotInitialized, d, p) \<or>
   (\<exists>ps net. GcsGlobalDb_Initialize P d p = GcsGlobalDb_Initialize_injected P ps net d p)"
  by (auto simp: GcsGlobalDb_Initialize_def split: option.split)

lemma Initialize_injected_ok:
  "gdb_ok d \<Longrightarrow> gdb_ok (fst (snd (GcsGlobalDb_Initialize_injected P ps net d p)))"
  by (frule Initialize_injected_cases [of d ps net P p]) (auto simp: gdb_ok_def)

lemma Initialize_ok: "gdb_ok d \<Longrightarrow> gdb_ok (fst (snd (GcsGlobalDb_Initialize P d p)))"
  using Initialize_unfold [of P d p] Initialize_injected_ok by fastforce

lemma Shutdown_stopped [simp]: "\<not> m_running d \<Longrightarrow> GcsGlobalDb_Shutdown P d p = (d, p)"
  by (simp add: GcsGlobalDb_Shutdown_def)

lemma Shutdown_running:
  "gdb_ok d \<Longrightarrow> m_running d \<Longrightarrow>
   GcsGlobalDb_Shutdown P d p =
     (GcsGlobalDb_new (m_dbPath d),
      p\<lparr>world := globaldb_shutdown_now P (the (m_db d)) (world p)\<rparr>)"
  by (auto simp: GcsGlobalDb_Shutdown_def gdb_ok_def reset_members_def GcsGlobalDb_new_def)

lemma Shutdown_new: "gdb_ok d \<Longrightarrow> fst (GcsGlobalDb_Shutdown P d p) = GcsGlobalDb_new (m_dbPath d)"
  by (cases "m_running d") (auto simp: Shutdown_running dest: gdb_ok_stopped)

text \<open>
  The object over its life: initialised and shut down any number of times, while the process
  changes in any way the other operations and threads bring about.
\<close>

inductive gdb_step :: "'w platform \<Rightarrow> gcs_db \<times> 'w proc \<Rightarrow> gcs_db \<times> 'w proc \<Rightarrow> bool"
  for P :: "'w platform" where
  initialize: "gdb_step P (d, p) (snd (GcsGlobalDb_Initialize P d p))"
| initialize_injected: "gdb_step P (d, p) (snd (GcsGlobalDb_Initialize_injected P ps net d p))"
| shutdown: "gdb_step P (d, p) (GcsGlobalDb_Shutdown P d p)"
| other: "gdb_step P (d, p) (d, p')"

inductive gdb_reachable :: "'w platform \<Rightarrow> gcs_db \<times> 'w proc \<Rightarrow> bool"
  for P :: "'w platform" where
  constructed: "gdb_reachable P (GcsGlobalDb_new path, p)"
| step: "gdb_reachable P s \<Longrightarrow> gdb_step P s t \<Longrightarrow> gdb_reachable P t"

lemma gdb_step_ok: "gdb_step P s t \<Longrightarrow> gdb_ok (fst s) \<Longrightarrow> gdb_ok (fst t)"
  by (induction rule: gdb_step.induct)
    (simp_all add: Initialize_ok Initialize_injected_ok Shutdown_new)

lemma gdb_reachable_ok: "gdb_reachable P s \<Longrightarrow> gdb_ok (fst s)"
  by (induction rule: gdb_reachable.induct) (auto intro: gdb_step_ok)

section \<open>Operations on a stopped and on a running object\<close>

lemma with_db_stopped [simp]: "\<not> m_running d \<Longrightarrow> with_db d call p = (Inl GcsDbError, p)"
  by (simp add: with_db_def)

lemma with_db_running:
  "m_running d \<Longrightarrow> with_db d call p =
     (case call (the (m_db d)) (world p) of
        (ok, w) \<Rightarrow> (if ok then Inr () else Inl GcsDbError, p\<lparr>world := w\<rparr>))"
  by (simp add: with_db_def)

lemma with_db_error: "fst (with_db d call p) = Inl e \<Longrightarrow> e = GcsDbError"
  by (auto simp: with_db_def split: if_splits prod.splits)

lemma with_db_frame [frame_simps]:
  "entity_seed (snd (with_db d call p)) = entity_seed p"
  "entity_sequence (snd (with_db d call p)) = entity_sequence p"
  "message_seed (snd (with_db d call p)) = message_seed p"
  "message_sequence (snd (with_db d call p)) = message_sequence p"
  "dart_port (snd (with_db d call p)) = dart_port p"
  "dart_post_dl (snd (with_db d call p)) = dart_post_dl p"
  "posted (snd (with_db d call p)) = posted p"
  "live_handlers (snd (with_db d call p)) = live_handlers p"
  "heal_handlers (snd (with_db d call p)) = heal_handlers p"
  by (simp_all add: with_db_def split: prod.split)

lemma Put_Inr_get:
  assumes "store_puts P" and "GcsGlobalDb_Put_topics P d k v T p = (Inr (), p')"
  shows "GcsGlobalDb_Get P d k p' = Inr v"
    and "k' \<noteq> k \<Longrightarrow> GcsGlobalDb_Get P d k' p' = GcsGlobalDb_Get P d k' p"
proof -
  from assms(2) obtain w where run: "m_running d"
    and put: "globaldb_put P (the (m_db d)) k v T (world p) = (True, w)" and p': "p' = p\<lparr>world := w\<rparr>"
    by (auto simp: GcsGlobalDb_Put_topics_def with_db_def split: if_splits prod.splits)
  from assms(1) put have "globaldb_get P (the (m_db d)) k w = Some v"
    and "k' \<noteq> k \<Longrightarrow> globaldb_get P (the (m_db d)) k' w = globaldb_get P (the (m_db d)) k' (world p)"
    by (auto simp: store_puts_def)
  with run p' show "GcsGlobalDb_Get P d k p' = Inr v"
    and "k' \<noteq> k \<Longrightarrow> GcsGlobalDb_Get P d k' p' = GcsGlobalDb_Get P d k' p"
    by (simp_all add: GcsGlobalDb_Get_def)
qed

end
