(* ===== verification/CoreSession.thy ===== *)
theory CoreSession
  imports GlobalDb
begin

text \<open>
  \<open>CoreSession\<close> (\<open>src/lib/gcs_core.hpp\<close>, \<open>gcs_core.cpp\<close>): the session object the FFI layer owns.
  It holds its configuration and one \<open>GcsGlobalDb\<close>; every operation passes through. The locale
  \<open>kv_session\<close> is the contract the entity catalog and the messaging component rely on, and it is
  interpreted on the session's own \<open>Put\<close> and \<open>Get\<close>.
\<close>

record core_session =
  cs_dbPath :: string
  cs_db :: gcs_db

text \<open>An empty configured path keeps the store's default path.\<close>

definition CoreSession_new :: "string \<Rightarrow> core_session" where
  "CoreSession_new dbPath =
     \<lparr>cs_dbPath = dbPath,
      cs_db = GcsGlobalDb_new (if dbPath \<noteq> [] then dbPath else kDefaultDbPath)\<rparr>"

definition CoreSession_IsRunning :: "core_session \<Rightarrow> bool" where
  "CoreSession_IsRunning s = GcsGlobalDb_IsRunning (cs_db s)"

definition CoreSession_Initialize ::
  "'w platform \<Rightarrow> core_session \<Rightarrow> 'w proc \<Rightarrow> unit result \<times> core_session \<times> 'w proc" where
  "CoreSession_Initialize P s p =
     (case GcsGlobalDb_Initialize P (cs_db s) p of (r, d, p') \<Rightarrow> (r, s\<lparr>cs_db := d\<rparr>, p'))"

definition CoreSession_Initialize_injected ::
  "'w platform \<Rightarrow> handle option \<Rightarrow> handle option \<Rightarrow> core_session \<Rightarrow> 'w proc
     \<Rightarrow> unit result \<times> core_session \<times> 'w proc" where
  "CoreSession_Initialize_injected P pubsub network s p =
     (case GcsGlobalDb_Initialize_injected P pubsub network (cs_db s) p of
        (r, d, p') \<Rightarrow> (r, s\<lparr>cs_db := d\<rparr>, p'))"

definition CoreSession_Shutdown ::
  "'w platform \<Rightarrow> core_session \<Rightarrow> 'w proc \<Rightarrow> core_session \<times> 'w proc" where
  "CoreSession_Shutdown P s p =
     (if CoreSession_IsRunning s
      then case GcsGlobalDb_Shutdown P (cs_db s) p of (d, p') \<Rightarrow> (s\<lparr>cs_db := d\<rparr>, p')
      else (s, p))"

text \<open>The destructor shuts a running session down; the member store's own destructor does it again.\<close>

definition CoreSession_destroy :: "'w platform \<Rightarrow> core_session \<Rightarrow> 'w proc \<Rightarrow> 'w proc" where
  "CoreSession_destroy P s p =
     (let (s1, p1) = (if CoreSession_IsRunning s then CoreSession_Shutdown P s p else (s, p))
      in snd (GcsGlobalDb_Shutdown P (cs_db s1) p1))"

definition CoreSession_AddBroadcastTopic ::
  "'w platform \<Rightarrow> core_session \<Rightarrow> string \<Rightarrow> 'w proc \<Rightarrow> unit result \<times> 'w proc" where
  "CoreSession_AddBroadcastTopic P s topic p = GcsGlobalDb_AddBroadcastTopic P (cs_db s) topic p"

definition CoreSession_AddListenTopic ::
  "'w platform \<Rightarrow> core_session \<Rightarrow> string \<Rightarrow> 'w proc \<Rightarrow> unit result \<times> 'w proc" where
  "CoreSession_AddListenTopic P s topic p = GcsGlobalDb_AddListenTopic P (cs_db s) topic p"

definition CoreSession_Put ::
  "'w platform \<Rightarrow> core_session \<Rightarrow> string \<Rightarrow> bytes \<Rightarrow> 'w proc \<Rightarrow> unit result \<times> 'w proc" where
  "CoreSession_Put P s key val p = GcsGlobalDb_Put P (cs_db s) key val p"

definition CoreSession_Get ::
  "'w platform \<Rightarrow> core_session \<Rightarrow> string \<Rightarrow> 'w proc \<Rightarrow> bytes result" where
  "CoreSession_Get P s key p = GcsGlobalDb_Get P (cs_db s) key p"

definition CoreSession_Put_topics ::
  "'w platform \<Rightarrow> core_session \<Rightarrow> string \<Rightarrow> bytes \<Rightarrow> string set \<Rightarrow> 'w proc
     \<Rightarrow> unit result \<times> 'w proc" where
  "CoreSession_Put_topics P s key val topics p = GcsGlobalDb_Put_topics P (cs_db s) key val topics p"

definition CoreSession_PutLocal ::
  "'w platform \<Rightarrow> core_session \<Rightarrow> string \<Rightarrow> bytes \<Rightarrow> string \<Rightarrow> 'w proc \<Rightarrow> unit result \<times> 'w proc" where
  "CoreSession_PutLocal P s key val ident p = GcsGlobalDb_PutLocal P (cs_db s) key val ident p"

definition CoreSession_QueryKeyValues ::
  "'w platform \<Rightarrow> core_session \<Rightarrow> string \<Rightarrow> 'w proc \<Rightarrow> (string \<times> bytes) list result" where
  "CoreSession_QueryKeyValues P s keyPrefix p = GcsGlobalDb_QueryKeyValues P (cs_db s) keyPrefix p"

definition CoreSession_RegisterNewElementCallback ::
  "'w platform \<Rightarrow> core_session \<Rightarrow> string \<Rightarrow> 'w proc \<Rightarrow> unit result \<times> 'w proc" where
  "CoreSession_RegisterNewElementCallback P s pat p =
     GcsGlobalDb_RegisterNewElementCallback P (cs_db s) pat p"

definition CoreSession_Publish ::
  "'w platform \<Rightarrow> core_session \<Rightarrow> string \<Rightarrow> bytes \<Rightarrow> 'w proc \<Rightarrow> unit result \<times> 'w proc" where
  "CoreSession_Publish P s topic payload p = GcsGlobalDb_Publish P (cs_db s) topic payload p"

definition CoreSession_Subscribe ::
  "'w platform \<Rightarrow> core_session \<Rightarrow> string \<Rightarrow> 'w proc \<Rightarrow> unit result \<times> 'w proc" where
  "CoreSession_Subscribe P s topic p = GcsGlobalDb_Subscribe P (cs_db s) topic p"

section \<open>Frame and error lemmas\<close>

lemmas core_put_defs = CoreSession_Put_def CoreSession_Put_topics_def GcsGlobalDb_Put_def
  GcsGlobalDb_Put_topics_def

lemmas core_topic_defs = CoreSession_AddBroadcastTopic_def CoreSession_AddListenTopic_def
  GcsGlobalDb_AddBroadcastTopic_def GcsGlobalDb_AddListenTopic_def

lemma CoreSession_Put_frame [frame_simps]:
  "entity_seed (snd (CoreSession_Put P s k v p)) = entity_seed p"
  "entity_sequence (snd (CoreSession_Put P s k v p)) = entity_sequence p"
  "message_seed (snd (CoreSession_Put P s k v p)) = message_seed p"
  "message_sequence (snd (CoreSession_Put P s k v p)) = message_sequence p"
  "dart_port (snd (CoreSession_Put P s k v p)) = dart_port p"
  "dart_post_dl (snd (CoreSession_Put P s k v p)) = dart_post_dl p"
  "posted (snd (CoreSession_Put P s k v p)) = posted p"
  "live_handlers (snd (CoreSession_Put P s k v p)) = live_handlers p"
  "heal_handlers (snd (CoreSession_Put P s k v p)) = heal_handlers p"
  by (simp_all add: core_put_defs frame_simps)

lemma CoreSession_Put_topics_frame [frame_simps]:
  "message_seed (snd (CoreSession_Put_topics P s k v T p)) = message_seed p"
  "message_sequence (snd (CoreSession_Put_topics P s k v T p)) = message_sequence p"
  "dart_port (snd (CoreSession_Put_topics P s k v T p)) = dart_port p"
  "dart_post_dl (snd (CoreSession_Put_topics P s k v T p)) = dart_post_dl p"
  "posted (snd (CoreSession_Put_topics P s k v T p)) = posted p"
  "live_handlers (snd (CoreSession_Put_topics P s k v T p)) = live_handlers p"
  by (simp_all add: core_put_defs frame_simps)

lemma CoreSession_Publish_frame [frame_simps]:
  "message_seed (snd (CoreSession_Publish P s k v p)) = message_seed p"
  "message_sequence (snd (CoreSession_Publish P s k v p)) = message_sequence p"
  "dart_port (snd (CoreSession_Publish P s k v p)) = dart_port p"
  "dart_post_dl (snd (CoreSession_Publish P s k v p)) = dart_post_dl p"
  "posted (snd (CoreSession_Publish P s k v p)) = posted p"
  "live_handlers (snd (CoreSession_Publish P s k v p)) = live_handlers p"
  by (simp_all add: CoreSession_Publish_def GcsGlobalDb_Publish_def split: option.split prod.split)

lemma core_topic_frame [frame_simps]:
  "dart_port (snd (CoreSession_AddListenTopic P s t p)) = dart_port p"
  "dart_port (snd (CoreSession_AddBroadcastTopic P s t p)) = dart_port p"
  "dart_post_dl (snd (CoreSession_AddListenTopic P s t p)) = dart_post_dl p"
  "dart_post_dl (snd (CoreSession_AddBroadcastTopic P s t p)) = dart_post_dl p"
  "posted (snd (CoreSession_AddListenTopic P s t p)) = posted p"
  "posted (snd (CoreSession_AddBroadcastTopic P s t p)) = posted p"
  "live_handlers (snd (CoreSession_AddListenTopic P s t p)) = live_handlers p"
  "live_handlers (snd (CoreSession_AddBroadcastTopic P s t p)) = live_handlers p"
  by (simp_all add: core_topic_defs frame_simps)

section \<open>The session as a key/value store\<close>

text \<open>
  What a client of the session relies on: after a successful \<open>put\<close> a \<open>get\<close> of the key returns the
  value and every other key is as before.
\<close>

locale kv_session =
  fixes ok :: bool
    and put :: "string \<Rightarrow> bytes \<Rightarrow> 's \<Rightarrow> unit result \<times> 's"
    and get :: "string \<Rightarrow> 's \<Rightarrow> bytes result"
  assumes get_put_same: "ok \<Longrightarrow> put k v s = (Inr (), s') \<Longrightarrow> get k s' = Inr v"
    and get_put_other: "ok \<Longrightarrow> put k v s = (Inr (), s') \<Longrightarrow> k' \<noteq> k \<Longrightarrow> get k' s' = get k' s"
begin

lemma put_visible:
  "ok \<Longrightarrow> put k v s = (Inr (), s') \<Longrightarrow> get k' s' = (if k' = k then Inr v else get k' s)"
  by (auto simp: get_put_same get_put_other)

text \<open>Two writes under different keys, as the catalog's manifest and record: both are there.\<close>

lemma put_put_visible:
  assumes ok and "put k1 v1 s = (Inr (), s1)" and "put k2 v2 s1 = (Inr (), s2)" and "k1 \<noteq> k2"
  shows "get k1 s2 = Inr v1" and "get k2 s2 = Inr v2"
    and "k \<noteq> k1 \<Longrightarrow> k \<noteq> k2 \<Longrightarrow> get k s2 = get k s"
  using assms put_visible by auto

end

interpretation core_kv: kv_session "store_puts P" "\<lambda>k v p. CoreSession_Put P s k v p"
  "\<lambda>k p. CoreSession_Get P s k p" for P s
  by unfold_locales
    (simp_all add: CoreSession_Put_def CoreSession_Get_def GcsGlobalDb_Put_def Put_Inr_get)

text \<open>A session whose writes also carry broadcast topics: the topics do not change what is stored.\<close>

locale kv_topic_session = kv_session +
  fixes put_topics :: "string \<Rightarrow> bytes \<Rightarrow> string set \<Rightarrow> 's \<Rightarrow> unit result \<times> 's"
  assumes put_topics_get: "ok \<Longrightarrow> put_topics k v T s = (Inr (), s') \<Longrightarrow>
    get k' s' = (if k' = k then Inr v else get k' s)"
begin

lemma put_topics_same: "ok \<Longrightarrow> put_topics k v T s = (Inr (), s') \<Longrightarrow> get k s' = Inr v"
  by (simp add: put_topics_get)

end

interpretation core_topic_kv: kv_topic_session "store_puts P" "\<lambda>k v p. CoreSession_Put P s k v p"
  "\<lambda>k p. CoreSession_Get P s k p" "\<lambda>k v T p. CoreSession_Put_topics P s k v T p" for P s
  by unfold_locales
    (auto simp: CoreSession_Put_topics_def CoreSession_Get_def Put_Inr_get)

section \<open>Lifecycle\<close>

lemma CoreSession_new_ok [simp]: "gdb_ok (cs_db (CoreSession_new path))"
  by (simp add: CoreSession_new_def)

lemma CoreSession_Initialize_ok:
  "gdb_ok (cs_db s) \<Longrightarrow> gdb_ok (cs_db (fst (snd (CoreSession_Initialize P s p))))"
  using Initialize_ok [of "cs_db s" P p]
  by (simp add: CoreSession_Initialize_def case_prod_beta)

lemma CoreSession_Shutdown_ok:
  "gdb_ok (cs_db s) \<Longrightarrow> gdb_ok (cs_db (fst (CoreSession_Shutdown P s p)))"
  by (simp add: CoreSession_Shutdown_def case_prod_beta Shutdown_new)

lemma Initialize_result:
  assumes "gdb_ok d"
  shows "(fst (GcsGlobalDb_Initialize P d p) = Inr () \<and> m_running (fst (snd (GcsGlobalDb_Initialize P d p))))
    \<or> (\<exists>e. fst (GcsGlobalDb_Initialize P d p) = Inl e \<and> fst (snd (GcsGlobalDb_Initialize P d p)) = d)"
proof -
  from Initialize_unfold [of P d p]
  consider (sdk) "GcsGlobalDb_Initialize P d p = (Inl SdkNotInitialized, d, p)"
    | (inj) ps net where "GcsGlobalDb_Initialize P d p = GcsGlobalDb_Initialize_injected P ps net d p" by blast
  then show ?thesis
  proof cases
    case sdk
    then show ?thesis by simp
  next
    case inj
    with Initialize_injected_cases [OF assms, of ps net P p] show ?thesis by auto
  qed
qed

lemma CoreSession_Initialize_result:
  assumes "gdb_ok (cs_db s)"
  shows "(fst (CoreSession_Initialize P s p) = Inr () \<and>
      CoreSession_IsRunning (fst (snd (CoreSession_Initialize P s p))))
    \<or> (\<exists>e. fst (CoreSession_Initialize P s p) = Inl e \<and> fst (snd (CoreSession_Initialize P s p)) = s)"
  using Initialize_result [OF assms, of P p]
  by (auto simp: CoreSession_Initialize_def case_prod_beta CoreSession_IsRunning_def GcsGlobalDb_IsRunning_def)

end
