(* ===== verification/EntityStore.thy ===== *)
theory EntityStore
  imports CoreSession
begin

text \<open>
  The entity catalog (\<open>src/lib/gcs_entity_store.hpp\<close>, \<open>gcs_entity_store.cpp\<close>): spaces and rooms in
  two \<open>std::map\<close>s, persisted as one record per key with a manifest key that lists the ids. The
  store borrows the session, so its operations take the session and the process beside the
  catalog and return the catalog where they change it.
\<close>

section \<open>State and keys\<close>

definition kSpacesKeyPrefix :: string where
  "kSpacesKeyPrefix = ''gcs/entities/spaces/''"

definition kRoomsKeyPrefix :: string where
  "kRoomsKeyPrefix = ''gcs/entities/rooms/''"

definition kManifestKey :: string where
  "kManifestKey = ''gcs/index/manifest''"

definition kSpaceIdPrefix :: string where
  "kSpaceIdPrefix = ''space-''"

definition kRoomIdPrefix :: string where
  "kRoomIdPrefix = ''room-''"

definition kRoomTopicPrefix :: string where
  "kRoomTopicPrefix = ''gcs/chat/''"

record entity_store =
  es_spaces :: "SpaceRecord smap"
  es_rooms :: "RoomRecord smap"

definition EntityStore_new :: entity_store where
  "EntityStore_new = \<lparr>es_spaces = [], es_rooms = []\<rparr>"

section \<open>Operations\<close>

definition EntityStore_NextEntityId ::
  "'w platform \<Rightarrow> string \<Rightarrow> 'w proc \<Rightarrow> string \<times> 'w proc" where
  "EntityStore_NextEntityId P pfx p =
     (let (seed, p1) = (case entity_seed p of
            Some s \<Rightarrow> (s, p)
          | None \<Rightarrow> (case draw_seed P p of (s, q) \<Rightarrow> (s, q\<lparr>entity_seed := Some s\<rparr>)));
          n = entity_sequence p1
      in (pfx @ seed @ ''-'' @ show_nat (unat n), p1\<lparr>entity_sequence := n + 1\<rparr>))"

text \<open>The manifest the code works with: absent and unparseable both read as the empty one.\<close>

definition read_manifest :: "'w platform \<Rightarrow> core_session \<Rightarrow> 'w proc \<Rightarrow> EntityManifest" where
  "read_manifest P s p =
     (case CoreSession_Get P s kManifestKey p of
        Inl _ \<Rightarrow> empty_manifest
      | Inr b \<Rightarrow> (case parse_manifest (proto P) b of None \<Rightarrow> empty_manifest | Some m \<Rightarrow> m))"

definition manifest_add :: "bool \<Rightarrow> string \<Rightarrow> EntityManifest \<Rightarrow> EntityManifest" where
  "manifest_add isSpaceId ident manifest =
     (let ids = (if isSpaceId then mf_space_id manifest else mf_room_id manifest)
      in if ident \<in> set ids then manifest
         else if isSpaceId then manifest\<lparr>mf_space_id := ids @ [ident]\<rparr>
         else manifest\<lparr>mf_room_id := ids @ [ident]\<rparr>)"

definition AppendToManifest ::
  "'w platform \<Rightarrow> core_session \<Rightarrow> bool \<Rightarrow> string \<Rightarrow> 'w proc \<Rightarrow> unit result \<times> 'w proc" where
  "AppendToManifest P s isSpaceId ident p =
     CoreSession_Put P s kManifestKey
       (ser_manifest (proto P) (manifest_add isSpaceId ident (read_manifest P s p))) p"

definition read_space :: "'w platform \<Rightarrow> core_session \<Rightarrow> 'w proc \<Rightarrow> string \<Rightarrow> SpaceRecord option" where
  "read_space P s p ident =
     (case CoreSession_Get P s (kSpacesKeyPrefix @ ident) p of
        Inl _ \<Rightarrow> None
      | Inr b \<Rightarrow> parse_space (proto P) b)"

definition read_room :: "'w platform \<Rightarrow> core_session \<Rightarrow> 'w proc \<Rightarrow> string \<Rightarrow> RoomRecord option" where
  "read_room P s p ident =
     (case CoreSession_Get P s (kRoomsKeyPrefix @ ident) p of
        Inl _ \<Rightarrow> None
      | Inr b \<Rightarrow> parse_room (proto P) b)"

text \<open>The two replay loops: a record that cannot be read or parsed is skipped.\<close>

fun load_spaces :: "(string \<Rightarrow> SpaceRecord option) \<Rightarrow> string list \<Rightarrow> SpaceRecord smap \<Rightarrow> SpaceRecord smap" where
  "load_spaces rd [] m = m"
| "load_spaces rd (i # is) m =
     (case rd i of None \<Rightarrow> load_spaces rd is m
      | Some r \<Rightarrow> load_spaces rd is (smap_emplace (sp_id r) r m))"

fun load_rooms :: "(string \<Rightarrow> RoomRecord option) \<Rightarrow> string list \<Rightarrow> RoomRecord smap \<Rightarrow> RoomRecord smap" where
  "load_rooms rd [] m = m"
| "load_rooms rd (i # is) m =
     (case rd i of None \<Rightarrow> load_rooms rd is m
      | Some r \<Rightarrow> load_rooms rd is (smap_emplace (rm_id r) r m))"

definition EntityStore_LoadFromStore ::
  "'w platform \<Rightarrow> core_session \<Rightarrow> entity_store \<Rightarrow> 'w proc \<Rightarrow> unit result \<times> entity_store" where
  "EntityStore_LoadFromStore P s es p =
     (case CoreSession_Get P s kManifestKey p of
        Inl _ \<Rightarrow> (Inr (), EntityStore_new)
      | Inr b \<Rightarrow>
          (case parse_manifest (proto P) b of
             None \<Rightarrow> (Inr (), EntityStore_new)
           | Some manifest \<Rightarrow>
               (Inr (), \<lparr>es_spaces = load_spaces (read_space P s p) (mf_space_id manifest) [],
                         es_rooms = load_rooms (read_room P s p) (mf_room_id manifest) []\<rparr>)))"

definition EntityStore_CreateSpace ::
  "'w platform \<Rightarrow> core_session \<Rightarrow> string \<Rightarrow> bool \<Rightarrow> bool \<Rightarrow> entity_store \<Rightarrow> 'w proc
     \<Rightarrow> SpaceRecord result \<times> entity_store \<times> 'w proc" where
  "EntityStore_CreateSpace P s name isPublic autoJoinRooms es p =
     (let (ident, p1) = EntityStore_NextEntityId P kSpaceIdPrefix p;
          (nowMs, p2) = NowMs P p1;
          record = \<lparr>sp_id = ident, sp_name = name, sp_is_public = isPublic,
                    sp_auto_join_rooms = autoJoinRooms, sp_created_at_ms = nowMs,
                    sp_updated_at_ms = nowMs, sp_deleted = False, sp_deleted_at_ms = 0\<rparr>
      in case AppendToManifest P s True ident p2 of
           (Inl e, p3) \<Rightarrow> (Inl e, es, p3)
         | (Inr _, p3) \<Rightarrow>
             (case CoreSession_Put P s (kSpacesKeyPrefix @ ident) (ser_space (proto P) record) p3 of
                (Inl e, p4) \<Rightarrow> (Inl e, es, p4)
              | (Inr _, p4) \<Rightarrow>
                  (Inr record, es\<lparr>es_spaces := smap_emplace ident record (es_spaces es)\<rparr>, p4)))"

definition EntityStore_IsValidParentSpace :: "entity_store \<Rightarrow> string \<Rightarrow> bool" where
  "EntityStore_IsValidParentSpace es ident =
     (case map_of (es_spaces es) ident of None \<Rightarrow> False | Some r \<Rightarrow> \<not> sp_deleted r)"

definition EntityStore_CreateRoom ::
  "'w platform \<Rightarrow> core_session \<Rightarrow> string \<Rightarrow> string \<Rightarrow> entity_store \<Rightarrow> 'w proc
     \<Rightarrow> RoomRecord result \<times> entity_store \<times> 'w proc" where
  "EntityStore_CreateRoom P s name parentSpaceId es p =
     (if parentSpaceId \<noteq> [] \<and> \<not> EntityStore_IsValidParentSpace es parentSpaceId
      then (Inl GcsDbError, es, p)
      else let (ident, p1) = EntityStore_NextEntityId P kRoomIdPrefix p;
          (nowMs, p2) = NowMs P p1;
          record = \<lparr>rm_id = ident, rm_name = name, rm_parent_space_id = parentSpaceId,
                    rm_created_at_ms = nowMs, rm_updated_at_ms = nowMs, rm_deleted = False,
                    rm_deleted_at_ms = 0\<rparr>
      in case AppendToManifest P s False ident p2 of
           (Inl e, p3) \<Rightarrow> (Inl e, es, p3)
         | (Inr _, p3) \<Rightarrow>
             (case CoreSession_Put P s (kRoomsKeyPrefix @ ident) (ser_room (proto P) record) p3 of
                (Inl e, p4) \<Rightarrow> (Inl e, es, p4)
              | (Inr _, p4) \<Rightarrow>
                  (Inr record, es\<lparr>es_rooms := smap_emplace ident record (es_rooms es)\<rparr>, p4)))"

definition EntityStore_UpdateSpace ::
  "'w platform \<Rightarrow> core_session \<Rightarrow> SpaceRecord \<Rightarrow> entity_store \<Rightarrow> 'w proc
     \<Rightarrow> SpaceRecord result \<times> entity_store \<times> 'w proc" where
  "EntityStore_UpdateSpace P s desired es p =
     (case map_of (es_spaces es) (sp_id desired) of
        None \<Rightarrow> (Inl GcsDbError, es, p)
      | Some existing \<Rightarrow>
          if sp_deleted existing then (Inl GcsDbError, es, p)
          else let (nowMs, p1) = NowMs P p;
                   updated = desired\<lparr>sp_created_at_ms := sp_created_at_ms existing,
                     sp_deleted := sp_deleted existing, sp_deleted_at_ms := sp_deleted_at_ms existing,
                     sp_updated_at_ms := nowMs\<rparr>
               in (case CoreSession_Put P s (kSpacesKeyPrefix @ sp_id updated)
                          (ser_space (proto P) updated) p1 of
                     (Inl e, p2) \<Rightarrow> (Inl e, es, p2)
                   | (Inr _, p2) \<Rightarrow>
                       (Inr updated,
                        es\<lparr>es_spaces := smap_assign (sp_id updated) updated (es_spaces es)\<rparr>, p2)))"

definition EntityStore_Spaces :: "entity_store \<Rightarrow> SpaceRecord list" where
  "EntityStore_Spaces es = map snd (filter (\<lambda>(k, r). \<not> sp_deleted r) (es_spaces es))"

definition EntityStore_Rooms :: "entity_store \<Rightarrow> RoomRecord list" where
  "EntityStore_Rooms es = map snd (filter (\<lambda>(k, r). \<not> rm_deleted r) (es_rooms es))"

definition EntityStore_DerivedJoinedTopics :: "entity_store \<Rightarrow> string list" where
  "EntityStore_DerivedJoinedTopics es =
     concat (map (\<lambda>room.
        if rm_parent_space_id room = [] then []
        else case map_of (es_spaces es) (rm_parent_space_id room) of
               None \<Rightarrow> []
             | Some parent \<Rightarrow>
                 if sp_deleted parent \<or> \<not> sp_auto_join_rooms parent then []
                 else [kRoomTopicPrefix @ rm_id room])
       (EntityStore_Rooms es))"

section \<open>Identifiers\<close>

lemma NextEntityId_seeded:
  assumes "entity_seed p = Some seed"
  shows "EntityStore_NextEntityId P pfx p =
    (pfx @ seed @ ''-'' @ show_nat (unat (entity_sequence p)),
     p\<lparr>entity_sequence := entity_sequence p + 1\<rparr>)"
  using assms by (simp add: EntityStore_NextEntityId_def Let_def)

lemma NextEntityId_unseeded:
  assumes "entity_seed p = None"
  shows "EntityStore_NextEntityId P pfx p =
    (case draw_seed P p of (seed, q) \<Rightarrow>
       (pfx @ seed @ ''-'' @ show_nat (unat (entity_sequence p)),
        q\<lparr>entity_seed := Some seed, entity_sequence := entity_sequence p + 1\<rparr>))"
proof -
  have "entity_sequence (snd (draw_seed P p)) = entity_sequence p" by (rule draw_seed_frame)
  then show ?thesis
    using assms by (simp add: EntityStore_NextEntityId_def case_prod_beta Let_def)
qed

text \<open>After a call the process has a seed, and the id is that seed with the old counter.\<close>

lemma NextEntityId_form:
  "\<exists>seed. entity_seed (snd (EntityStore_NextEntityId P pfx p)) = Some seed \<and>
     (entity_seed p = None \<or> entity_seed p = Some seed) \<and>
     fst (EntityStore_NextEntityId P pfx p) = pfx @ seed @ ''-'' @ show_nat (unat (entity_sequence p)) \<and>
     entity_sequence (snd (EntityStore_NextEntityId P pfx p)) = entity_sequence p + 1"
  by (cases "entity_seed p")
    (simp_all add: NextEntityId_seeded NextEntityId_unseeded case_prod_beta)

lemma NextEntityId_get [simp]:
  "store_frame P \<Longrightarrow>
   CoreSession_Get P s k (snd (EntityStore_NextEntityId P pfx p)) = CoreSession_Get P s k p"
  by (cases "entity_seed p")
    (simp_all add: NextEntityId_seeded NextEntityId_unseeded case_prod_beta CoreSession_Get_def
      GcsGlobalDb_Get_def)

lemma NowMs_get [simp]:
  "store_frame P \<Longrightarrow> CoreSession_Get P s k (snd (NowMs P p)) = CoreSession_Get P s k p"
  by (simp add: CoreSession_Get_def GcsGlobalDb_Get_def)

lemma seeded_ids_eq:
  "pfx @ seed @ ''-'' @ show_nat m = pfx @ seed' @ ''-'' @ show_nat n \<longleftrightarrow> seed = seed' \<and> m = n"
  using split_last_sep [of seed "CHR ''-''" "show_nat m" seed' "show_nat n"] by auto

lemma ids_same_counter:
  "pfx @ seed @ ''-'' @ show_nat m = pfx' @ seed' @ ''-'' @ show_nat n \<Longrightarrow> m = n"
  using split_last_sep [of "pfx @ seed" "CHR ''-''" "show_nat m" "pfx' @ seed'" "show_nat n"] by auto

text \<open>A run of the generator, one id per requested prefix.\<close>

primrec mint_ids :: "'w platform \<Rightarrow> string list \<Rightarrow> 'w proc \<Rightarrow> string list" where
  "mint_ids P [] p = []"
| "mint_ids P (pfx # pfxs) p =
     (case EntityStore_NextEntityId P pfx p of (i, q) \<Rightarrow> i # mint_ids P pfxs q)"

lemma mint_ids_counters:
  "i \<in> set (mint_ids P pfxs p) \<Longrightarrow>
   \<exists>head k. k < length pfxs \<and> i = head @ ''-'' @ show_nat (unat (entity_sequence p + of_nat k))"
proof (induction pfxs arbitrary: p)
  case (Cons pfx pfxs)
  obtain seed where form: "fst (EntityStore_NextEntityId P pfx p) =
      pfx @ seed @ ''-'' @ show_nat (unat (entity_sequence p))"
    and seq: "entity_sequence (snd (EntityStore_NextEntityId P pfx p)) = entity_sequence p + 1"
    using NextEntityId_form [of P pfx p] by blast
  consider "i = fst (EntityStore_NextEntityId P pfx p)"
    | "i \<in> set (mint_ids P pfxs (snd (EntityStore_NextEntityId P pfx p)))"
    using Cons.prems by (auto simp: case_prod_beta)
  then show ?case
  proof cases
    case 1
    then show ?thesis using form by (intro exI [of _ "pfx @ seed"] exI [of _ 0]) simp
  next
    case 2
    from Cons.IH [OF 2] seq obtain head k where "k < length pfxs"
      and "i = head @ ''-'' @ show_nat (unat (entity_sequence p + 1 + of_nat k))" by auto
    then show ?thesis by (intro exI [of _ head] exI [of _ "Suc k"]) (simp add: add.assoc)
  qed
qed simp

lemma of_nat_uint64_inj: "m < 2 ^ 64 \<Longrightarrow> n < 2 ^ 64 \<Longrightarrow> (of_nat m :: uint64) = of_nat n \<Longrightarrow> m = n"
  by (simp add: word_of_nat_eq_iff take_bit_nat_eq_self)

section \<open>Well-formed catalogs\<close>

text \<open>Both maps are ordered, and every record is filed under its own id.\<close>

definition es_ok :: "entity_store \<Rightarrow> bool" where
  "es_ok es \<longleftrightarrow> smap_ok (es_spaces es) \<and> smap_ok (es_rooms es) \<and>
     (\<forall>k r. map_of (es_spaces es) k = Some r \<longrightarrow> sp_id r = k) \<and>
     (\<forall>k r. map_of (es_rooms es) k = Some r \<longrightarrow> rm_id r = k)"

lemma es_ok_new [simp]: "es_ok EntityStore_new"
  by (simp add: es_ok_def EntityStore_new_def)

definition spaces_keyed :: "SpaceRecord smap \<Rightarrow> bool" where
  "spaces_keyed m \<longleftrightarrow> smap_ok m \<and> (\<forall>k r. map_of m k = Some r \<longrightarrow> sp_id r = k)"

definition rooms_keyed :: "RoomRecord smap \<Rightarrow> bool" where
  "rooms_keyed m \<longleftrightarrow> smap_ok m \<and> (\<forall>k r. map_of m k = Some r \<longrightarrow> rm_id r = k)"

lemma es_ok_keyed: "es_ok es \<longleftrightarrow> spaces_keyed (es_spaces es) \<and> rooms_keyed (es_rooms es)"
  by (auto simp: es_ok_def spaces_keyed_def rooms_keyed_def)

lemma keyed_Nil [simp]: "spaces_keyed []" "rooms_keyed []"
  by (simp_all add: spaces_keyed_def rooms_keyed_def)

lemma spaces_keyed_emplace [simp]: "spaces_keyed m \<Longrightarrow> sp_id r = k \<Longrightarrow> spaces_keyed (smap_emplace k r m)"
  by (simp add: spaces_keyed_def smap_look_emplace split: option.split)

lemma spaces_keyed_assign [simp]: "spaces_keyed m \<Longrightarrow> sp_id r = k \<Longrightarrow> spaces_keyed (smap_assign k r m)"
  by (simp add: spaces_keyed_def smap_look_assign)

lemma rooms_keyed_emplace [simp]: "rooms_keyed m \<Longrightarrow> rm_id r = k \<Longrightarrow> rooms_keyed (smap_emplace k r m)"
  by (simp add: rooms_keyed_def smap_look_emplace split: option.split)

lemma load_spaces_keyed: "spaces_keyed m \<Longrightarrow> spaces_keyed (load_spaces rd is m)"
proof (induction "is" arbitrary: m)
  case (Cons i "is")
  then show ?case by (cases "rd i") simp_all
qed simp

lemma load_rooms_keyed: "rooms_keyed m \<Longrightarrow> rooms_keyed (load_rooms rd is m)"
proof (induction "is" arbitrary: m)
  case (Cons i "is")
  then show ?case by (cases "rd i") simp_all
qed simp

lemma LoadFromStore_eq:
  "EntityStore_LoadFromStore P s es p =
     (Inr (), \<lparr>es_spaces = load_spaces (read_space P s p) (mf_space_id (read_manifest P s p)) [],
               es_rooms = load_rooms (read_room P s p) (mf_room_id (read_manifest P s p)) []\<rparr>)"
  by (auto simp: EntityStore_LoadFromStore_def read_manifest_def empty_manifest_def
      EntityStore_new_def split: sum.split option.split)

lemma LoadFromStore_ok: "es_ok (snd (EntityStore_LoadFromStore P s es p))"
  by (simp add: LoadFromStore_eq es_ok_keyed load_spaces_keyed load_rooms_keyed)

text \<open>Replaying a catalog whose records are filed under their own ids looks each listed id up.\<close>

lemma load_spaces_look:
  "smap_ok m \<Longrightarrow> (\<And>i r. i \<in> set is \<Longrightarrow> rd i = Some r \<Longrightarrow> sp_id r = i) \<Longrightarrow>
   map_of (load_spaces rd is m) k =
     (case map_of m k of Some r \<Rightarrow> Some r | None \<Rightarrow> if k \<in> set is then rd k else None)"
proof (induction "is" arbitrary: m)
  case (Cons i "is")
  show ?case
  proof (cases "rd i")
    case None
    with Cons show ?thesis by (auto split: option.split)
  next
    case (Some r)
    with Cons.prems(2) have "sp_id r = i" by simp
    with Some Cons show ?thesis by (auto simp: smap_look_emplace split: option.split)
  qed
qed (simp split: option.split)

lemma load_rooms_look:
  "smap_ok m \<Longrightarrow> (\<And>i r. i \<in> set is \<Longrightarrow> rd i = Some r \<Longrightarrow> rm_id r = i) \<Longrightarrow>
   map_of (load_rooms rd is m) k =
     (case map_of m k of Some r \<Rightarrow> Some r | None \<Rightarrow> if k \<in> set is then rd k else None)"
proof (induction "is" arbitrary: m)
  case (Cons i "is")
  show ?case
  proof (cases "rd i")
    case None
    with Cons show ?thesis by (auto split: option.split)
  next
    case (Some r)
    with Cons.prems(2) have "rm_id r = i" by simp
    with Some Cons show ?thesis by (auto simp: smap_look_emplace split: option.split)
  qed
qed (simp split: option.split)

section \<open>The catalog in memory against the catalog in the store\<close>

text \<open>What a fresh start would find: the listed ids whose record reads and parses.\<close>

definition stored_space :: "'w platform \<Rightarrow> core_session \<Rightarrow> 'w proc \<Rightarrow> string \<Rightarrow> SpaceRecord option" where
  "stored_space P s p k =
     (if k \<in> set (mf_space_id (read_manifest P s p)) then read_space P s p k else None)"

definition stored_room :: "'w platform \<Rightarrow> core_session \<Rightarrow> 'w proc \<Rightarrow> string \<Rightarrow> RoomRecord option" where
  "stored_room P s p k =
     (if k \<in> set (mf_room_id (read_manifest P s p)) then read_room P s p k else None)"

definition catalog_synced :: "'w platform \<Rightarrow> core_session \<Rightarrow> entity_store \<Rightarrow> 'w proc \<Rightarrow> bool" where
  "catalog_synced P s es p \<longleftrightarrow> es_ok es \<and> utf8_manifest (read_manifest P s p) \<and>
     map_of (es_spaces es) = stored_space P s p \<and> map_of (es_rooms es) = stored_room P s p"

lemma LoadFromStore_synced:
  assumes sync: "catalog_synced P s es p"
  shows "EntityStore_LoadFromStore P s es' p = (Inr (), es)"
proof -
  let ?l = "snd (EntityStore_LoadFromStore P s es' p)"
  have ok: "es_ok es" using sync by (simp add: catalog_synced_def)
  have keyed: "read_space P s p i = Some r \<Longrightarrow> i \<in> set (mf_space_id (read_manifest P s p)) \<Longrightarrow> sp_id r = i"
    "read_room P s p i = Some r' \<Longrightarrow> i \<in> set (mf_room_id (read_manifest P s p)) \<Longrightarrow> rm_id r' = i" for i r r'
    using sync by (auto simp: catalog_synced_def es_ok_def stored_space_def stored_room_def)
  have sp: "map_of (es_spaces ?l) = map_of (es_spaces es)"
    using sync keyed(1)
    by (auto simp: LoadFromStore_eq load_spaces_look fun_eq_iff catalog_synced_def stored_space_def)
  have rm: "map_of (es_rooms ?l) = map_of (es_rooms es)"
    using sync keyed(2)
    by (auto simp: LoadFromStore_eq load_rooms_look fun_eq_iff catalog_synced_def stored_room_def)
  have "smap_ok (es_spaces ?l)" "smap_ok (es_rooms ?l)"
    using LoadFromStore_ok [of P s es' p] by (simp_all add: es_ok_def)
  with ok sp rm have "es_spaces ?l = es_spaces es" "es_rooms ?l = es_rooms es"
    by (auto simp: es_ok_def intro: smap.entries_eqI)
  then show ?thesis by (simp add: LoadFromStore_eq)
qed

section \<open>What the mutators leave in the store\<close>

lemma entity_keys_distinct [simp]:
  "kManifestKey \<noteq> kSpacesKeyPrefix @ x" "kSpacesKeyPrefix @ x \<noteq> kManifestKey"
  "kManifestKey \<noteq> kRoomsKeyPrefix @ x" "kRoomsKeyPrefix @ x \<noteq> kManifestKey"
  "kSpacesKeyPrefix @ x \<noteq> kRoomsKeyPrefix @ y" "kRoomsKeyPrefix @ y \<noteq> kSpacesKeyPrefix @ x"
  by (simp_all add: kManifestKey_def kSpacesKeyPrefix_def kRoomsKeyPrefix_def)

text \<open>Two processes with the same readable keys hold the same stored catalog.\<close>

definition same_store :: "'w platform \<Rightarrow> core_session \<Rightarrow> 'w proc \<Rightarrow> 'w proc \<Rightarrow> bool" where
  "same_store P s p q \<longleftrightarrow> (\<forall>k. CoreSession_Get P s k q = CoreSession_Get P s k p)"

lemma same_store_reads:
  assumes "same_store P s p q"
  shows "read_manifest P s q = read_manifest P s p" "read_space P s q = read_space P s p"
    "read_room P s q = read_room P s p"
  using assms by (simp_all add: same_store_def read_manifest_def read_space_def read_room_def fun_eq_iff)

lemma same_store_synced:
  "same_store P s p q \<Longrightarrow> catalog_synced P s es p \<Longrightarrow> catalog_synced P s es q"
  by (simp add: catalog_synced_def stored_space_def stored_room_def same_store_reads fun_eq_iff)

lemma utf8_manifest_add:
  "utf8_manifest m \<Longrightarrow> valid_utf8 i \<Longrightarrow> utf8_manifest (manifest_add b i m)"
  by (simp add: utf8_manifest_def manifest_add_def Let_def)

lemma manifest_add_members:
  "set (mf_space_id (manifest_add True i m)) = insert i (set (mf_space_id m))"
  "mf_room_id (manifest_add True i m) = mf_room_id m"
  "set (mf_room_id (manifest_add False i m)) = insert i (set (mf_room_id m))"
  "mf_space_id (manifest_add False i m) = mf_space_id m"
  by (auto simp: manifest_add_def Let_def)

lemma AppendToManifest_Inr:
  assumes "store_puts P" and "protobuf_ok (proto P)" and "utf8_manifest (read_manifest P s p)"
    and "valid_utf8 i" and "AppendToManifest P s b i p = (Inr (), q)"
  shows "read_manifest P s q = manifest_add b i (read_manifest P s p)"
    and "k \<noteq> kManifestKey \<Longrightarrow> CoreSession_Get P s k q = CoreSession_Get P s k p"
proof -
  let ?m = "manifest_add b i (read_manifest P s p)"
  have get: "CoreSession_Get P s k q =
      (if k = kManifestKey then Inr (ser_manifest (proto P) ?m) else CoreSession_Get P s k p)" for k
    using core_kv.put_visible [OF assms(1)] assms(5) by (simp add: AppendToManifest_def)
  have "parse_manifest (proto P) (ser_manifest (proto P) ?m) = Some ?m"
    using assms(2-4) by (simp add: protobuf_okD utf8_manifest_add)
  with get show "read_manifest P s q = ?m" by (simp add: read_manifest_def)
  show "k \<noteq> kManifestKey \<Longrightarrow> CoreSession_Get P s k q = CoreSession_Get P s k p"
    by (simp add: get)
qed

lemma CreateSpace_InrE:
  assumes "EntityStore_CreateSpace P s name pub auto es p = (Inr rec, es', p')"
  obtains q2 q3 where
    "sp_id rec = fst (EntityStore_NextEntityId P kSpaceIdPrefix p)"
    "sp_name rec = name" "sp_is_public rec = pub" "sp_auto_join_rooms rec = auto"
    "\<not> sp_deleted rec" "sp_deleted_at_ms rec = 0" "sp_created_at_ms rec = sp_updated_at_ms rec"
    "store_frame P \<Longrightarrow> same_store P s p q2"
    "AppendToManifest P s True (sp_id rec) q2 = (Inr (), q3)"
    "CoreSession_Put P s (kSpacesKeyPrefix @ sp_id rec) (ser_space (proto P) rec) q3 = (Inr (), p')"
    "es' = es\<lparr>es_spaces := smap_emplace (sp_id rec) rec (es_spaces es)\<rparr>"
proof -
  obtain i p1 where i: "EntityStore_NextEntityId P kSpaceIdPrefix p = (i, p1)" by fastforce
  obtain t q2 where t: "NowMs P p1 = (t, q2)" by fastforce
  obtain r3 q3 where app: "AppendToManifest P s True i q2 = (r3, q3)" by fastforce
  define rc where "rc = \<lparr>sp_id = i, sp_name = name, sp_is_public = pub, sp_auto_join_rooms = auto,
      sp_created_at_ms = t, sp_updated_at_ms = t, sp_deleted = False, sp_deleted_at_ms = 0\<rparr>"
  obtain r4 q4 where put: "CoreSession_Put P s (kSpacesKeyPrefix @ i) (ser_space (proto P) rc) q3 = (r4, q4)"
    by fastforce
  have same: "store_frame P \<Longrightarrow> same_store P s p q2"
    using NextEntityId_get [of P s _ kSpaceIdPrefix p] NowMs_get [of P s _ p1] i t
    by (simp add: same_store_def)
  from assms i t app put
  have "r3 = Inr ()" "r4 = Inr ()" "rec = rc" "q4 = p'"
    and es': "es' = es\<lparr>es_spaces := smap_emplace i rc (es_spaces es)\<rparr>"
    by (auto simp: EntityStore_CreateSpace_def rc_def Let_def split: sum.splits if_splits)
  with i app put same show thesis
    by (intro that [of q2 q3]) (auto simp: rc_def)
qed

lemma CreateRoom_InrE:
  assumes "EntityStore_CreateRoom P s name parent es p = (Inr rec, es', p')"
  obtains q2 q3 where
    "rm_id rec = fst (EntityStore_NextEntityId P kRoomIdPrefix p)"
    "rm_name rec = name" "rm_parent_space_id rec = parent"
    "\<not> rm_deleted rec" "rm_deleted_at_ms rec = 0" "rm_created_at_ms rec = rm_updated_at_ms rec"
    "store_frame P \<Longrightarrow> same_store P s p q2"
    "AppendToManifest P s False (rm_id rec) q2 = (Inr (), q3)"
    "CoreSession_Put P s (kRoomsKeyPrefix @ rm_id rec) (ser_room (proto P) rec) q3 = (Inr (), p')"
    "es' = es\<lparr>es_rooms := smap_emplace (rm_id rec) rec (es_rooms es)\<rparr>"
proof -
  obtain i p1 where i: "EntityStore_NextEntityId P kRoomIdPrefix p = (i, p1)" by fastforce
  obtain t q2 where t: "NowMs P p1 = (t, q2)" by fastforce
  obtain r3 q3 where app: "AppendToManifest P s False i q2 = (r3, q3)" by fastforce
  define rc where "rc = \<lparr>rm_id = i, rm_name = name, rm_parent_space_id = parent, rm_created_at_ms = t,
      rm_updated_at_ms = t, rm_deleted = False, rm_deleted_at_ms = 0\<rparr>"
  obtain r4 q4 where put: "CoreSession_Put P s (kRoomsKeyPrefix @ i) (ser_room (proto P) rc) q3 = (r4, q4)"
    by fastforce
  have same: "store_frame P \<Longrightarrow> same_store P s p q2"
    using NextEntityId_get [of P s _ kRoomIdPrefix p] NowMs_get [of P s _ p1] i t
    by (simp add: same_store_def)
  from assms i t app put
  have "r3 = Inr ()" "r4 = Inr ()" "rec = rc" "q4 = p'"
    and es': "es' = es\<lparr>es_rooms := smap_emplace i rc (es_rooms es)\<rparr>"
    by (auto simp: EntityStore_CreateRoom_def rc_def Let_def split: sum.splits if_splits)
  with i app put same show thesis
    by (intro that [of q2 q3]) (auto simp: rc_def)
qed

lemma UpdateSpace_InrE:
  assumes "EntityStore_UpdateSpace P s desired es p = (Inr rec, es', p')"
  obtains existing q1 where
    "map_of (es_spaces es) (sp_id desired) = Some existing" "\<not> sp_deleted existing"
    "rec = desired\<lparr>sp_created_at_ms := sp_created_at_ms existing, sp_deleted := sp_deleted existing,
       sp_deleted_at_ms := sp_deleted_at_ms existing, sp_updated_at_ms := fst (NowMs P p)\<rparr>"
    "store_frame P \<Longrightarrow> same_store P s p q1"
    "CoreSession_Put P s (kSpacesKeyPrefix @ sp_id rec) (ser_space (proto P) rec) q1 = (Inr (), p')"
    "es' = es\<lparr>es_spaces := smap_assign (sp_id rec) rec (es_spaces es)\<rparr>"
proof -
  obtain t q1 where t: "NowMs P p = (t, q1)" by fastforce
  have same: "store_frame P \<Longrightarrow> same_store P s p q1"
    using NowMs_get [of P s _ p] t by (simp add: same_store_def)
  from assms obtain existing where ex: "map_of (es_spaces es) (sp_id desired) = Some existing"
    and alive: "\<not> sp_deleted existing"
    by (auto simp: EntityStore_UpdateSpace_def split: option.splits if_splits)
  from assms t ex alive same show thesis
    by (intro that [of existing q1])
      (auto simp: EntityStore_UpdateSpace_def Let_def split: sum.splits prod.splits)
qed

text \<open>A successful mutator keeps the catalog in memory equal to what a restart would load.\<close>

lemma CreateSpace_synced:
  assumes store: "store_ok P" and codec: "protobuf_ok (proto P)"
    and sync: "catalog_synced P s es p" and name: "valid_utf8 name"
    and run: "EntityStore_CreateSpace P s name pub auto es p = (Inr rec, es', p')"
    and utf8: "valid_utf8 (sp_id rec)" and fresh: "map_of (es_spaces es) (sp_id rec) = None"
  shows "catalog_synced P s es' p'"
proof -
  have puts: "store_puts P" and frame: "store_frame P" using store by (simp_all add: store_ok_def)
  from run obtain q2 q3 where same: "same_store P s p q2"
    and app: "AppendToManifest P s True (sp_id rec) q2 = (Inr (), q3)"
    and put: "CoreSession_Put P s (kSpacesKeyPrefix @ sp_id rec) (ser_space (proto P) rec) q3 = (Inr (), p')"
    and es': "es' = es\<lparr>es_spaces := smap_emplace (sp_id rec) rec (es_spaces es)\<rparr>"
    and "sp_name rec = name"
    using frame by (elim CreateSpace_InrE) blast
  note get = core_kv.put_visible [OF puts put]
  have u: "utf8_manifest (read_manifest P s q2)"
    using sync by (simp add: catalog_synced_def same_store_reads [OF same])
  note mf = AppendToManifest_Inr [OF puts codec u utf8 app]
  have man: "read_manifest P s p' = manifest_add True (sp_id rec) (read_manifest P s p)"
  proof -
    have "read_manifest P s p' = read_manifest P s q3" using get by (simp add: read_manifest_def)
    with mf(1) show ?thesis by (simp add: same_store_reads [OF same])
  qed
  have rd: "read_space P s p' k = (if k = sp_id rec then Some rec else read_space P s p k)"
    "read_room P s p' k = read_room P s p k" for k
    using mf(2) get same \<open>sp_name rec = name\<close> name utf8 codec
    by (simp_all add: read_space_def read_room_def same_store_def protobuf_okD utf8_space_def)
  have "stored_space P s p' = (stored_space P s p)(sp_id rec \<mapsto> rec)"
    "stored_room P s p' = stored_room P s p"
    by (auto simp: stored_space_def stored_room_def man manifest_add_members rd fun_eq_iff)
  moreover have "utf8_manifest (read_manifest P s p')"
    using sync utf8 by (simp add: man utf8_manifest_add catalog_synced_def)
  ultimately show ?thesis
    using sync fresh by (simp add: catalog_synced_def es' es_ok_keyed smap_look_emplace spaces_keyed_def)
qed

lemma CreateRoom_synced:
  assumes store: "store_ok P" and codec: "protobuf_ok (proto P)"
    and sync: "catalog_synced P s es p" and name: "valid_utf8 name" "valid_utf8 parent"
    and run: "EntityStore_CreateRoom P s name parent es p = (Inr rec, es', p')"
    and utf8: "valid_utf8 (rm_id rec)" and fresh: "map_of (es_rooms es) (rm_id rec) = None"
  shows "catalog_synced P s es' p'"
proof -
  have puts: "store_puts P" and frame: "store_frame P" using store by (simp_all add: store_ok_def)
  from run obtain q2 q3 where same: "same_store P s p q2"
    and app: "AppendToManifest P s False (rm_id rec) q2 = (Inr (), q3)"
    and put: "CoreSession_Put P s (kRoomsKeyPrefix @ rm_id rec) (ser_room (proto P) rec) q3 = (Inr (), p')"
    and es': "es' = es\<lparr>es_rooms := smap_emplace (rm_id rec) rec (es_rooms es)\<rparr>"
    and fields: "rm_name rec = name" "rm_parent_space_id rec = parent"
    using frame by (elim CreateRoom_InrE) blast
  note get = core_kv.put_visible [OF puts put]
  have u: "utf8_manifest (read_manifest P s q2)"
    using sync by (simp add: catalog_synced_def same_store_reads [OF same])
  note mf = AppendToManifest_Inr [OF puts codec u utf8 app]
  have man: "read_manifest P s p' = manifest_add False (rm_id rec) (read_manifest P s p)"
  proof -
    have "read_manifest P s p' = read_manifest P s q3" using get by (simp add: read_manifest_def)
    with mf(1) show ?thesis by (simp add: same_store_reads [OF same])
  qed
  have rd: "read_room P s p' k = (if k = rm_id rec then Some rec else read_room P s p k)"
    "read_space P s p' k = read_space P s p k" for k
    using mf(2) get same fields name utf8 codec
    by (simp_all add: read_space_def read_room_def same_store_def protobuf_okD utf8_room_def)
  have "stored_room P s p' = (stored_room P s p)(rm_id rec \<mapsto> rec)"
    "stored_space P s p' = stored_space P s p"
    by (auto simp: stored_space_def stored_room_def man manifest_add_members rd fun_eq_iff)
  moreover have "utf8_manifest (read_manifest P s p')"
    using sync utf8 by (simp add: man utf8_manifest_add catalog_synced_def)
  ultimately show ?thesis
    using sync fresh by (simp add: catalog_synced_def es' es_ok_keyed smap_look_emplace rooms_keyed_def)
qed

lemma UpdateSpace_synced:
  assumes store: "store_ok P" and codec: "protobuf_ok (proto P)"
    and sync: "catalog_synced P s es p" and utf8: "utf8_space desired"
    and run: "EntityStore_UpdateSpace P s desired es p = (Inr rec, es', p')"
  shows "catalog_synced P s es' p'"
proof -
  have puts: "store_puts P" and frame: "store_frame P" using store by (simp_all add: store_ok_def)
  from run obtain existing q1 where ex: "map_of (es_spaces es) (sp_id desired) = Some existing"
    and rc: "rec = desired\<lparr>sp_created_at_ms := sp_created_at_ms existing,
       sp_deleted := sp_deleted existing, sp_deleted_at_ms := sp_deleted_at_ms existing,
       sp_updated_at_ms := fst (NowMs P p)\<rparr>"
    and same: "same_store P s p q1"
    and put: "CoreSession_Put P s (kSpacesKeyPrefix @ sp_id rec) (ser_space (proto P) rec) q1 = (Inr (), p')"
    and es': "es' = es\<lparr>es_spaces := smap_assign (sp_id rec) rec (es_spaces es)\<rparr>"
    using frame by (elim UpdateSpace_InrE) blast
  note get = core_kv.put_visible [OF puts put]
  have man: "read_manifest P s p' = read_manifest P s p"
    using get same by (simp add: read_manifest_def same_store_def)
  have "utf8_space rec" using utf8 by (simp add: rc utf8_space_def)
  then have rd: "read_space P s p' k = (if k = sp_id rec then Some rec else read_space P s p k)"
    "read_room P s p' k = read_room P s p k" for k
    using get same codec by (simp_all add: read_space_def read_room_def same_store_def protobuf_okD)
  have "sp_id rec \<in> set (mf_space_id (read_manifest P s p))"
    using sync ex by (simp add: rc catalog_synced_def stored_space_def split: if_splits)
  then have "stored_space P s p' = (stored_space P s p)(sp_id rec \<mapsto> rec)"
    "stored_room P s p' = stored_room P s p"
    by (auto simp: stored_space_def stored_room_def man rd fun_eq_iff)
  then show ?thesis
    using sync by (simp add: catalog_synced_def es' man es_ok_keyed smap_look_assign)
qed

section \<open>Derived joins\<close>

text \<open>The contract the header gives: every live room whose parent exists, is live and auto-joins.\<close>

definition derives_join :: "entity_store \<Rightarrow> RoomRecord \<Rightarrow> bool" where
  "derives_join es room \<longleftrightarrow> \<not> rm_deleted room \<and> rm_parent_space_id room \<noteq> [] \<and>
     (case map_of (es_spaces es) (rm_parent_space_id room) of
        None \<Rightarrow> False
      | Some parent \<Rightarrow> \<not> sp_deleted parent \<and> sp_auto_join_rooms parent)"

lemma DerivedJoinedTopics_eq:
  "EntityStore_DerivedJoinedTopics es =
     map (\<lambda>(k, room). kRoomTopicPrefix @ rm_id room) (filter (\<lambda>(k, room). derives_join es room) (es_rooms es))"
proof -
  have "concat (map f (map snd (filter (\<lambda>(k, r). \<not> rm_deleted r) rs))) =
      map (\<lambda>(k, r). kRoomTopicPrefix @ rm_id r) (filter (\<lambda>(k, r). derives_join es r) rs)"
    if "f = (\<lambda>room. if rm_parent_space_id room = [] then []
        else case map_of (es_spaces es) (rm_parent_space_id room) of None \<Rightarrow> []
             | Some parent \<Rightarrow> if sp_deleted parent \<or> \<not> sp_auto_join_rooms parent then []
                 else [kRoomTopicPrefix @ rm_id room])" for f and rs :: "RoomRecord smap"
    unfolding that by (induction rs) (auto simp: derives_join_def split: option.splits)
  then show ?thesis
    by (simp add: EntityStore_DerivedJoinedTopics_def EntityStore_Rooms_def)
qed

lemma DerivedJoinedTopics_member:
  assumes "es_ok es"
  shows "t \<in> set (EntityStore_DerivedJoinedTopics es) \<longleftrightarrow>
    (\<exists>k room. map_of (es_rooms es) k = Some room \<and> derives_join es room \<and> t = kRoomTopicPrefix @ k)"
proof -
  have look: "(k, room) \<in> set (es_rooms es) \<longleftrightarrow> map_of (es_rooms es) k = Some room" for k room
    using assms by (simp add: es_ok_def smap.entries_look)
  show ?thesis
    using assms by (force simp: DerivedJoinedTopics_eq look es_ok_def)
qed

lemma DerivedJoinedTopics_distinct:
  assumes "es_ok es"
  shows "distinct (EntityStore_DerivedJoinedTopics es)"
proof -
  have id: "rm_id r = k" if "(k, r) \<in> set (es_rooms es)" for k r
    using assms that by (auto simp: es_ok_def smap.entries_look [symmetric])
  then have "EntityStore_DerivedJoinedTopics es =
      map (\<lambda>(k, r). kRoomTopicPrefix @ k) (filter (\<lambda>(k, r). derives_join es r) (es_rooms es))"
    by (auto simp: DerivedJoinedTopics_eq)
  moreover have "distinct (map fst (filter (\<lambda>(k, r). derives_join es r) (es_rooms es)))"
    using assms smap.entries_sorted [of "es_rooms es"]
    by (simp add: es_ok_def strict_sorted_iff distinct_map_filter)
  ultimately show ?thesis
    by (simp add: distinct_map inj_on_def case_prod_beta) force
qed

section \<open>Runs of catalog operations\<close>

datatype catalog_op = Op_create_space string bool bool | Op_create_room string string
  | Op_update_space SpaceRecord

text \<open>One operation; the flag says that it succeeded.\<close>

fun catalog_apply ::
  "'w platform \<Rightarrow> core_session \<Rightarrow> catalog_op \<Rightarrow> entity_store \<Rightarrow> 'w proc \<Rightarrow> bool \<times> entity_store \<times> 'w proc" where
  "catalog_apply P s (Op_create_space name a b) es p =
     (case EntityStore_CreateSpace P s name a b es p of (r, es', p') \<Rightarrow> (has_value r, es', p'))"
| "catalog_apply P s (Op_create_room name parent) es p =
     (case EntityStore_CreateRoom P s name parent es p of (r, es', p') \<Rightarrow> (has_value r, es', p'))"
| "catalog_apply P s (Op_update_space desired) es p =
     (case EntityStore_UpdateSpace P s desired es p of (r, es', p') \<Rightarrow> (has_value r, es', p'))"

fun catalog_run ::
  "'w platform \<Rightarrow> core_session \<Rightarrow> catalog_op list \<Rightarrow> entity_store \<Rightarrow> 'w proc \<Rightarrow> bool \<times> entity_store \<times> 'w proc" where
  "catalog_run P s [] es p = (True, es, p)"
| "catalog_run P s (op # ops) es p =
     (case catalog_apply P s op es p of
        (ok, es1, p1) \<Rightarrow> (case catalog_run P s ops es1 p1 of (oks, es2, p2) \<Rightarrow> (ok \<and> oks, es2, p2)))"

fun op_utf8 :: "catalog_op \<Rightarrow> bool" where
  "op_utf8 (Op_create_space name a b) = valid_utf8 name"
| "op_utf8 (Op_create_room name parent) = (valid_utf8 name \<and> valid_utf8 parent)"
| "op_utf8 (Op_update_space desired) = utf8_space desired"

text \<open>The generator is ahead of the catalog: no catalogued id has its seed and a counter still to come.\<close>

definition catalog_ids :: "entity_store \<Rightarrow> string set" where
  "catalog_ids es = dom (map_of (es_spaces es)) \<union> dom (map_of (es_rooms es))"

definition entity_seed_ok :: "'w proc \<Rightarrow> bool" where
  "entity_seed_ok p \<longleftrightarrow> (\<forall>seed. entity_seed p = Some seed \<longrightarrow> ascii seed)"

definition ids_fresh :: "entity_store \<Rightarrow> 'w proc \<Rightarrow> bool" where
  "ids_fresh es p \<longleftrightarrow> entity_seed_ok p \<and>
     (case entity_seed p of
        None \<Rightarrow> catalog_ids es = {}
      | Some seed \<Rightarrow> \<forall>pfx n. pfx @ seed @ ''-'' @ show_nat n \<in> catalog_ids es \<longrightarrow>
          n < unat (entity_sequence p))"

lemma catalog_ids_look:
  "map_of (es_spaces es) k = Some r \<Longrightarrow> k \<in> catalog_ids es"
  "map_of (es_rooms es) k = Some r' \<Longrightarrow> k \<in> catalog_ids es"
  by (auto simp: catalog_ids_def)

lemma ids_freshD:
  assumes "ids_fresh es p" and "entity_seed p = Some seed"
    and "pfx @ seed @ ''-'' @ show_nat n \<in> catalog_ids es"
  shows "n < unat (entity_sequence p)"
proof -
  from assms(1) have "case entity_seed p of None \<Rightarrow> catalog_ids es = {}
      | Some seed \<Rightarrow> \<forall>pfx n. pfx @ seed @ ''-'' @ show_nat n \<in> catalog_ids es \<longrightarrow> n < unat (entity_sequence p)"
    unfolding ids_fresh_def by (rule conjunct2)
  then have "\<forall>pfx n. pfx @ seed @ ''-'' @ show_nat n \<in> catalog_ids es \<longrightarrow> n < unat (entity_sequence p)"
    unfolding assms(2) option.case .
  with assms(3) show ?thesis by blast
qed

lemma ids_fresh_unseeded: "ids_fresh es p \<Longrightarrow> entity_seed p = None \<Longrightarrow> catalog_ids es = {}"
  by (simp add: ids_fresh_def)

lemma NextEntityId_fresh:
  assumes "ids_fresh es p"
  shows "fst (EntityStore_NextEntityId P pfx p) \<notin> catalog_ids es"
proof -
  obtain seed where seed: "entity_seed p = None \<or> entity_seed p = Some seed"
    and i: "fst (EntityStore_NextEntityId P pfx p) = pfx @ seed @ ''-'' @ show_nat (unat (entity_sequence p))"
    using NextEntityId_form [of P pfx p] by blast
  show ?thesis
  proof
    assume "fst (EntityStore_NextEntityId P pfx p) \<in> catalog_ids es"
    then have mem: "pfx @ seed @ ''-'' @ show_nat (unat (entity_sequence p)) \<in> catalog_ids es" by (simp only: i)
    from seed show False
    proof
      assume "entity_seed p = Some seed"
      from ids_freshD [OF assms this mem] show False by simp
    qed (use ids_fresh_unseeded [OF assms] mem in blast)
  qed
qed

lemma NextEntityId_ascii:
  assumes "entity_seed_ok p" and "ascii pfx"
  shows "valid_utf8 (fst (EntityStore_NextEntityId P pfx p))"
    and "entity_seed_ok (snd (EntityStore_NextEntityId P pfx p))"
proof -
  have "ascii (fst (draw_seed P p))" by (simp add: draw_seed_def case_prod_beta Let_def)
  with assms have "ascii (fst (EntityStore_NextEntityId P pfx p)) \<and>
      entity_seed_ok (snd (EntityStore_NextEntityId P pfx p))"
    by (cases "entity_seed p")
      (auto simp: NextEntityId_seeded NextEntityId_unseeded case_prod_beta entity_seed_ok_def)
  then show "valid_utf8 (fst (EntityStore_NextEntityId P pfx p))"
    "entity_seed_ok (snd (EntityStore_NextEntityId P pfx p))" by (simp_all add: ascii_valid_utf8)
qed

lemma ascii_prefixes [simp]: "ascii kSpaceIdPrefix" "ascii kRoomIdPrefix"
  by (simp_all add: kSpaceIdPrefix_def kRoomIdPrefix_def)

text \<open>Minting one id and filing it keeps the generator ahead, until the counter wraps.\<close>

lemma ids_fresh_mint:
  assumes fresh: "ids_fresh es p" and room: "unat (entity_sequence p) < 2 ^ 64 - 1" and pfx: "ascii pfx"
    and q: "entity_seed q = entity_seed (snd (EntityStore_NextEntityId P pfx p))"
      "entity_sequence q = entity_sequence (snd (EntityStore_NextEntityId P pfx p))"
    and ids: "catalog_ids es' \<subseteq> insert (fst (EntityStore_NextEntityId P pfx p)) (catalog_ids es)"
  shows "ids_fresh es' q" and "unat (entity_sequence q) = Suc (unat (entity_sequence p))"
proof -
  obtain seed where seed: "entity_seed q = Some seed" "entity_seed p = None \<or> entity_seed p = Some seed"
    and i: "fst (EntityStore_NextEntityId P pfx p) = pfx @ seed @ ''-'' @ show_nat (unat (entity_sequence p))"
    and seq: "entity_sequence q = entity_sequence p + 1"
    using NextEntityId_form [of P pfx p] q by auto
  show step: "unat (entity_sequence q) = Suc (unat (entity_sequence p))"
    using room unfolding seq by (simp add: unat_word_ariths)
  have "entity_seed_ok p" using fresh unfolding ids_fresh_def by (rule conjunct1)
  from NextEntityId_ascii(2) [OF this pfx] have "entity_seed_ok q"
    unfolding entity_seed_ok_def q(1) .
  moreover have "n < unat (entity_sequence q)" if "pfx' @ seed @ ''-'' @ show_nat n \<in> catalog_ids es'" for pfx' n
  proof -
    from that ids consider "pfx' @ seed @ ''-'' @ show_nat n = pfx @ seed @ ''-'' @ show_nat (unat (entity_sequence p))"
      | "pfx' @ seed @ ''-'' @ show_nat n \<in> catalog_ids es" by (auto simp: i)
    then show ?thesis
    proof cases
      case 1
      then have "n = unat (entity_sequence p)" by (rule ids_same_counter)
      with step show ?thesis by simp
    next
      case 2
      with fresh seed(2) have "n < unat (entity_sequence p)"
        using ids_freshD ids_fresh_unseeded by blast
      with step show ?thesis by simp
    qed
  qed
  ultimately show "ids_fresh es' q" unfolding ids_fresh_def seed(1) option.case by blast
qed

lemma CreateSpace_generator:
  "entity_seed (snd (snd (EntityStore_CreateSpace P s n a b es p))) = entity_seed (snd (EntityStore_NextEntityId P kSpaceIdPrefix p))"
  "entity_sequence (snd (snd (EntityStore_CreateSpace P s n a b es p))) = entity_sequence (snd (EntityStore_NextEntityId P kSpaceIdPrefix p))"
  by (simp_all add: EntityStore_CreateSpace_def AppendToManifest_def Let_def case_prod_beta frame_simps
      split: sum.split)

lemma CreateRoom_generator:
  assumes "fst (EntityStore_CreateRoom P s n par es p) = Inr r"
  shows "entity_seed (snd (snd (EntityStore_CreateRoom P s n par es p))) = entity_seed (snd (EntityStore_NextEntityId P kRoomIdPrefix p))"
    and "entity_sequence (snd (snd (EntityStore_CreateRoom P s n par es p))) = entity_sequence (snd (EntityStore_NextEntityId P kRoomIdPrefix p))"
  using assms
  by (auto simp: EntityStore_CreateRoom_def AppendToManifest_def Let_def case_prod_beta frame_simps
      split: sum.splits if_splits)

lemma UpdateSpace_generator:
  "entity_seed (snd (snd (EntityStore_UpdateSpace P s d es p))) = entity_seed p"
  "entity_sequence (snd (snd (EntityStore_UpdateSpace P s d es p))) = entity_sequence p"
  by (simp_all add: EntityStore_UpdateSpace_def Let_def case_prod_beta frame_simps
      split: sum.split option.split)

lemma catalog_ids_emplace:
  "smap_ok (es_spaces es) \<Longrightarrow> catalog_ids (es\<lparr>es_spaces := smap_emplace k r (es_spaces es)\<rparr>) \<subseteq> insert k (catalog_ids es)"
  "smap_ok (es_rooms es) \<Longrightarrow> catalog_ids (es\<lparr>es_rooms := smap_emplace k r' (es_rooms es)\<rparr>) \<subseteq> insert k (catalog_ids es)"
  by (auto simp: catalog_ids_def smap_look_emplace dom_def split: option.splits)

lemma ids_fresh_cong:
  "entity_seed q = entity_seed p \<Longrightarrow> entity_sequence q = entity_sequence p \<Longrightarrow>
   catalog_ids es' = catalog_ids es \<Longrightarrow> ids_fresh es p \<Longrightarrow> ids_fresh es' q"
  unfolding ids_fresh_def entity_seed_ok_def by (cases "entity_seed p") simp_all

lemma catalog_apply_synced:
  assumes store: "store_ok P" and codec: "protobuf_ok (proto P)"
    and sync: "catalog_synced P s es p" and fresh: "ids_fresh es p" and utf8: "op_utf8 op"
    and room: "unat (entity_sequence p) < 2 ^ 64 - 1"
    and run: "catalog_apply P s op es p = (True, es', p')"
  shows "catalog_synced P s es' p'" and "ids_fresh es' p'"
    and "unat (entity_sequence p') \<le> Suc (unat (entity_sequence p))"
proof -
  have maps: "smap_ok (es_spaces es)" "smap_ok (es_rooms es)"
    using sync by (simp_all add: catalog_synced_def es_ok_def)
  have seed: "entity_seed_ok p" using fresh unfolding ids_fresh_def by (rule conjunct1)
  have "catalog_synced P s es' p' \<and> ids_fresh es' p' \<and> unat (entity_sequence p') \<le> Suc (unat (entity_sequence p))"
  proof (cases op)
    case (Op_create_space name a b)
    with run obtain rc where cs: "EntityStore_CreateSpace P s name a b es p = (Inr rc, es', p')"
      by (auto simp: case_prod_beta has_value_iff) (metis prod.collapse)
    then have rid: "sp_id rc = fst (EntityStore_NextEntityId P kSpaceIdPrefix p)"
      and es': "es' = es\<lparr>es_spaces := smap_emplace (sp_id rc) rc (es_spaces es)\<rparr>"
      by (auto elim: CreateSpace_InrE)
    have new: "map_of (es_spaces es) (sp_id rc) = None"
      using NextEntityId_fresh [OF fresh, of P kSpaceIdPrefix] catalog_ids_look(1) by (fastforce simp: rid)
    have "valid_utf8 (sp_id rc)" using NextEntityId_ascii(1) [OF seed] by (simp add: rid)
    with CreateSpace_synced [OF store codec sync _ cs _ new] utf8 Op_create_space
    have "catalog_synced P s es' p'" by simp
    moreover have "entity_seed p' = entity_seed (snd (EntityStore_NextEntityId P kSpaceIdPrefix p))"
      "entity_sequence p' = entity_sequence (snd (EntityStore_NextEntityId P kSpaceIdPrefix p))"
      using CreateSpace_generator [of P s name a b es p] cs by simp_all
    note ids_fresh_mint [OF fresh room _ this, of es']
    moreover have "catalog_ids es' \<subseteq> insert (fst (EntityStore_NextEntityId P kSpaceIdPrefix p)) (catalog_ids es)"
      using catalog_ids_emplace(1) [OF maps(1)] by (simp add: es' rid)
    ultimately show ?thesis by simp
  next
    case (Op_create_room name parent)
    with run obtain rc where cr: "EntityStore_CreateRoom P s name parent es p = (Inr rc, es', p')"
      by (auto simp: case_prod_beta has_value_iff) (metis prod.collapse)
    then have rid: "rm_id rc = fst (EntityStore_NextEntityId P kRoomIdPrefix p)"
      and es': "es' = es\<lparr>es_rooms := smap_emplace (rm_id rc) rc (es_rooms es)\<rparr>"
      by (auto elim: CreateRoom_InrE)
    have new: "map_of (es_rooms es) (rm_id rc) = None"
      using NextEntityId_fresh [OF fresh, of P kRoomIdPrefix] catalog_ids_look(2) by (fastforce simp: rid)
    have "valid_utf8 (rm_id rc)" using NextEntityId_ascii(1) [OF seed] by (simp add: rid)
    with CreateRoom_synced [OF store codec sync _ _ cr _ new] utf8 Op_create_room
    have "catalog_synced P s es' p'" by simp
    moreover have "entity_seed p' = entity_seed (snd (EntityStore_NextEntityId P kRoomIdPrefix p))"
      "entity_sequence p' = entity_sequence (snd (EntityStore_NextEntityId P kRoomIdPrefix p))"
      using CreateRoom_generator [of P s name parent es p rc] cr by simp_all
    note ids_fresh_mint [OF fresh room _ this, of es']
    moreover have "catalog_ids es' \<subseteq> insert (fst (EntityStore_NextEntityId P kRoomIdPrefix p)) (catalog_ids es)"
      using catalog_ids_emplace(2) [OF maps(2)] by (simp add: es' rid)
    ultimately show ?thesis by simp
  next
    case (Op_update_space d)
    with run obtain rc where up: "EntityStore_UpdateSpace P s d es p = (Inr rc, es', p')"
      by (auto simp: case_prod_beta has_value_iff) (metis prod.collapse)
    then have es': "es' = es\<lparr>es_spaces := smap_assign (sp_id d) rc (es_spaces es)\<rparr>"
      and ex: "map_of (es_spaces es) (sp_id d) \<noteq> None"
      by (auto elim: UpdateSpace_InrE)
    have "catalog_ids es' = catalog_ids es"
      using ex by (auto simp: es' catalog_ids_def smap_look_assign)
    with UpdateSpace_generator [of P s d es p] up fresh have "ids_fresh es' p'"
      by (intro ids_fresh_cong [of p' p es' es]) simp_all
    with UpdateSpace_synced [OF store codec sync _ up] utf8 Op_update_space
      UpdateSpace_generator [of P s d es p] up show ?thesis by simp
  qed
  then show "catalog_synced P s es' p'" "ids_fresh es' p'"
    "unat (entity_sequence p') \<le> Suc (unat (entity_sequence p))" by blast+
qed

lemma catalog_run_synced:
  assumes "store_ok P" and "protobuf_ok (proto P)" and "catalog_synced P s es p" and "ids_fresh es p"
    and "list_all op_utf8 ops" and "unat (entity_sequence p) + length ops < 2 ^ 64"
    and "catalog_run P s ops es p = (True, es', p')"
  shows "catalog_synced P s es' p'"
  using assms(3-)
proof (induction ops arbitrary: es p)
  case (Cons op ops)
  obtain ok es1 p1 where step: "catalog_apply P s op es p = (ok, es1, p1)" by (metis prod.collapse)
  with Cons.prems(5) have ok: "ok" and rest: "catalog_run P s ops es1 p1 = (True, es', p')"
    by (auto split: prod.splits)
  note one = catalog_apply_synced [OF assms(1,2) Cons.prems(1,2) _ _ step [unfolded ok [THEN eqTrueI]]]
  show ?case
    by (rule Cons.IH [OF _ _ _ _ rest]) (use one Cons.prems in auto)
qed simp

lemma mint_ids_distinct:
  assumes "length pfxs \<le> 2 ^ 64"
  shows "distinct (mint_ids P pfxs p)"
  using assms
proof (induction pfxs arbitrary: p)
  case (Cons pfx pfxs)
  obtain i q where step: "EntityStore_NextEntityId P pfx p = (i, q)" by fastforce
  obtain seed where "i = (pfx @ seed) @ ''-'' @ show_nat (unat (entity_sequence p))"
    and q: "entity_sequence q = entity_sequence p + 1"
    using NextEntityId_form [of P pfx p] unfolding step fst_conv snd_conv append_assoc by blast
  then have i: "\<exists>h. i = h @ ''-'' @ show_nat (unat (entity_sequence p))" by blast
  have "i \<notin> set (mint_ids P pfxs q)"
  proof
    assume "i \<in> set (mint_ids P pfxs q)"
    from mint_ids_counters [OF this] obtain h k where k: "k < length pfxs"
      and i': "i = h @ ''-'' @ show_nat (unat (entity_sequence q + of_nat k))" by blast
    from i obtain h' where h': "i = h' @ ''-'' @ show_nat (unat (entity_sequence p))" by blast
    have "unat (entity_sequence p) = unat (entity_sequence q + of_nat k)"
      by (rule ids_same_counter [of "[]" h' _ "[]" h, unfolded append_Nil]) (rule trans [OF h' [symmetric] i'])
    then have "entity_sequence p = entity_sequence q + of_nat k" by (rule unsigned_word_eqI)
    then have "entity_sequence p = entity_sequence p + (1 + of_nat k)" by (simp only: q add.assoc)
    then have "(of_nat (Suc k) :: uint64) = of_nat 0" by simp
    moreover have "Suc k < 2 ^ 64" using k Cons.prems by simp
    ultimately show False using of_nat_uint64_inj [of "Suc k" 0] by simp
  qed
  with Cons.IH [of q] Cons.prems step show ?case by simp
qed simp

section \<open>Listings\<close>

lemma Spaces_listing:
  assumes "es_ok es"
  shows "sorted_wrt (<) (map sp_id (EntityStore_Spaces es))"
    and "r \<in> set (EntityStore_Spaces es) \<longleftrightarrow> map_of (es_spaces es) (sp_id r) = Some r \<and> \<not> sp_deleted r"
proof -
  have look: "(k, r) \<in> set (es_spaces es) \<longleftrightarrow> map_of (es_spaces es) k = Some r" for k r
    using assms by (simp add: es_ok_def smap.entries_look)
  have id: "map_of (es_spaces es) k = Some r \<Longrightarrow> sp_id r = k" for k r
    using assms by (simp add: es_ok_def)
  have "map sp_id (EntityStore_Spaces es) = map fst (filter (\<lambda>(k, r). \<not> sp_deleted r) (es_spaces es))"
    using look id by (auto simp: EntityStore_Spaces_def)
  moreover have "sorted_wrt (<) (map fst (es_spaces es))"
    using assms by (simp add: es_ok_def smap.entries_sorted)
  ultimately show "sorted_wrt (<) (map sp_id (EntityStore_Spaces es))"
    by (simp add: sorted_wrt_map sorted_wrt_filter)
  have listed: "set (EntityStore_Spaces es) = {r. \<exists>k. map_of (es_spaces es) k = Some r \<and> \<not> sp_deleted r}"
    by (auto simp: EntityStore_Spaces_def image_iff look)
  show "r \<in> set (EntityStore_Spaces es) \<longleftrightarrow> map_of (es_spaces es) (sp_id r) = Some r \<and> \<not> sp_deleted r"
  proof
    assume "r \<in> set (EntityStore_Spaces es)"
    then obtain k where k: "map_of (es_spaces es) k = Some r" "\<not> sp_deleted r" unfolding listed by blast
    with id [OF k(1)] show "map_of (es_spaces es) (sp_id r) = Some r \<and> \<not> sp_deleted r" by simp
  qed (use listed in blast)
qed

lemma Rooms_listing:
  assumes "es_ok es"
  shows "sorted_wrt (<) (map rm_id (EntityStore_Rooms es))"
    and "r \<in> set (EntityStore_Rooms es) \<longleftrightarrow> map_of (es_rooms es) (rm_id r) = Some r \<and> \<not> rm_deleted r"
proof -
  have look: "(k, r) \<in> set (es_rooms es) \<longleftrightarrow> map_of (es_rooms es) k = Some r" for k r
    using assms by (simp add: es_ok_def smap.entries_look)
  have id: "map_of (es_rooms es) k = Some r \<Longrightarrow> rm_id r = k" for k r
    using assms by (simp add: es_ok_def)
  have "map rm_id (EntityStore_Rooms es) = map fst (filter (\<lambda>(k, r). \<not> rm_deleted r) (es_rooms es))"
    using look id by (auto simp: EntityStore_Rooms_def)
  moreover have "sorted_wrt (<) (map fst (es_rooms es))"
    using assms by (simp add: es_ok_def smap.entries_sorted)
  ultimately show "sorted_wrt (<) (map rm_id (EntityStore_Rooms es))"
    by (simp add: sorted_wrt_map sorted_wrt_filter)
  have listed: "set (EntityStore_Rooms es) = {r. \<exists>k. map_of (es_rooms es) k = Some r \<and> \<not> rm_deleted r}"
    by (auto simp: EntityStore_Rooms_def image_iff look)
  show "r \<in> set (EntityStore_Rooms es) \<longleftrightarrow> map_of (es_rooms es) (rm_id r) = Some r \<and> \<not> rm_deleted r"
  proof
    assume "r \<in> set (EntityStore_Rooms es)"
    then obtain k where k: "map_of (es_rooms es) k = Some r" "\<not> rm_deleted r" unfolding listed by blast
    with id [OF k(1)] show "map_of (es_rooms es) (rm_id r) = Some r \<and> \<not> rm_deleted r" by simp
  qed (use listed in blast)
qed

end
