(* ===== verification/Crypto.thy ===== *)
theory Crypto
  imports GcsError
begin

text \<open>
  The stateless OpenSSL adapter (\<open>src/lib/gcs_crypto.hpp\<close>, \<open>gcs_crypto.cpp\<close>). OpenSSL itself is a
  parameter: the record \<open>openssl\<close> holds the EVP and RAND calls the adapter makes, over abstract
  context objects \<open>'k\<close> (key derivation) and \<open>'c\<close> (cipher) and an outside world \<open>'w\<close> from which
  contexts are allocated and random bytes drawn. Each call returns its C status. The adapter's
  short-circuit chains are kept call by call, so every failing status is a branch.
\<close>

section \<open>OpenSSL as a parameter\<close>

record ('w, 'k, 'c) openssl =
  pkey_ctx_new :: "'w \<Rightarrow> 'k option \<times> 'w"
  pkey_derive_init :: "'k \<Rightarrow> int \<times> 'k"
  pkey_set_hkdf_md_sha256 :: "'k \<Rightarrow> int \<times> 'k"
  pkey_set1_hkdf_salt :: "bytes \<Rightarrow> int \<Rightarrow> 'k \<Rightarrow> int \<times> 'k"
  pkey_set1_hkdf_key :: "bytes \<Rightarrow> int \<Rightarrow> 'k \<Rightarrow> int \<times> 'k"
  pkey_add1_hkdf_info :: "bytes \<Rightarrow> int \<Rightarrow> 'k \<Rightarrow> int \<times> 'k"
  pkey_derive :: "nat \<Rightarrow> 'k \<Rightarrow> int \<times> bytes \<times> nat"
  rand_bytes :: "int \<Rightarrow> 'w \<Rightarrow> int \<times> bytes \<times> 'w"
  cipher_ctx_new :: "'w \<Rightarrow> 'c option \<times> 'w"
  encrypt_init_gcm :: "bytes \<Rightarrow> bytes \<Rightarrow> 'c \<Rightarrow> int \<times> 'c"
  encrypt_update :: "bytes \<Rightarrow> int \<Rightarrow> 'c \<Rightarrow> int \<times> bytes \<times> 'c"
  encrypt_final :: "'c \<Rightarrow> int \<times> 'c"
  ctrl_get_tag :: "int \<Rightarrow> 'c \<Rightarrow> int \<times> bytes"
  decrypt_init_gcm :: "bytes \<Rightarrow> bytes \<Rightarrow> 'c \<Rightarrow> int \<times> 'c"
  decrypt_update :: "bytes \<Rightarrow> int \<Rightarrow> 'c \<Rightarrow> int \<times> bytes \<times> 'c"
  ctrl_set_tag :: "int \<Rightarrow> bytes \<Rightarrow> 'c \<Rightarrow> int \<times> 'c"
  decrypt_final :: "'c \<Rightarrow> int"

section \<open>The adapter\<close>

definition kGcmNonceLength :: nat where
  "kGcmNonceLength = 12"

definition kGcmTagLength :: nat where
  "kGcmTagLength = 16"

definition kRoomKeyLengthBytes :: nat where
  "kRoomKeyLengthBytes = 32"

definition kMessagesHkdfSalt :: bytes where
  "kMessagesHkdfSalt = ''gcs-messages-hkdf-v1''"

definition kMessagesHkdfInfo :: bytes where
  "kMessagesHkdfInfo = ''gcs-messages-v1''"

text \<open>\<open>static_cast<int>\<close> of a \<open>size_t\<close>, and a call that writes into a preallocated buffer.\<close>

definition int_of_size :: "nat \<Rightarrow> int" where
  "int_of_size n = sint (of_nat n :: 32 word)"

definition written_into :: "bytes \<Rightarrow> nat \<Rightarrow> bytes" where
  "written_into out n = out @ replicate (n - length out) (char_of (0 :: nat))"

definition hkdf_chain :: "('w, 'k, 'c) openssl \<Rightarrow> string \<Rightarrow> 'k \<Rightarrow> bytes option" where
  "hkdf_chain ssl roomTopic k0 =
     (let (r1, k1) = pkey_derive_init ssl k0 in if r1 \<noteq> 1 then None else
      let (r2, k2) = pkey_set_hkdf_md_sha256 ssl k1 in if r2 \<noteq> 1 then None else
      let (r3, k3) = pkey_set1_hkdf_salt ssl kMessagesHkdfSalt
                       (int_of_size (length kMessagesHkdfSalt)) k2 in if r3 \<noteq> 1 then None else
      let (r4, k4) = pkey_set1_hkdf_key ssl roomTopic (int_of_size (length roomTopic)) k3
        in if r4 \<noteq> 1 then None else
      let (r5, k5) = pkey_add1_hkdf_info ssl kMessagesHkdfInfo
                       (int_of_size (length kMessagesHkdfInfo)) k4 in if r5 \<noteq> 1 then None else
      let (r6, out, outLen) = pkey_derive ssl kRoomKeyLengthBytes k5
        in if r6 \<noteq> 1 \<or> outLen \<noteq> kRoomKeyLengthBytes then None
           else Some (written_into out kRoomKeyLengthBytes))"

definition DeriveRoomKey :: "('w, 'k, 'c) openssl \<Rightarrow> string \<Rightarrow> 'w \<Rightarrow> bytes result \<times> 'w" where
  "DeriveRoomKey ssl roomTopic w =
     (case pkey_ctx_new ssl w of
        (None, w1) \<Rightarrow> (Inl GcsDbError, w1)
      | (Some k0, w1) \<Rightarrow>
          (case hkdf_chain ssl roomTopic k0 of
             None \<Rightarrow> (Inl GcsDbError, w1)
           | Some key \<Rightarrow> (Inr key, w1)))"

definition gcm_encrypt_chain ::
  "('w, 'k, 'c) openssl \<Rightarrow> bytes \<Rightarrow> bytes \<Rightarrow> bytes \<Rightarrow> 'c \<Rightarrow> (bytes \<times> bytes) option" where
  "gcm_encrypt_chain ssl key nonce plaintext c0 =
     (let (r1, c1) = encrypt_init_gcm ssl key nonce c0 in if r1 \<noteq> 1 then None else
      let (r2, out, c2) = encrypt_update ssl plaintext (int_of_size (length plaintext)) c1
        in if r2 \<noteq> 1 then None else
      let (r3, c3) = encrypt_final ssl c2 in if r3 \<noteq> 1 then None else
      let (r4, tag) = ctrl_get_tag ssl (int kGcmTagLength) c3
        in if r4 \<noteq> 1 then None
           else Some (written_into out (length plaintext), written_into tag kGcmTagLength))"

definition EncryptPayload ::
  "('w, 'k, 'c) openssl \<Rightarrow> string \<Rightarrow> bytes \<Rightarrow> 'w \<Rightarrow> bytes result \<times> 'w" where
  "EncryptPayload ssl roomTopic plaintext w =
     (case DeriveRoomKey ssl roomTopic w of
        (Inl e, w1) \<Rightarrow> (Inl e, w1)
      | (Inr key, w1) \<Rightarrow>
          (case rand_bytes ssl (int kGcmNonceLength) w1 of
             (r, rnd, w2) \<Rightarrow>
               if r \<noteq> 1 then (Inl GcsDbError, w2)
               else let nonce = written_into rnd kGcmNonceLength in
                 (case cipher_ctx_new ssl w2 of
                    (None, w3) \<Rightarrow> (Inl GcsDbError, w3)
                  | (Some c0, w3) \<Rightarrow>
                      (case gcm_encrypt_chain ssl key nonce plaintext c0 of
                         None \<Rightarrow> (Inl GcsDbError, w3)
                       | Some (ciphertext, tag) \<Rightarrow> (Inr (nonce @ ciphertext @ tag), w3)))))"

definition gcm_decrypt_chain ::
  "('w, 'k, 'c) openssl \<Rightarrow> bytes \<Rightarrow> bytes \<Rightarrow> bytes \<Rightarrow> bytes \<Rightarrow> 'c \<Rightarrow> bytes option" where
  "gcm_decrypt_chain ssl key nonce ciphertext tag c0 =
     (let (r1, c1) = decrypt_init_gcm ssl key nonce c0 in if r1 \<noteq> 1 then None else
      let (r2, out, c2) = decrypt_update ssl ciphertext (int_of_size (length ciphertext)) c1
        in if r2 \<noteq> 1 then None else
      let (r3, c3) = ctrl_set_tag ssl (int kGcmTagLength) tag c2 in if r3 \<noteq> 1 then None else
      if decrypt_final ssl c3 \<noteq> 1 then None else Some (written_into out (length ciphertext)))"

definition DecryptPayload ::
  "('w, 'k, 'c) openssl \<Rightarrow> string \<Rightarrow> bytes \<Rightarrow> 'w \<Rightarrow> bytes result \<times> 'w" where
  "DecryptPayload ssl roomTopic envelope w =
     (if length envelope < kGcmNonceLength + kGcmTagLength then (Inl GcsDbError, w)
      else case DeriveRoomKey ssl roomTopic w of
        (Inl e, w1) \<Rightarrow> (Inl e, w1)
      | (Inr key, w1) \<Rightarrow>
          let nonce = take kGcmNonceLength envelope;
              cipherLen = length envelope - kGcmNonceLength - kGcmTagLength;
              ciphertext = take cipherLen (drop kGcmNonceLength envelope);
              tag = drop cipherLen (drop kGcmNonceLength envelope)
          in (case cipher_ctx_new ssl w1 of
                (None, w2) \<Rightarrow> (Inl GcsDbError, w2)
              | (Some c0, w2) \<Rightarrow>
                  (case gcm_decrypt_chain ssl key nonce ciphertext tag c0 of
                     None \<Rightarrow> (Inl GcsDbError, w2)
                   | Some plaintext \<Rightarrow> (Inr plaintext, w2))))"

section \<open>What OpenSSL documents\<close>

text \<open>
  \<open>hkdf_law\<close>: a derivation whose calls all succeed writes the HKDF output for the salt, keying
  material and info it was given. \<open>gcm_law\<close>: an encryption whose calls all succeed yields the
  AES-256-GCM ciphertext and tag; a decryption's final call succeeds exactly when the tag is the
  right one, and then the update has produced the plaintext; opening inverts sealing, and an
  accepted pair is the sealed one. \<open>openssl_available\<close>: allocation and the calls that cannot
  depend on the data succeed.
\<close>

definition hkdf_law ::
  "('w, 'k, 'c) openssl \<Rightarrow> (bytes \<Rightarrow> bytes \<Rightarrow> bytes \<Rightarrow> nat \<Rightarrow> bytes) \<Rightarrow> bool" where
  "hkdf_law ssl kdf \<longleftrightarrow>
     (\<forall>w w' k0 k1 k2 k3 k4 k5 salt ikm info n out outLen.
        pkey_ctx_new ssl w = (Some k0, w') \<and> pkey_derive_init ssl k0 = (1, k1) \<and>
        pkey_set_hkdf_md_sha256 ssl k1 = (1, k2) \<and>
        pkey_set1_hkdf_salt ssl salt (int (length salt)) k2 = (1, k3) \<and>
        pkey_set1_hkdf_key ssl ikm (int (length ikm)) k3 = (1, k4) \<and>
        pkey_add1_hkdf_info ssl info (int (length info)) k4 = (1, k5) \<and>
        pkey_derive ssl n k5 = (1, out, outLen) \<longrightarrow>
        out = kdf salt ikm info n \<and> length out = n \<and> outLen = n)"

definition gcm_encrypt_law ::
  "('w, 'k, 'c) openssl \<Rightarrow> (bytes \<Rightarrow> bytes \<Rightarrow> bytes \<Rightarrow> bytes \<times> bytes) \<Rightarrow> bool" where
  "gcm_encrypt_law ssl seal \<longleftrightarrow>
     (\<forall>w w' c0 c1 c2 c3 key nonce pt ct tag.
        cipher_ctx_new ssl w = (Some c0, w') \<and> length key = 32 \<and> length nonce = 12 \<and>
        encrypt_init_gcm ssl key nonce c0 = (1, c1) \<and>
        encrypt_update ssl pt (int (length pt)) c1 = (1, ct, c2) \<and>
        encrypt_final ssl c2 = (1, c3) \<and> ctrl_get_tag ssl 16 c3 = (1, tag) \<longrightarrow>
        (ct, tag) = seal key nonce pt \<and> length ct = length pt \<and> length tag = 16)"

definition gcm_decrypt_law ::
  "('w, 'k, 'c) openssl \<Rightarrow> (bytes \<Rightarrow> bytes \<Rightarrow> bytes \<Rightarrow> bytes \<Rightarrow> bytes option) \<Rightarrow> bool" where
  "gcm_decrypt_law ssl open_gcm \<longleftrightarrow>
     (\<forall>w w' c0 c1 c2 c3 key nonce ct tag pt.
        cipher_ctx_new ssl w = (Some c0, w') \<and> length key = 32 \<and> length nonce = 12 \<and>
        decrypt_init_gcm ssl key nonce c0 = (1, c1) \<and>
        decrypt_update ssl ct (int (length ct)) c1 = (1, pt, c2) \<and>
        ctrl_set_tag ssl 16 tag c2 = (1, c3) \<longrightarrow>
        length pt = length ct \<and>
        open_gcm key nonce ct tag = (if decrypt_final ssl c3 = 1 then Some pt else None))"

definition gcm_law ::
  "('w, 'k, 'c) openssl \<Rightarrow> (bytes \<Rightarrow> bytes \<Rightarrow> bytes \<Rightarrow> bytes \<times> bytes)
     \<Rightarrow> (bytes \<Rightarrow> bytes \<Rightarrow> bytes \<Rightarrow> bytes \<Rightarrow> bytes option) \<Rightarrow> bool" where
  "gcm_law ssl seal open_gcm \<longleftrightarrow> gcm_encrypt_law ssl seal \<and> gcm_decrypt_law ssl open_gcm \<and>
     (\<forall>key nonce pt. open_gcm key nonce (fst (seal key nonce pt)) (snd (seal key nonce pt)) = Some pt) \<and>
     (\<forall>key nonce ct tag pt. open_gcm key nonce ct tag = Some pt \<longrightarrow> seal key nonce pt = (ct, tag))"

definition openssl_available :: "('w, 'k, 'c) openssl \<Rightarrow> bool" where
  "openssl_available ssl \<longleftrightarrow>
     (\<forall>w. fst (pkey_ctx_new ssl w) \<noteq> None \<and> fst (cipher_ctx_new ssl w) \<noteq> None) \<and>
     (\<forall>k. fst (pkey_derive_init ssl k) = 1 \<and> fst (pkey_set_hkdf_md_sha256 ssl k) = 1) \<and>
     (\<forall>k b. fst (pkey_set1_hkdf_salt ssl b (int (length b)) k) = 1 \<and>
        fst (pkey_set1_hkdf_key ssl b (int (length b)) k) = 1 \<and>
        fst (pkey_add1_hkdf_info ssl b (int (length b)) k) = 1) \<and>
     (\<forall>k n. fst (pkey_derive ssl n k) = 1) \<and>
     (\<forall>c key nonce. fst (decrypt_init_gcm ssl key nonce c) = 1) \<and>
     (\<forall>c b. fst (decrypt_update ssl b (int (length b)) c) = 1) \<and>
     (\<forall>c tag. fst (ctrl_set_tag ssl 16 tag c) = 1)"

text \<open>RAND_bytes fills the whole buffer when it succeeds.\<close>

definition rand_law :: "('w, 'k, 'c) openssl \<Rightarrow> bool" where
  "rand_law ssl \<longleftrightarrow> (\<forall>n w rnd w'. rand_bytes ssl (int n) w = (1, rnd, w') \<longrightarrow> length rnd = n)"

text \<open>A length an \<open>int\<close> can hold, where the narrowing casts are exact.\<close>

definition fits_int :: "'a list \<Rightarrow> bool" where
  "fits_int b \<longleftrightarrow> length b < 2 ^ 31"

lemma int_of_size_fits [simp]: "n < 2 ^ 31 \<Longrightarrow> int_of_size n = int n"
  by (simp add: int_of_size_def signed_of_nat signed_take_bit_int_eq_self)

lemma written_into_full [simp]: "length out = n \<Longrightarrow> written_into out n = out"
  by (simp add: written_into_def)

definition room_key :: "(bytes \<Rightarrow> bytes \<Rightarrow> bytes \<Rightarrow> nat \<Rightarrow> bytes) \<Rightarrow> string \<Rightarrow> bytes" where
  "room_key kdf roomTopic = kdf kMessagesHkdfSalt roomTopic kMessagesHkdfInfo kRoomKeyLengthBytes"

section \<open>The chains against the documented behaviour\<close>

lemma const_lengths [simp]:
  "kGcmNonceLength = 12" "kGcmTagLength = 16" "kRoomKeyLengthBytes = 32"
  "length kMessagesHkdfSalt = 20" "length kMessagesHkdfInfo = 15"
  by (simp_all add: kGcmNonceLength_def kGcmTagLength_def kRoomKeyLengthBytes_def
      kMessagesHkdfSalt_def kMessagesHkdfInfo_def)

lemma hkdf_chain_key:
  assumes law: "hkdf_law ssl kdf" and fit: "fits_int topic"
    and new: "pkey_ctx_new ssl w = (Some k0, w')" and run: "hkdf_chain ssl topic k0 = Some key"
  shows "key = room_key kdf topic \<and> length key = 32"
proof -
  from run fit obtain k1 k2 k3 k4 k5 out where
    steps: "pkey_derive_init ssl k0 = (1, k1)" "pkey_set_hkdf_md_sha256 ssl k1 = (1, k2)"
      "pkey_set1_hkdf_salt ssl kMessagesHkdfSalt (int (length kMessagesHkdfSalt)) k2 = (1, k3)"
      "pkey_set1_hkdf_key ssl topic (int (length topic)) k3 = (1, k4)"
      "pkey_add1_hkdf_info ssl kMessagesHkdfInfo (int (length kMessagesHkdfInfo)) k4 = (1, k5)"
      "pkey_derive ssl kRoomKeyLengthBytes k5 = (1, out, kRoomKeyLengthBytes)"
    and key: "key = written_into out kRoomKeyLengthBytes"
    by (auto simp: hkdf_chain_def Let_def fits_int_def split: prod.splits if_splits)
  from law new steps have "out = room_key kdf topic \<and> length out = kRoomKeyLengthBytes"
    unfolding hkdf_law_def room_key_def by blast
  with key show ?thesis by auto
qed

lemma DeriveRoomKey_key:
  assumes "hkdf_law ssl kdf" and "fits_int topic" and "DeriveRoomKey ssl topic w = (Inr key, w')"
  shows "key = room_key kdf topic \<and> length key = 32"
  using assms hkdf_chain_key [OF assms(1,2)]
  by (fastforce simp: DeriveRoomKey_def split: prod.splits option.splits)

lemma hkdf_chain_available:
  assumes law: "hkdf_law ssl kdf" and fit: "fits_int topic" and av: "openssl_available ssl"
    and new: "pkey_ctx_new ssl w = (Some k0, w')"
  shows "hkdf_chain ssl topic k0 = Some (room_key kdf topic)"
proof -
  have steps: "fst (pkey_derive_init ssl k) = 1" "fst (pkey_set_hkdf_md_sha256 ssl k) = 1"
    "fst (pkey_set1_hkdf_salt ssl b (int (length b)) k) = 1"
    "fst (pkey_set1_hkdf_key ssl b (int (length b)) k) = 1"
    "fst (pkey_add1_hkdf_info ssl b (int (length b)) k) = 1"
    "fst (pkey_derive ssl n k) = 1" for k b n
    using av by (auto simp: openssl_available_def)
  obtain k1 where k1: "pkey_derive_init ssl k0 = (1, k1)"
    using steps(1) [of k0] by (metis prod.collapse)
  obtain k2 where k2: "pkey_set_hkdf_md_sha256 ssl k1 = (1, k2)"
    using steps(2) [of k1] by (metis prod.collapse)
  obtain k3 where k3: "pkey_set1_hkdf_salt ssl kMessagesHkdfSalt (int (length kMessagesHkdfSalt)) k2 = (1, k3)"
    using steps(3) [of kMessagesHkdfSalt k2] by (metis prod.collapse)
  obtain k4 where k4: "pkey_set1_hkdf_key ssl topic (int (length topic)) k3 = (1, k4)"
    using steps(4) [of topic k3] by (metis prod.collapse)
  obtain k5 where k5: "pkey_add1_hkdf_info ssl kMessagesHkdfInfo (int (length kMessagesHkdfInfo)) k4 = (1, k5)"
    using steps(5) [of kMessagesHkdfInfo k4] by (metis prod.collapse)
  obtain out outLen where out: "pkey_derive ssl kRoomKeyLengthBytes k5 = (1, out, outLen)"
    using steps(6) [of kRoomKeyLengthBytes k5] by (metis prod.collapse)
  from law new k1 k2 k3 k4 k5 out
  have "out = room_key kdf topic \<and> length out = kRoomKeyLengthBytes \<and> outLen = kRoomKeyLengthBytes"
    unfolding hkdf_law_def room_key_def by blast
  with fit k1 k2 k3 k4 k5 out show ?thesis
    by (auto simp: hkdf_chain_def fits_int_def)
qed

lemma DeriveRoomKey_available:
  assumes "hkdf_law ssl kdf" and "fits_int topic" and "openssl_available ssl"
  shows "fst (DeriveRoomKey ssl topic w) = Inr (room_key kdf topic)"
proof -
  from assms(3) obtain k0 w' where "pkey_ctx_new ssl w = (Some k0, w')"
    by (metis openssl_available_def not_None_eq prod.collapse)
  then show ?thesis
    using hkdf_chain_available [OF assms] by (simp add: DeriveRoomKey_def)
qed

lemma gcm_law_encrypt:
  assumes "gcm_law ssl seal open_gcm" and "cipher_ctx_new ssl w = (Some c0, w')"
    and "length key = 32" and "length nonce = 12" and "encrypt_init_gcm ssl key nonce c0 = (1, c1)"
    and "encrypt_update ssl pt (int (length pt)) c1 = (1, ct, c2)"
    and "encrypt_final ssl c2 = (1, c3)" and "ctrl_get_tag ssl 16 c3 = (1, tag)"
  shows "(ct, tag) = seal key nonce pt \<and> length ct = length pt \<and> length tag = 16"
proof -
  from assms(1) have "gcm_encrypt_law ssl seal" by (simp add: gcm_law_def)
  with assms(2-) show ?thesis unfolding gcm_encrypt_law_def by blast
qed

lemma gcm_law_decrypt:
  assumes "gcm_law ssl seal open_gcm" and "cipher_ctx_new ssl w = (Some c0, w')"
    and "length key = 32" and "length nonce = 12" and "decrypt_init_gcm ssl key nonce c0 = (1, c1)"
    and "decrypt_update ssl ct (int (length ct)) c1 = (1, pt, c2)"
    and "ctrl_set_tag ssl 16 tag c2 = (1, c3)"
  shows "length pt = length ct \<and>
    open_gcm key nonce ct tag = (if decrypt_final ssl c3 = 1 then Some pt else None)"
proof -
  from assms(1) have "gcm_decrypt_law ssl open_gcm" by (simp add: gcm_law_def)
  with assms(2-) show ?thesis unfolding gcm_decrypt_law_def by blast
qed

lemma gcm_law_open_seal: "gcm_law ssl seal open_gcm \<Longrightarrow>
  open_gcm key nonce (fst (seal key nonce pt)) (snd (seal key nonce pt)) = Some pt"
  by (simp add: gcm_law_def)

lemma gcm_law_seal_open: "gcm_law ssl seal open_gcm \<Longrightarrow> open_gcm key nonce ct tag = Some pt \<Longrightarrow>
  seal key nonce pt = (ct, tag)"
  by (simp add: gcm_law_def)

lemma gcm_encrypt_chain_seal:
  assumes law: "gcm_law ssl seal open_gcm" and fit: "fits_int pt"
    and key: "length key = 32" and nonce: "length nonce = 12"
    and new: "cipher_ctx_new ssl w = (Some c0, w')"
    and run: "gcm_encrypt_chain ssl key nonce pt c0 = Some (ct, tag)"
  shows "(ct, tag) = seal key nonce pt \<and> length ct = length pt \<and> length tag = 16"
proof -
  from run fit obtain c1 c2 c3 out rawtag where
    steps: "encrypt_init_gcm ssl key nonce c0 = (1, c1)"
      "encrypt_update ssl pt (int (length pt)) c1 = (1, out, c2)"
      "encrypt_final ssl c2 = (1, c3)" "ctrl_get_tag ssl 16 c3 = (1, rawtag)"
    and res: "ct = written_into out (length pt)" "tag = written_into rawtag 16"
    by (auto simp: gcm_encrypt_chain_def Let_def fits_int_def split: prod.splits if_splits)
  have "(out, rawtag) = seal key nonce pt \<and> length out = length pt \<and> length rawtag = 16"
    by (rule gcm_law_encrypt [OF law new key nonce steps])
  with res show ?thesis by simp
qed

lemma gcm_decrypt_chain_open:
  assumes law: "gcm_law ssl seal open_gcm" and fit: "fits_int ct"
    and key: "length key = 32" and nonce: "length nonce = 12"
    and new: "cipher_ctx_new ssl w = (Some c0, w')"
    and run: "gcm_decrypt_chain ssl key nonce ct tag c0 = Some pt"
  shows "open_gcm key nonce ct tag = Some pt"
proof -
  from run fit obtain c1 c2 c3 out where
    steps: "decrypt_init_gcm ssl key nonce c0 = (1, c1)"
      "decrypt_update ssl ct (int (length ct)) c1 = (1, out, c2)"
      "ctrl_set_tag ssl 16 tag c2 = (1, c3)" and fin: "decrypt_final ssl c3 = 1"
    and res: "pt = written_into out (length ct)"
    by (auto simp: gcm_decrypt_chain_def Let_def fits_int_def split: prod.splits if_splits)
  have "length out = length ct \<and>
      open_gcm key nonce ct tag = (if decrypt_final ssl c3 = 1 then Some out else None)"
    by (rule gcm_law_decrypt [OF law new key nonce steps])
  with res fin show ?thesis by simp
qed

lemma gcm_decrypt_chain_available:
  assumes law: "gcm_law ssl seal open_gcm" and fit: "fits_int ct"
    and key: "length key = 32" and nonce: "length nonce = 12"
    and new: "cipher_ctx_new ssl w = (Some c0, w')" and av: "openssl_available ssl"
  shows "gcm_decrypt_chain ssl key nonce ct tag c0 = open_gcm key nonce ct tag"
proof -
  have ones: "fst (decrypt_init_gcm ssl key nonce c) = 1" "fst (decrypt_update ssl ct (int (length ct)) c) = 1"
    "fst (ctrl_set_tag ssl 16 tag c) = 1" for c
    using av by (auto simp: openssl_available_def)
  obtain c1 where c1: "decrypt_init_gcm ssl key nonce c0 = (1, c1)"
    using ones(1) [of c0] by (metis prod.collapse)
  obtain out c2 where c2: "decrypt_update ssl ct (int (length ct)) c1 = (1, out, c2)"
    using ones(2) [of c1] by (metis prod.collapse)
  obtain c3 where c3: "ctrl_set_tag ssl 16 tag c2 = (1, c3)"
    using ones(3) [of c2] by (metis prod.collapse)
  have "length out = length ct \<and>
      open_gcm key nonce ct tag = (if decrypt_final ssl c3 = 1 then Some out else None)"
    by (rule gcm_law_decrypt [OF law new key nonce c1 c2 c3])
  with fit c1 c2 c3 show ?thesis
    by (simp add: gcm_decrypt_chain_def fits_int_def)
qed

section \<open>Envelopes\<close>

text \<open>The framing both directions share: nonce, ciphertext, tag.\<close>

definition envelope_of ::
  "(bytes \<Rightarrow> bytes \<Rightarrow> bytes \<Rightarrow> bytes \<times> bytes) \<Rightarrow> bytes \<Rightarrow> bytes \<Rightarrow> bytes \<Rightarrow> bytes" where
  "envelope_of seal key nonce pt = nonce @ fst (seal key nonce pt) @ snd (seal key nonce pt)"

text \<open>All the documented behaviour the adapter relies on, with OpenSSL's resources at hand.\<close>

definition openssl_ok :: "('w, 'k, 'c) openssl \<Rightarrow> bool" where
  "openssl_ok ssl \<longleftrightarrow> rand_law ssl \<and> openssl_available ssl \<and>
     (\<exists>kdf. hkdf_law ssl kdf) \<and> (\<exists>seal open_gcm. gcm_law ssl seal open_gcm)"

lemma EncryptPayload_envelope:
  assumes laws: "hkdf_law ssl kdf" "gcm_law ssl seal open_gcm" "rand_law ssl"
    and fit: "fits_int topic" "fits_int pt"
    and run: "EncryptPayload ssl topic pt w = (Inr env, w')"
  shows "\<exists>nonce ct tag. seal (room_key kdf topic) nonce pt = (ct, tag) \<and> env = nonce @ ct @ tag \<and>
     length nonce = 12 \<and> length ct = length pt \<and> length tag = 16"
proof -
  from run obtain key w1 rnd w2 c0 w3 ct tag where
    key: "DeriveRoomKey ssl topic w = (Inr key, w1)"
    and rnd: "rand_bytes ssl (int 12) w1 = (1, rnd, w2)"
    and new: "cipher_ctx_new ssl w2 = (Some c0, w3)"
    and enc: "gcm_encrypt_chain ssl key (written_into rnd 12) pt c0 = Some (ct, tag)"
    and env: "env = written_into rnd 12 @ ct @ tag"
    by (auto simp: EncryptPayload_def Let_def split: prod.splits sum.splits option.splits if_splits)
  from laws(3) rnd have len: "length rnd = 12" unfolding rand_law_def by blast
  have k: "key = room_key kdf topic" "length key = 32"
    using DeriveRoomKey_key [OF laws(1) fit(1) key] by blast+
  have "(ct, tag) = seal key rnd pt \<and> length ct = length pt \<and> length tag = 16"
    using gcm_encrypt_chain_seal [OF laws(2) fit(2) k(2) len new] enc len by simp
  with env len k(1) show ?thesis by (intro exI [of _ rnd] exI [of _ ct] exI [of _ tag]) simp
qed

lemma DecryptPayload_open:
  assumes laws: "hkdf_law ssl kdf" "gcm_law ssl seal open_gcm" and av: "openssl_available ssl"
    and fit: "fits_int topic" "fits_int ct"
    and len: "length nonce = 12" "length tag = 16"
  shows "fst (DecryptPayload ssl topic (nonce @ ct @ tag) w) =
    (case open_gcm (room_key kdf topic) nonce ct tag of None \<Rightarrow> Inl GcsDbError | Some pt \<Rightarrow> Inr pt)"
proof -
  obtain w1 where key: "DeriveRoomKey ssl topic w = (Inr (room_key kdf topic), w1)"
    using DeriveRoomKey_available [OF laws(1) fit(1) av, of w] by (metis prod.collapse)
  have k: "length (room_key kdf topic) = 32"
    using DeriveRoomKey_key [OF laws(1) fit(1) key] by simp
  obtain c0 w2 where new: "cipher_ctx_new ssl w1 = (Some c0, w2)"
    using av by (metis openssl_available_def not_None_eq prod.collapse)
  show ?thesis
    using gcm_decrypt_chain_available [OF laws(2) fit(2) k len(1) new av, of tag] key new len
    by (simp add: DecryptPayload_def Let_def split: option.split)
qed

section \<open>The seam contract\<close>

text \<open>
  What a user of an encrypt/decrypt pair relies on. The messaging component is written against
  injected callables of this shape; the adapter above provides them in production.
\<close>

locale payload_seam =
  fixes ok :: bool
    and fits :: "bytes \<Rightarrow> bool"
    and enc :: "string \<Rightarrow> bytes \<Rightarrow> 's \<Rightarrow> bytes result \<times> 's"
    and dec :: "string \<Rightarrow> bytes \<Rightarrow> 's \<Rightarrow> bytes result \<times> 's"
  assumes dec_enc: "ok \<Longrightarrow> fits topic \<Longrightarrow> fits pt \<Longrightarrow> enc topic pt s = (Inr env, s1) \<Longrightarrow>
      fst (dec topic env s2) = Inr pt"
begin

lemma enc_injective:
  assumes ok and "fits topic" and "fits pt" and "fits pt'"
    and "enc topic pt s = (Inr env, s1)" and "enc topic pt' s' = (Inr env, s1')"
  shows "pt = pt'"
  using dec_enc [OF assms(1,2,3,5), of s1'] dec_enc [OF assms(1,2,4,6), of s1'] by simp

end

locale crypto_seam = payload_seam +
  assumes enc_expands: "ok \<Longrightarrow> fits topic \<Longrightarrow> fits pt \<Longrightarrow> enc topic pt s = (Inr env, s1) \<Longrightarrow>
      length pt < length env"
begin

text \<open>An envelope is never the plaintext itself.\<close>

lemma enc_opaque:
  "ok \<Longrightarrow> fits topic \<Longrightarrow> fits pt \<Longrightarrow> enc topic pt s = (Inr env, s1) \<Longrightarrow> env \<noteq> pt"
  using enc_expands by blast

end

interpretation gcm_seam: crypto_seam "openssl_ok ssl" fits_int "EncryptPayload ssl" "DecryptPayload ssl"
  for ssl
proof
  fix topic :: string and pt :: bytes and s s1 s2 :: 'a and env :: bytes
  assume ok: "openssl_ok ssl" and fit: "fits_int topic" "fits_int pt"
    and enc: "EncryptPayload ssl topic pt s = (Inr env, s1)"
  from ok obtain kdf seal open_gcm where laws: "hkdf_law ssl kdf" "gcm_law ssl seal open_gcm"
    and av: "openssl_available ssl" and rnd: "rand_law ssl"
    by (auto simp: openssl_ok_def)
  from EncryptPayload_envelope [OF laws rnd fit enc] obtain nonce ct tag where
    seal: "seal (room_key kdf topic) nonce pt = (ct, tag)" and env: "env = nonce @ ct @ tag"
    and len: "length nonce = 12" "length ct = length pt" "length tag = 16" by blast
  from fit(2) len(2) have "fits_int ct" by (simp add: fits_int_def)
  from DecryptPayload_open [OF laws av fit(1) this len(1,3), of s2]
  show "fst (DecryptPayload ssl topic env s2) = Inr pt"
    using gcm_law_open_seal [OF laws(2), of "room_key kdf topic" nonce pt] seal env by simp
  show "length pt < length env" using env len by simp
qed

end
