(* ===== verification/RefPlatform.thy ===== *)
theory RefPlatform
  imports Platform Crypto
begin

text \<open>
  A concrete outside world on which the theorems' hypotheses hold: a serialisation in place of the
  protobuf runtime, a store that is an association list, a clock that ticks, and a reversible
  cipher with a checked tag in place of OpenSSL. It models no code of the repository; it shows that
  what the theorems assume of the outside can be met, and the witnesses compute with it.
\<close>

section \<open>A serialisation\<close>

fun enc_str :: "string \<Rightarrow> bytes" where
  "enc_str [] = [CHR 0x00]"
| "enc_str (c # cs) = CHR 0x01 # c # enc_str cs"

fun dec_str :: "bytes \<Rightarrow> (string \<times> bytes) option" where
  "dec_str (t # b) =
     (if t = CHR 0x00 then Some ([], b)
      else case b of
             [] \<Rightarrow> None
           | c # b' \<Rightarrow> (case dec_str b' of None \<Rightarrow> None | Some (s, r) \<Rightarrow> Some (c # s, r)))"
| "dec_str [] = None"

definition enc_fields :: "string list \<Rightarrow> bytes" where
  "enc_fields xs = concat (map enc_str xs)"

function dec_fields :: "bytes \<Rightarrow> string list option" where
  "dec_fields b =
     (if b = [] then Some []
      else case dec_str b of
             None \<Rightarrow> None
           | Some (s, r) \<Rightarrow>
               if length r < length b
               then (case dec_fields r of None \<Rightarrow> None | Some ss \<Rightarrow> Some (s # ss))
               else None)"
  by pat_completeness auto
termination by (relation "measure length") auto

declare dec_fields.simps [simp del]

lemma dec_enc_str [simp]: "dec_str (enc_str s @ r) = Some (s, r)"
  by (induction s) simp_all

lemma enc_str_nonempty [simp]: "enc_str s \<noteq> []"
  by (cases s) simp_all

lemma dec_enc_fields [simp]: "dec_fields (enc_fields xs) = Some xs"
proof (induction xs)
  case Nil
  show ?case by (simp add: enc_fields_def dec_fields.simps)
next
  case (Cons x xs)
  then show ?case
    by (subst dec_fields.simps) (simp add: enc_fields_def)
qed

definition enc_bool :: "bool \<Rightarrow> string" where
  "enc_bool b = (if b then ''1'' else ''0'')"

definition dec_bool :: "string \<Rightarrow> bool" where
  "dec_bool s = (s = ''1'')"

definition enc_word :: "64 word \<Rightarrow> string" where
  "enc_word w = show_nat (unat w)"

definition dec_word :: "string \<Rightarrow> 64 word" where
  "dec_word s = of_nat (read_nat s)"

definition enc_int :: "int \<Rightarrow> string" where
  "enc_int i = show_int i"

definition dec_int :: "string \<Rightarrow> int" where
  "dec_int s = (case s of [] \<Rightarrow> 0 | c # r \<Rightarrow> if c = CHR ''-'' then - int (read_nat r) else int (read_nat s))"

lemma dec_enc_bool [simp]: "dec_bool (enc_bool b) = b"
  by (simp add: dec_bool_def enc_bool_def)

lemma dec_enc_word [simp]: "dec_word (enc_word w) = w"
  by (simp add: dec_word_def enc_word_def)

lemma dec_enc_int [simp]: "dec_int (enc_int i) = i"
proof (cases "i < 0")
  case True
  then show ?thesis by (simp add: dec_int_def enc_int_def show_int_def)
next
  case False
  then obtain c r where s: "show_nat (nat i) = c # r" by (cases "show_nat (nat i)") auto
  then have "c \<noteq> CHR ''-''" using dash_notin_show_nat [of "nat i"] by auto
  with False s read_show_nat [of "nat i"] show ?thesis
    by (simp add: dec_int_def enc_int_def show_int_def)
qed

fun role_code :: "MessageRole \<Rightarrow> int" where
  "role_code MESSAGE_ROLE_UNSPECIFIED = 0"
| "role_code MESSAGE_ROLE_USER_SELF = 1"
| "role_code MESSAGE_ROLE_USER_PEER = 2"
| "role_code MESSAGE_ROLE_ASSISTANT = 3"
| "role_code MESSAGE_ROLE_SYSTEM = 4"
| "role_code (MessageRole_open n) = n"

definition role_of :: "int \<Rightarrow> MessageRole" where
  "role_of n = (if n = 0 then MESSAGE_ROLE_UNSPECIFIED else if n = 1 then MESSAGE_ROLE_USER_SELF
     else if n = 2 then MESSAGE_ROLE_USER_PEER else if n = 3 then MESSAGE_ROLE_ASSISTANT
     else if n = 4 then MESSAGE_ROLE_SYSTEM else MessageRole_open n)"

fun state_code :: "MessageState \<Rightarrow> int" where
  "state_code MESSAGE_STATE_UNSPECIFIED = 0"
| "state_code MESSAGE_STATE_PENDING = 1"
| "state_code MESSAGE_STATE_STREAMING = 2"
| "state_code MESSAGE_STATE_THINKING = 3"
| "state_code MESSAGE_STATE_COMPLETE = 4"
| "state_code MESSAGE_STATE_ERROR = 5"
| "state_code (MessageState_open n) = n"

definition state_of :: "int \<Rightarrow> MessageState" where
  "state_of n = (if n = 0 then MESSAGE_STATE_UNSPECIFIED else if n = 1 then MESSAGE_STATE_PENDING
     else if n = 2 then MESSAGE_STATE_STREAMING else if n = 3 then MESSAGE_STATE_THINKING
     else if n = 4 then MESSAGE_STATE_COMPLETE else if n = 5 then MESSAGE_STATE_ERROR
     else MessageState_open n)"

lemma role_of_code [simp]: "role_ok r \<Longrightarrow> role_of (role_code r) = r"
  by (cases r) (auto simp: role_of_def)

lemma state_of_code [simp]: "state_ok s \<Longrightarrow> state_of (state_code s) = s"
  by (cases s) (auto simp: state_of_def)

definition message_fields :: "ChatMessageState \<Rightarrow> string list" where
  "message_fields m = [cm_id m, cm_room_topic m, enc_int (role_code (cm_role m)),
     enc_int (state_code (cm_state m)), cm_text m, enc_word (cm_timestamp m), cm_sender m,
     enc_bool (cm_deleted m), enc_word (cm_deleted_at_ms m)]"

definition message_of_fields :: "string list \<Rightarrow> ChatMessageState option" where
  "message_of_fields xs = (case xs of
     [a, b, c, d, e, f, g, h, i] \<Rightarrow>
       Some \<lparr>cm_id = a, cm_room_topic = b, cm_role = role_of (dec_int c), cm_state = state_of (dec_int d),
         cm_text = e, cm_timestamp = dec_word f, cm_sender = g, cm_deleted = dec_bool h,
         cm_deleted_at_ms = dec_word i\<rparr>
   | _ \<Rightarrow> None)"

definition space_fields :: "SpaceRecord \<Rightarrow> string list" where
  "space_fields s = [sp_id s, sp_name s, enc_bool (sp_is_public s), enc_bool (sp_auto_join_rooms s),
     enc_word (sp_created_at_ms s), enc_word (sp_updated_at_ms s), enc_bool (sp_deleted s),
     enc_word (sp_deleted_at_ms s)]"

definition space_of_fields :: "string list \<Rightarrow> SpaceRecord option" where
  "space_of_fields xs = (case xs of
     [a, b, c, d, e, f, g, h] \<Rightarrow>
       Some \<lparr>sp_id = a, sp_name = b, sp_is_public = dec_bool c, sp_auto_join_rooms = dec_bool d,
         sp_created_at_ms = dec_word e, sp_updated_at_ms = dec_word f, sp_deleted = dec_bool g,
         sp_deleted_at_ms = dec_word h\<rparr>
   | _ \<Rightarrow> None)"

definition room_fields :: "RoomRecord \<Rightarrow> string list" where
  "room_fields r = [rm_id r, rm_name r, rm_parent_space_id r, enc_word (rm_created_at_ms r),
     enc_word (rm_updated_at_ms r), enc_bool (rm_deleted r), enc_word (rm_deleted_at_ms r)]"

definition room_of_fields :: "string list \<Rightarrow> RoomRecord option" where
  "room_of_fields xs = (case xs of
     [a, b, c, d, e, f, g] \<Rightarrow>
       Some \<lparr>rm_id = a, rm_name = b, rm_parent_space_id = c, rm_created_at_ms = dec_word d,
         rm_updated_at_ms = dec_word e, rm_deleted = dec_bool f, rm_deleted_at_ms = dec_word g\<rparr>
   | _ \<Rightarrow> None)"

definition manifest_fields :: "EntityManifest \<Rightarrow> string list" where
  "manifest_fields f = show_nat (length (mf_space_id f)) # mf_space_id f @ mf_room_id f"

definition manifest_of_fields :: "string list \<Rightarrow> EntityManifest option" where
  "manifest_of_fields xs = (case xs of
     n # ids \<Rightarrow> Some \<lparr>mf_space_id = take (read_nat n) ids, mf_room_id = drop (read_nat n) ids\<rparr>
   | _ \<Rightarrow> None)"

definition parse_with :: "(string list \<Rightarrow> 'a option) \<Rightarrow> bytes \<Rightarrow> 'a option" where
  "parse_with f b = (case dec_fields b of None \<Rightarrow> None | Some xs \<Rightarrow> f xs)"

definition command_of_fields :: "string list \<Rightarrow> GcsCommand option" where
  "command_of_fields xs = (case xs of
     [k] \<Rightarrow> Some PAYLOAD_NOT_SET
   | [k, a] \<Rightarrow> Some (JoinTopic a)
   | [k, a, b] \<Rightarrow> if k = ''send'' then Some (SendText a b) else Some (CreateRoom a b)
   | [k, a, b, c] \<Rightarrow> Some (CreateSpace a (dec_bool b) (dec_bool c))
   | [k, a, b, c, d] \<Rightarrow> Some (UpdateSpace a b (dec_bool c) (dec_bool d))
   | _ \<Rightarrow> None)"

definition config_of_fields :: "string list \<Rightarrow> GcsConfig option" where
  "config_of_fields xs = (case xs of
     [p, c, m] \<Rightarrow> Some \<lparr>cfg_db_path = p,
        cfg_codec = (if c = ''1'' then CODEC_PROTOBUF else CODEC_UNSPECIFIED), cfg_mnemonic = m\<rparr>
   | _ \<Rightarrow> None)"

fun event_fields :: "GcsEvent \<Rightarrow> string list" where
  "event_fields (Ev_message m) = ''message'' # message_fields m"
| "event_fields (Ev_room_list ts) = ''rooms'' # ts"
| "event_fields (Ev_readiness b) = [''ready'', enc_bool b]"
| "event_fields (Ev_error e) = [''error'', e]"
| "event_fields (Ev_space_tree ss rs) =
     ''tree'' # concat (map space_fields ss) @ concat (map room_fields rs)"
| "event_fields (Ev_message_history h) =
     ''history'' # mh_room_topic h # concat (map message_fields (mh_message h))"

definition ref_codec :: codec where
  "ref_codec = \<lparr>parse_config = parse_with config_of_fields, parse_command = parse_with command_of_fields,
     ser_message = enc_fields \<circ> message_fields, parse_message = parse_with message_of_fields,
     ser_space = enc_fields \<circ> space_fields, parse_space = parse_with space_of_fields,
     ser_room = enc_fields \<circ> room_fields, parse_room = parse_with room_of_fields,
     ser_manifest = enc_fields \<circ> manifest_fields, parse_manifest = parse_with manifest_of_fields,
     ser_event = (\<lambda>e. (True, enc_fields (event_fields e)))\<rparr>"

lemma ref_codec_ok [simp]: "protobuf_ok ref_codec"
  by (simp add: protobuf_ok_def ref_codec_def parse_with_def message_fields_def message_of_fields_def
      space_fields_def space_of_fields_def room_fields_def room_of_fields_def manifest_fields_def
      manifest_of_fields_def wf_message_def)

section \<open>An outside world\<close>

record ref_world =
  rw_clock :: int64
  rw_random :: uint32
  rw_next :: nat
  rw_store :: "(string \<times> bytes) list"
  rw_wire :: "(string \<times> bytes) list"
  rw_node :: "handle option"

definition ref_world0 :: ref_world where
  "ref_world0 = \<lparr>rw_clock = 1000, rw_random = 7, rw_next = 4, rw_store = [], rw_wire = [], rw_node = None\<rparr>"

definition ref_put :: "string \<Rightarrow> bytes \<Rightarrow> ref_world \<Rightarrow> ref_world" where
  "ref_put k v w = w\<lparr>rw_store := (k, v) # filter (\<lambda>(k', _). k' \<noteq> k) (rw_store w)\<rparr>"

definition ref_platform :: "ref_world platform" where
  "ref_platform = \<lparr>proto = ref_codec,
     now_ms = (\<lambda>w. (rw_clock w, w\<lparr>rw_clock := rw_clock w + 1\<rparr>)),
     random_device = (\<lambda>w. (rw_random w, w\<lparr>rw_random := rw_random w + 1\<rparr>)),
     new_address = (\<lambda>w. (rw_next w, w\<lparr>rw_next := Suc (rw_next w)\<rparr>)),
     globaldb_new = (\<lambda>path ps net w. (Inr 1, w)),
     globaldb_error_of = Globaldb_error_unlisted,
     globaldb_start = (\<lambda>h w. w),
     globaldb_add_listen = (\<lambda>h t w. w),
     globaldb_add_broadcast = (\<lambda>h t w. (True, w)),
     globaldb_put = (\<lambda>h k v T w. (True, ref_put k v w)),
     globaldb_put_local = (\<lambda>h k v i w. (True, ref_put k v w)),
     globaldb_get = (\<lambda>h k w. map_of (rw_store w) k),
     globaldb_query = (\<lambda>h k w. Some (filter (\<lambda>(k', _). prefix k k') (rw_store w))),
     globaldb_register = (\<lambda>h pat w. (True, w)),
     globaldb_shutdown_now = (\<lambda>h w. w),
     pubsub_publish = (\<lambda>h t b w. (True, w\<lparr>rw_wire := rw_wire w @ [(t, b)]\<rparr>)),
     pubsub_subscribe = (\<lambda>h t w. (True, w)),
     sdk_get_node = rw_node,
     node_pubsub = (\<lambda>n w. Some 2),
     node_graphsync = (\<lambda>n w. Some 3),
     sdk_init = (\<lambda>p c w. (True, w\<lparr>rw_node := Some 9\<rparr>)),
     sdk_init_with_mnemonic = (\<lambda>p c m w. (True, w\<lparr>rw_node := Some 9\<rparr>)),
     sdk_shutdown = (\<lambda>w. w\<lparr>rw_node := None\<rparr>),
     sdk_address = (\<lambda>w. ''0xA''),
     temp_directory_path = (\<lambda>w. ''/tmp''),
     create_directories = (\<lambda>p w. w),
     register_atexit = (\<lambda>w. (True, w))\<rparr>"

definition ref_proc :: "ref_world \<Rightarrow> ref_world proc" where
  "ref_proc w = \<lparr>world = w, entity_seed = None, entity_sequence = 0, message_seed = None,
     message_sequence = 0, dart_port = 0, dart_post_dl = True, posted = [], live_handlers = [],
     heal_handlers = []\<rparr>"

lemma ref_proto [simp]: "proto ref_platform = ref_codec"
  by (simp add: ref_platform_def)

lemma ref_store_puts [simp]: "store_puts ref_platform"
proof -
  have filt: "map_of (filter (\<lambda>(k', _). k' \<noteq> k) st) k'' = map_of st k''" if "k'' \<noteq> k"
    for k k'' and st :: "(string \<times> bytes) list"
    using that by (induction st) auto
  show ?thesis by (auto simp: store_puts_def ref_platform_def ref_put_def filt)
qed

lemma ref_store_ok [simp]: "store_ok ref_platform"
  by (simp add: store_ok_def) (simp add: store_frame_def ref_platform_def)

section \<open>A cipher\<close>

text \<open>A derivation context collects salt, keying material and info; a cipher context key, nonce, data.\<close>

type_synonym ref_kctx = "bytes \<times> bytes \<times> bytes"
type_synonym ref_cctx = "bytes \<times> bytes \<times> bytes"

definition ref_kdf :: "bytes \<Rightarrow> bytes \<Rightarrow> bytes \<Rightarrow> nat \<Rightarrow> bytes" where
  "ref_kdf salt ikm info n = take n (ikm @ salt @ info @ replicate n (CHR 0x00))"

definition ref_tag :: "bytes \<Rightarrow> bytes \<Rightarrow> bytes" where
  "ref_tag key ct = take 16 (key @ ct @ replicate 16 (CHR 0x00))"

definition ref_seal :: "bytes \<Rightarrow> bytes \<Rightarrow> bytes \<Rightarrow> bytes \<times> bytes" where
  "ref_seal key nonce pt = (rev pt, ref_tag key (rev pt))"

definition ref_open :: "bytes \<Rightarrow> bytes \<Rightarrow> bytes \<Rightarrow> bytes \<Rightarrow> bytes option" where
  "ref_open key nonce ct tag = (if tag = ref_tag key ct then Some (rev ct) else None)"

definition ref_ssl :: "(ref_world, ref_kctx, ref_cctx) openssl" where
  "ref_ssl = \<lparr>pkey_ctx_new = (\<lambda>w. (Some ([], [], []), w)),
     pkey_derive_init = (\<lambda>k. (1, k)),
     pkey_set_hkdf_md_sha256 = (\<lambda>k. (1, k)),
     pkey_set1_hkdf_salt = (\<lambda>b n (s, i, f). (1, (b, i, f))),
     pkey_set1_hkdf_key = (\<lambda>b n (s, i, f). (1, (s, b, f))),
     pkey_add1_hkdf_info = (\<lambda>b n (s, i, f). (1, (s, i, f @ b))),
     pkey_derive = (\<lambda>n (s, i, f). (1, ref_kdf s i f n, n)),
     rand_bytes = (\<lambda>n w. (1, replicate (nat n) (CHR 0x2A), w)),
     cipher_ctx_new = (\<lambda>w. (Some ([], [], []), w)),
     encrypt_init_gcm = (\<lambda>key nonce (k, n, d). (1, (key, nonce, []))),
     encrypt_update = (\<lambda>b n (k, nc, d). (1, rev b, (k, nc, rev b))),
     encrypt_final = (\<lambda>c. (1, c)),
     ctrl_get_tag = (\<lambda>n (k, nc, d). (1, ref_tag k d)),
     decrypt_init_gcm = (\<lambda>key nonce (k, n, d). (1, (key, nonce, []))),
     decrypt_update = (\<lambda>b n (k, nc, d). (1, rev b, (k, nc, b))),
     ctrl_set_tag = (\<lambda>n t (k, nc, d). (1, (k, t, d))),
     decrypt_final = (\<lambda>(k, t, d). if t = ref_tag k d then 1 else 0)\<rparr>"

lemma ref_ssl_laws:
  "rand_law ref_ssl" "openssl_available ref_ssl" "hkdf_law ref_ssl ref_kdf"
  "gcm_law ref_ssl ref_seal ref_open"
proof -
  show "rand_law ref_ssl" by (simp add: rand_law_def ref_ssl_def)
  show "openssl_available ref_ssl" by (simp add: openssl_available_def ref_ssl_def)
  show "hkdf_law ref_ssl ref_kdf" by (simp add: hkdf_law_def ref_ssl_def ref_kdf_def) auto
  have "gcm_encrypt_law ref_ssl ref_seal"
    by (auto simp: gcm_encrypt_law_def ref_ssl_def ref_seal_def ref_tag_def)
  moreover have "gcm_decrypt_law ref_ssl ref_open"
    by (auto simp: gcm_decrypt_law_def ref_ssl_def ref_open_def)
  ultimately show "gcm_law ref_ssl ref_seal ref_open"
    by (auto simp: gcm_law_def ref_seal_def ref_open_def split: if_splits)
qed

lemma ref_ssl_ok [simp]: "openssl_ok ref_ssl"
  using ref_ssl_laws by (auto simp: openssl_ok_def)

end
