(* ===== verification/StoreProps.thy ===== *)
theory StoreProps
  imports CoreSession EntityStore RefPlatform
begin

text \<open>
  Properties of the store object, the session and the entity catalog (\<open>gcs_global_db.cpp\<close>,
  \<open>gcs_core.cpp\<close>, \<open>gcs_entity_store.cpp\<close> under \<open>src/lib/\<close>), each with a computation on the reference platform where it has hypotheses.
\<close>

section \<open>The store object\<close>

definition ref_booted :: "ref_world proc" where
  "ref_booted = ref_proc (ref_world0\<lparr>rw_node := Some 9\<rparr>)"

text \<open>The reference store object after a successful initialisation.\<close>

definition ref_db :: gcs_db where
  "ref_db = fst (snd (GcsGlobalDb_Initialize ref_platform (GcsGlobalDb_new ''db'') ref_booted))"

lemma ref_db_eq: "ref_db = \<lparr>m_dbPath = ''db'', m_io = True, m_scheduler = True, m_graphsyncNetwork = Some 3,
    m_generator = True, m_db = Some 1, m_pubsub = Some 2, m_ioThread = True, m_running = True\<rparr>"
  by (simp add: ref_db_def GcsGlobalDb_Initialize_def GcsGlobalDb_Initialize_injected_def ref_platform_def
      ref_booted_def ref_proc_def ref_world0_def GcsGlobalDb_new_def Let_def)

lemma ref_db_reachable: "\<exists>p. gdb_reachable ref_platform (ref_db, p)"
proof -
  have "gdb_reachable ref_platform (snd (GcsGlobalDb_Initialize ref_platform (GcsGlobalDb_new ''db'') ref_booted))"
    by (intro gdb_reachable.step [OF gdb_reachable.constructed gdb_step.initialize])
  then show ?thesis by (metis ref_db_def prod.collapse)
qed

text \<open>Over every sequence of initialisations, failed ones included, and shutdowns, a stopped
  store object equals a newly constructed one and a running one has every member set.\<close>

theorem gdb_lifecycle:
  assumes "gdb_reachable P (d, p)"
  shows "if m_running d
     then m_io d \<and> m_scheduler d \<and> m_generator d \<and> m_ioThread d \<and>
          m_graphsyncNetwork d \<noteq> None \<and> m_db d \<noteq> None \<and> m_pubsub d \<noteq> None
     else d = GcsGlobalDb_new (m_dbPath d)"
  using gdb_reachable_ok [OF assms] by (simp add: gdb_ok_def)

theorem gdb_lifecycle_witness:
  "\<exists>p. gdb_reachable ref_platform (ref_db, p) \<and> m_running ref_db \<and> m_db ref_db \<noteq> None"
proof -
  obtain p where p: "gdb_reachable ref_platform (ref_db, p)" using ref_db_reachable by blast
  from gdb_lifecycle [OF p] p show ?thesis by (auto simp: ref_db_eq)
qed

text \<open>Through a session, a successful write is what a read of its key returns, every other key reads
  as before, and a second write to another key takes neither away.\<close>

theorem session_put_get:
  assumes "store_puts P" and "CoreSession_Put P s k1 v1 p = (Inr (), p1)"
    and "CoreSession_Put P s k2 v2 p1 = (Inr (), p2)"
  shows "CoreSession_Get P s k1 p1 = Inr v1
    \<and> (if k1 = k2 then CoreSession_Get P s k1 p2 = Inr v2 else CoreSession_Get P s k1 p2 = Inr v1)
    \<and> CoreSession_Get P s k2 p2 = Inr v2
    \<and> (k = k1 \<or> k = k2 \<or> CoreSession_Get P s k p2 = CoreSession_Get P s k p)"
  using core_kv.put_visible [OF assms(1,2)] core_kv.put_visible [OF assms(1,3)] by auto

definition ref_session :: core_session where
  "ref_session = \<lparr>cs_dbPath = ''db'', cs_db = \<lparr>m_dbPath = ''db'', m_io = True, m_scheduler = True,
     m_graphsyncNetwork = Some 3, m_generator = True, m_db = Some 1, m_pubsub = Some 2,
     m_ioThread = True, m_running = True\<rparr>\<rparr>"

lemma ref_session_running [simp]: "CoreSession_IsRunning ref_session" "m_running (cs_db ref_session)"
  "m_db (cs_db ref_session) = Some 1" "m_pubsub (cs_db ref_session) = Some 2" "gdb_ok (cs_db ref_session)"
  by (simp_all add: ref_session_def CoreSession_IsRunning_def GcsGlobalDb_IsRunning_def gdb_ok_def)

lemma ref_Put [simp]:
  "CoreSession_Put ref_platform ref_session k v p = (Inr (), p\<lparr>world := ref_put k v (world p)\<rparr>)"
  by (simp add: core_put_defs with_db_def ref_platform_def)

theorem session_put_get_witness:
  "\<exists>p. CoreSession_Get ref_platform ref_session ''a'' p = Inr ''1''
     \<and> CoreSession_Get ref_platform ref_session ''b'' p = Inr ''2''"
  using session_put_get [OF ref_store_puts ref_Put ref_Put, of "''a''" "''1''" ref_booted "''b''" "''2''"]
  by auto

section \<open>The entity catalog\<close>


definition ref_ops :: "catalog_op list" where
  "ref_ops = [Op_create_space ''Team'' True True, Op_create_room ''General'' ''space-1000-7-0'',
     Op_update_space (empty_space\<lparr>sp_id := ''space-1000-7-0'', sp_name := ''Crew''\<rparr>)]"

definition ref_catalog_run :: "bool \<times> entity_store \<times> ref_world proc" where
  "ref_catalog_run = catalog_run ref_platform ref_session ref_ops EntityStore_new ref_booted"

lemma ref_catalog_run_ok: "fst ref_catalog_run" "map sp_name (EntityStore_Spaces (fst (snd ref_catalog_run))) = [''Crew'']"
  by code_simp+


definition ref_space :: SpaceRecord where
  "ref_space = empty_space\<lparr>sp_id := ''s1'', sp_name := ''One'', sp_auto_join_rooms := True, sp_created_at_ms := 5\<rparr>"

definition ref_room :: RoomRecord where
  "ref_room = empty_room\<lparr>rm_id := ''r1'', rm_name := ''Hall'', rm_parent_space_id := ''s1''\<rparr>"

definition ref_catalog :: entity_store where
  "ref_catalog = \<lparr>es_spaces = [(''s1'', ref_space)], es_rooms = [(''r1'', ref_room)]\<rparr>"

lemma ref_catalog_ok: "es_ok ref_catalog"
  by (auto simp: es_ok_def ref_catalog_def smap_ok_def ref_space_def ref_room_def empty_space_def empty_room_def)

text \<open>Up to the full range of its 64-bit counter, the id generator never repeats an id, whatever mix of
  space and room ids is asked for.\<close>

theorem entity_ids_unique:
  assumes "length pfxs \<le> 2 ^ 64"
  shows "distinct (mint_ids P pfxs p)"
  using assms by (rule mint_ids_distinct)

theorem entity_ids_unique_witness:
  "distinct (mint_ids ref_platform [kSpaceIdPrefix, kRoomIdPrefix, kSpaceIdPrefix] ref_booted)
    \<and> length (mint_ids ref_platform [kSpaceIdPrefix, kRoomIdPrefix, kSpaceIdPrefix] ref_booted) = 3"
  using entity_ids_unique [of "[kSpaceIdPrefix, kRoomIdPrefix, kSpaceIdPrefix]" ref_platform ref_booted]
  by (simp add: case_prod_beta)

text \<open>Two processes mint the same id for a prefix only when both their seeds and their counters are equal,
  so ids of processes with different seeds never collide.\<close>

theorem entity_ids_across_processes:
  assumes "entity_seed p = Some a" and "entity_seed q = Some b"
  shows "fst (EntityStore_NextEntityId P pfx p) = fst (EntityStore_NextEntityId Q pfx q) \<longleftrightarrow>
    a = b \<and> entity_sequence p = entity_sequence q"
  using seeded_ids_eq [of pfx a "unat (entity_sequence p)" b "unat (entity_sequence q)"]
  unfolding NextEntityId_seeded [OF assms(1)] NextEntityId_seeded [OF assms(2)] fst_conv
  by (auto dest: unsigned_word_eqI)

theorem entity_ids_across_processes_witness:
  "fst (EntityStore_NextEntityId ref_platform kRoomIdPrefix (ref_booted\<lparr>entity_seed := Some ''1-2''\<rparr>))
   \<noteq> fst (EntityStore_NextEntityId ref_platform kRoomIdPrefix (ref_booted\<lparr>entity_seed := Some ''1-3''\<rparr>))"
  using entity_ids_across_processes [of "ref_booted\<lparr>entity_seed := Some ''1-2''\<rparr>" "''1-2''"
      "ref_booted\<lparr>entity_seed := Some ''1-3''\<rparr>" "''1-3''" ref_platform kRoomIdPrefix ref_platform]
  by simp

text \<open>Appending an id to the manifest keeps every id already listed, in order, adds the id at the end of
  its own list when it is not there, lists none twice, and leaves every other key alone.\<close>

theorem manifest_append_only:
  assumes "store_puts P" and "protobuf_ok (proto P)" and "utf8_manifest (read_manifest P s p)"
    and "valid_utf8 i" and "AppendToManifest P s b i p = (Inr (), q)"
  shows "(let m = read_manifest P s p; m' = read_manifest P s q in
      mf_space_id m' = (if b \<and> i \<notin> set (mf_space_id m) then mf_space_id m @ [i] else mf_space_id m)
    \<and> mf_room_id m' = (if \<not> b \<and> i \<notin> set (mf_room_id m) then mf_room_id m @ [i] else mf_room_id m))
    \<and> (k = kManifestKey \<or> CoreSession_Get P s k q = CoreSession_Get P s k p)"
  using AppendToManifest_Inr [OF assms] by (auto simp: Let_def manifest_add_def)

theorem manifest_append_only_witness:
  "\<exists>q. AppendToManifest ref_platform ref_session True ''s1'' ref_booted = (Inr (), q)
     \<and> mf_space_id (read_manifest ref_platform ref_session q) = [''s1'']"
proof -
  have start: "read_manifest ref_platform ref_session ref_booted = empty_manifest"
    by (simp add: read_manifest_def CoreSession_Get_def GcsGlobalDb_Get_def ref_platform_def ref_booted_def
        ref_proc_def ref_world0_def)
  obtain q where run: "AppendToManifest ref_platform ref_session True ''s1'' ref_booted = (Inr (), q)"
    by (simp add: AppendToManifest_def)
  have "utf8_manifest empty_manifest" "valid_utf8 ''s1''" by (simp_all add: utf8_manifest_def empty_manifest_def)
  with manifest_append_only [OF ref_store_puts _ _ _ run, of kManifestKey] start run show ?thesis
    by (auto simp: Let_def empty_manifest_def)
qed

end
