(* ===== verification/CryptoProps.thy ===== *)
theory CryptoProps
  imports RefPlatform
begin

text \<open>
  Properties of the crypto adapter (\<open>src/lib/gcs_crypto.cpp\<close>) against the documented behaviour of
  OpenSSL, each with a computation on the reference cipher.
\<close>

text \<open>C5: what one call encrypts for a room, any later call decrypts for the same room to the same bytes, in
  any process, while the lengths fit an \<open>int\<close>.\<close>

theorem encrypt_decrypt_roundtrip:
  assumes "openssl_ok ssl" and "fits_int roomTopic" and "fits_int plaintext"
    and "EncryptPayload ssl roomTopic plaintext w = (Inr envelope, w')"
  shows "fst (DecryptPayload ssl roomTopic envelope u) = Inr plaintext"
  using assms by (rule gcm_seam.dec_enc)

lemma ref_encrypts: "\<exists>w'. EncryptPayload ref_ssl ''room'' ''hi'' w =
    (Inr (replicate 12 (CHR 0x2A) @ ''ih'' @ ref_tag (room_key ref_kdf ''room'') ''ih''), w')"
proof -
  have "EncryptPayload ref_ssl ''room'' ''hi'' w =
      (Inr (written_into (replicate 12 (CHR 0x2A)) 12 @ written_into (rev ''hi'') 2 @
         written_into (ref_tag (written_into (room_key ref_kdf ''room'') 32) ''ih'') 16), w)"
    by (simp add: EncryptPayload_def DeriveRoomKey_def hkdf_chain_def gcm_encrypt_chain_def ref_ssl_def
        room_key_def int_of_size_def Let_def numeral_2_eq_2)
  moreover have "length (ref_tag k c) = 16" for k c by (simp add: ref_tag_def)
  moreover have "length (room_key ref_kdf ''room'') = 32" by (simp add: room_key_def ref_kdf_def)
  ultimately show ?thesis by simp
qed

theorem encrypt_decrypt_roundtrip_witness:
  "\<exists>envelope w'. EncryptPayload ref_ssl ''room'' ''hi'' ref_world0 = (Inr envelope, w') \<and>
     fst (DecryptPayload ref_ssl ''room'' envelope ref_world0) = Inr ''hi''"
proof -
  obtain env w' where run: "EncryptPayload ref_ssl ''room'' ''hi'' ref_world0 = (Inr env, w')"
    using ref_encrypts [of ref_world0] by blast
  from encrypt_decrypt_roundtrip [OF ref_ssl_ok _ _ run] run show ?thesis by (auto simp: fits_int_def)
qed

text \<open>An envelope is twelve random bytes, then the AES-256-GCM ciphertext, as long as the plaintext, then
  the sixteen byte tag, under the HKDF key of the room topic with the fixed salt and info.\<close>

theorem envelope_layout:
  assumes "hkdf_law ssl kdf" and "gcm_law ssl seal open_gcm" and "rand_law ssl"
    and "fits_int roomTopic" and "fits_int plaintext"
    and "EncryptPayload ssl roomTopic plaintext w = (Inr envelope, w')"
  shows "\<exists>nonce. length nonce = kGcmNonceLength
    \<and> envelope = nonce @
        fst (seal (kdf kMessagesHkdfSalt roomTopic kMessagesHkdfInfo kRoomKeyLengthBytes) nonce plaintext) @
        snd (seal (kdf kMessagesHkdfSalt roomTopic kMessagesHkdfInfo kRoomKeyLengthBytes) nonce plaintext)
    \<and> length envelope = kGcmNonceLength + length plaintext + kGcmTagLength"
proof -
  from EncryptPayload_envelope [OF assms(1-6)] obtain nonce ct tag where
    "seal (room_key kdf roomTopic) nonce plaintext = (ct, tag)" "envelope = nonce @ ct @ tag"
    "length nonce = 12" "length ct = length plaintext" "length tag = 16" by blast
  then show ?thesis by (intro exI [of _ nonce]) (simp add: room_key_def)
qed

theorem envelope_layout_witness:
  "\<exists>envelope w'. EncryptPayload ref_ssl ''room'' ''hi'' ref_world0 = (Inr envelope, w') \<and> length envelope = 30"
proof -
  obtain env w' where run: "EncryptPayload ref_ssl ''room'' ''hi'' ref_world0 = (Inr env, w')"
    using ref_encrypts [of ref_world0] by blast
  from envelope_layout [OF ref_ssl_laws(3,4,1) _ _ run] run show ?thesis by (auto simp: fits_int_def)
qed



end
