(* ===== verification/DartPort.thy ===== *)
theory DartPort
  imports Platform
begin

text \<open>
  The push plane towards Dart (\<open>SerializeGcsEvent\<close> and \<open>PostToDart\<close> of
  \<open>src/ffi/gcs_core_ffi.cpp\<close>), with the message object it fills in (\<open>src/ffi/dart_native_api.h\<close>, \<open>dart_api.h\<close>). A post is
  recorded in the process's \<open>posted\<close> list, because the code ignores the call's result.
\<close>

section \<open>Message objects\<close>

datatype Dart_TypedData_Type =
    Dart_TypedData_kByteData | Dart_TypedData_kInt8 | Dart_TypedData_kUint8 | Dart_TypedData_kUint8Clamped
  | Dart_TypedData_kInt16 | Dart_TypedData_kUint16 | Dart_TypedData_kInt32 | Dart_TypedData_kUint32
  | Dart_TypedData_kInt64 | Dart_TypedData_kUint64 | Dart_TypedData_kFloat32 | Dart_TypedData_kFloat64
  | Dart_TypedData_kInt32x4 | Dart_TypedData_kFloat32x4 | Dart_TypedData_kFloat64x2 | Dart_TypedData_kInvalid

datatype Dart_CObject_Type =
    Dart_CObject_kNull | Dart_CObject_kBool | Dart_CObject_kInt32 | Dart_CObject_kInt64 | Dart_CObject_kDouble
  | Dart_CObject_kString | Dart_CObject_kArray | Dart_CObject_kTypedData | Dart_CObject_kExternalTypedData
  | Dart_CObject_kSendPort | Dart_CObject_kCapability | Dart_CObject_kNativePointer | Dart_CObject_kUnsupported
  | Dart_CObject_kUnmodifiableExternalTypedData | Dart_CObject_kNumberOfTypes

text \<open>
  The union is the member written last. A pointer to values is the list it points to, any other
  pointer an address, and a double its bits.
\<close>

datatype Dart_CObject = Dart_CObject (cobject_type: Dart_CObject_Type) (cobject_value: cobject_union)
and cobject_union =
    As_bool bool | As_int32 "32 word" | As_int64 int64 | As_double "64 word" | As_string bytes
  | As_send_port int64 int64 | As_capability int64
  | As_array int "Dart_CObject list"
  | As_typed_data Dart_TypedData_Type int bytes
  | As_external_typed_data Dart_TypedData_Type int bytes nat nat
  | As_native_pointer int int nat

text \<open>
  The object \<open>PostToDart\<close> fills in. A \<open>std::string\<close> has fewer than \<open>2 ^ 63\<close> bytes, so the cast of its size
  to \<open>intptr_t\<close> is exact.
\<close>

definition uint8_message :: "bytes \<Rightarrow> Dart_CObject" where
  "uint8_message bytes =
     Dart_CObject Dart_CObject_kTypedData (As_typed_data Dart_TypedData_kUint8 (int (length bytes)) bytes)"

text \<open>What a listener gets of typed data, which is copied on sending: as many bytes as the length says. The code
  posts nothing else.\<close>

fun typed_data_bytes :: "Dart_CObject \<Rightarrow> bytes option" where
  "typed_data_bytes (Dart_CObject Dart_CObject_kTypedData (As_typed_data Dart_TypedData_kUint8 n values)) = Some (take (nat n) values)"
| "typed_data_bytes _ = None"

definition Dart_PostCObject_DL :: "int64 \<Rightarrow> Dart_CObject \<Rightarrow> 'w proc \<Rightarrow> 'w proc" where
  "Dart_PostCObject_DL port message p =
     (case typed_data_bytes message of None \<Rightarrow> p | Some bytes \<Rightarrow> p\<lparr>posted := posted p @ [(port, bytes)]\<rparr>)"

section \<open>Posting\<close>

definition SerializeGcsEvent :: "'w platform \<Rightarrow> GcsEvent \<Rightarrow> bytes" where
  "SerializeGcsEvent P e = snd (ser_event (proto P) e)"

definition PostToDart :: "'w platform \<Rightarrow> GcsEvent \<Rightarrow> 'w proc \<Rightarrow> 'w proc" where
  "PostToDart P e p =
     (let bytes = SerializeGcsEvent P e; port = dart_port p
      in if port = 0 \<or> \<not> dart_post_dl p then p
         else Dart_PostCObject_DL port (uint8_message bytes) p)"

text \<open>The whole buffer arrives.\<close>

lemma uint8_message_bytes [simp]: "typed_data_bytes (uint8_message bytes) = Some bytes"
  by (simp add: uint8_message_def)

lemma PostToDart_posts:
  "PostToDart P e p =
     (if dart_port p = 0 \<or> \<not> dart_post_dl p then p
      else p\<lparr>posted := posted p @ [(dart_port p, SerializeGcsEvent P e)]\<rparr>)"
  by (simp add: PostToDart_def Dart_PostCObject_DL_def)

definition PostErrorNotice :: "'w platform \<Rightarrow> string \<Rightarrow> 'w proc \<Rightarrow> 'w proc" where
  "PostErrorNotice P message p = PostToDart P (Ev_error message) p"

text \<open>Somebody listens: a registered port and an initialised API table.\<close>

definition dart_attached :: "'w proc \<Rightarrow> bool" where
  "dart_attached p \<longleftrightarrow> dart_port p \<noteq> 0 \<and> dart_post_dl p"

lemma PostToDart_attached:
  "dart_attached p \<Longrightarrow> PostToDart P e p = p\<lparr>posted := posted p @ [(dart_port p, SerializeGcsEvent P e)]\<rparr>"
  by (simp add: PostToDart_posts dart_attached_def)

lemma PostToDart_detached: "\<not> dart_attached p \<Longrightarrow> PostToDart P e p = p"
  by (auto simp: PostToDart_posts dart_attached_def Let_def)

lemma PostToDart_frame [frame_simps]:
  "world (PostToDart P e p) = world p"
  "entity_seed (PostToDart P e p) = entity_seed p"
  "entity_sequence (PostToDart P e p) = entity_sequence p"
  "message_seed (PostToDart P e p) = message_seed p"
  "message_sequence (PostToDart P e p) = message_sequence p"
  "dart_port (PostToDart P e p) = dart_port p"
  "dart_post_dl (PostToDart P e p) = dart_post_dl p"
  "live_handlers (PostToDart P e p) = live_handlers p"
  "heal_handlers (PostToDart P e p) = heal_handlers p"
  "dart_attached (PostToDart P e p) = dart_attached p"
  by (simp_all add: PostToDart_posts dart_attached_def Let_def)

lemma PostErrorNotice_frame [frame_simps]:
  "world (PostErrorNotice P e p) = world p"
  "dart_port (PostErrorNotice P e p) = dart_port p"
  "dart_post_dl (PostErrorNotice P e p) = dart_post_dl p"
  "live_handlers (PostErrorNotice P e p) = live_handlers p"
  "heal_handlers (PostErrorNotice P e p) = heal_handlers p"
  "dart_attached (PostErrorNotice P e p) = dart_attached p"
  by (simp_all add: PostErrorNotice_def frame_simps)

end
