(* ===== verification/Messaging.thy ===== *)
theory Messaging
  imports CoreSession Crypto DartPort "HOL-Library.Product_Lexorder" "HOL-Library.Multiset"
begin

text \<open>
  The messaging component (\<open>src/lib/gcs_messaging.hpp\<close>, \<open>gcs_messaging.cpp\<close>): sending, the
  receive funnel behind both delivery routes, history, and the archive worker. The component
  borrows the session; its event sink and its crypto callables are fields, as in the source.
  A call of the sink is a function on the process. \<open>m_seenIds\<close>, an \<open>unordered_set\<close>, is a list
  without duplicates (\<open>messaging_ok\<close>), so that its size is a length. The mutexes guard single
  steps and have no field; the archive thread is the function \<open>ArchiveWorker\<close>.
\<close>

section \<open>State\<close>

record 'w CryptoSeam =
  seam_encrypt :: "(string \<Rightarrow> bytes \<Rightarrow> 'w \<Rightarrow> bytes result \<times> 'w) option"
  seam_decrypt :: "(string \<Rightarrow> bytes \<Rightarrow> 'w \<Rightarrow> bytes result \<times> 'w) option"
  seam_enabled :: bool

definition CryptoSeam_default :: "'w CryptoSeam" where
  "CryptoSeam_default = \<lparr>seam_encrypt = None, seam_decrypt = None, seam_enabled = False\<rparr>"

record 'w messaging =
  m_sender :: string
  m_sink :: "GcsEvent \<Rightarrow> 'w proc \<Rightarrow> 'w proc"
  m_crypto :: "'w CryptoSeam"
  m_encryptionEnabled :: bool
  m_seenIds :: "string list"
  m_archiveQueue :: "(string \<times> bytes) list"
  m_archiveStopped :: bool

definition kMessagesKeyPrefix :: string where
  "kMessagesKeyPrefix = ''gcs/messages/''"

definition kMessagesKeyCallbackPattern :: string where
  "kMessagesKeyCallbackPattern = ''/gcs/messages/.*''"

definition kMessageIdPrefix :: string where
  "kMessageIdPrefix = ''msg-''"

definition kMaxSeenIds :: nat where
  "kMaxSeenIds = 4096"

definition kValueSuffix :: string where
  "kValueSuffix = ''/v''"

definition kPrioritySuffix :: string where
  "kPrioritySuffix = ''/p''"

definition Messaging_new ::
  "string \<Rightarrow> (GcsEvent \<Rightarrow> 'w proc \<Rightarrow> 'w proc) \<Rightarrow> 'w CryptoSeam \<Rightarrow> 'w messaging" where
  "Messaging_new senderAddress sink crypto =
     \<lparr>m_sender = senderAddress, m_sink = sink, m_crypto = crypto,
      m_encryptionEnabled =
        (seam_enabled crypto \<and> seam_encrypt crypto \<noteq> None \<and> seam_decrypt crypto \<noteq> None),
      m_seenIds = [], m_archiveQueue = [], m_archiveStopped = False\<rparr>"

definition Messaging_EncryptionEnabled :: "'w messaging \<Rightarrow> bool" where
  "Messaging_EncryptionEnabled m = m_encryptionEnabled m"

section \<open>Identifiers, keys and roles\<close>

definition Messaging_NextMessageId :: "'w platform \<Rightarrow> 'w proc \<Rightarrow> string \<times> 'w proc" where
  "Messaging_NextMessageId P p =
     (let (seed, p1) = (case message_seed p of
            Some s \<Rightarrow> (s, p)
          | None \<Rightarrow> (case draw_seed P p of (s, q) \<Rightarrow> (s, q\<lparr>message_seed := Some s\<rparr>)));
          n = message_sequence p1
      in (kMessageIdPrefix @ seed @ ''-'' @ show_nat (unat n), p1\<lparr>message_sequence := n + 1\<rparr>))"

definition EndsWith :: "string \<Rightarrow> string \<Rightarrow> bool" where
  "EndsWith val suf \<longleftrightarrow> length suf \<le> length val \<and> drop (length val - length suf) val = suf"

definition BuildKey :: "string \<Rightarrow> string \<Rightarrow> string" where
  "BuildKey roomTopic ident = kMessagesKeyPrefix @ roomTopic @ ''/'' @ ident"

text \<open>
  \<open>std::string::substr(pos)\<close> throws \<open>std::out_of_range\<close> when \<open>pos\<close> is past the end, which is
  \<open>None\<close> here; so a key on which \<open>RoomTopicFromKey\<close> throws has the value \<open>None\<close>.
\<close>

definition substr_from :: "nat \<Rightarrow> string \<Rightarrow> string option" where
  "substr_from pos s = (if pos > length s then None else Some (drop pos s))"

definition RoomTopicFromKey :: "string \<Rightarrow> string option" where
  "RoomTopicFromKey key =
     (case find_sub kMessagesKeyPrefix key of
        None \<Rightarrow> Some []
      | Some prefixPos \<Rightarrow>
          (let logical0 = drop prefixPos key;
               logical1 = (if EndsWith logical0 kValueSuffix \<or> EndsWith logical0 kPrioritySuffix
                           then take (length logical0 - length kValueSuffix) logical0 else logical0)
           in case substr_from (length kMessagesKeyPrefix) logical1 of
                None \<Rightarrow> None
              | Some logical \<Rightarrow>
                  Some (case rfind_char (CHR ''/'') logical of
                          None \<Rightarrow> logical
                        | Some lastSlash \<Rightarrow> take lastSlash logical)))"

definition RoleFor :: "ChatMessageState \<Rightarrow> string \<Rightarrow> MessageRole" where
  "RoleFor msg sender =
     (if cm_sender msg = sender then MESSAGE_ROLE_USER_SELF else MESSAGE_ROLE_USER_PEER)"

definition PushMessage :: "'w messaging \<Rightarrow> ChatMessageState \<Rightarrow> 'w proc \<Rightarrow> 'w proc" where
  "PushMessage m msg p = m_sink m (Ev_message (msg\<lparr>cm_role := RoleFor msg (m_sender m)\<rparr>)) p"

section \<open>Payloads\<close>

text \<open>
  The two encryption switches: what a serialised record becomes before it leaves, and what received
  or archived bytes become before they are parsed. Disabled, the callables are not called.
\<close>

definition make_payload :: "'w messaging \<Rightarrow> string \<Rightarrow> bytes \<Rightarrow> 'w \<Rightarrow> bytes result \<times> 'w" where
  "make_payload m roomTopic serialized w =
     (if m_encryptionEnabled m then the (seam_encrypt (m_crypto m)) roomTopic serialized w
      else (Inr serialized, w))"

definition open_payload :: "'w messaging \<Rightarrow> string \<Rightarrow> bytes \<Rightarrow> 'w \<Rightarrow> bytes result \<times> 'w" where
  "open_payload m roomTopic valueBytes w =
     (if m_encryptionEnabled m then the (seam_decrypt (m_crypto m)) roomTopic valueBytes w
      else (Inr valueBytes, w))"

section \<open>Sending\<close>

definition Messaging_SendMessage ::
  "'w platform \<Rightarrow> core_session \<Rightarrow> string \<Rightarrow> string \<Rightarrow> 'w messaging \<Rightarrow> 'w proc
     \<Rightarrow> unit result \<times> 'w messaging \<times> 'w proc" where
  "Messaging_SendMessage P s roomTopic body m p =
     (let (ident, p1) = Messaging_NextMessageId P p;
          (t, p2) = NowMs P p1;
          msg = \<lparr>cm_id = ident, cm_room_topic = roomTopic, cm_role = MESSAGE_ROLE_USER_SELF,
                 cm_state = MESSAGE_STATE_PENDING, cm_text = body, cm_timestamp = t,
                 cm_sender = m_sender m, cm_deleted = False, cm_deleted_at_ms = 0\<rparr>;
          m1 = m\<lparr>m_seenIds := List.insert ident (m_seenIds m)\<rparr>;
          p3 = PushMessage m1 msg p2;
          done = msg\<lparr>cm_state := MESSAGE_STATE_COMPLETE\<rparr>;
          serialized = ser_message (proto P) done;
          fail = (\<lambda>ec q. (Inl ec, m1, PushMessage m1 (done\<lparr>cm_state := MESSAGE_STATE_ERROR\<rparr>) q))
      in case make_payload m1 roomTopic serialized (world p3) of
           (Inl ec, w) \<Rightarrow> fail ec (p3\<lparr>world := w\<rparr>)
         | (Inr payload, w) \<Rightarrow>
             (case CoreSession_Publish P s roomTopic payload (p3\<lparr>world := w\<rparr>) of
                (Inl ec, p4) \<Rightarrow> fail ec p4
              | (Inr _, p4) \<Rightarrow>
                  (case CoreSession_Put_topics P s (BuildKey roomTopic ident) payload {roomTopic} p4 of
                     (Inl ec, p5) \<Rightarrow> fail ec p5
                   | (Inr _, p5) \<Rightarrow> (Inr (), m1, PushMessage m1 done p5))))"

section \<open>Receiving\<close>

definition seen_admit :: "string \<Rightarrow> string list \<Rightarrow> string list" where
  "seen_admit ident seen =
     List.insert ident (if length seen \<ge> kMaxSeenIds then [] else seen)"

definition EnqueueArchive :: "string \<Rightarrow> bytes \<Rightarrow> 'w messaging \<Rightarrow> 'w messaging" where
  "EnqueueArchive key val m = m\<lparr>m_archiveQueue := m_archiveQueue m @ [(key, val)]\<rparr>"

definition ApplyMessage ::
  "'w platform \<Rightarrow> string \<Rightarrow> bytes \<Rightarrow> 'w messaging \<Rightarrow> 'w proc \<Rightarrow> 'w messaging \<times> 'w proc" where
  "ApplyMessage P roomTopic valueBytes m p =
     (case open_payload m roomTopic valueBytes (world p) of
        (Inl _, w) \<Rightarrow> (m, p\<lparr>world := w\<rparr>)
      | (Inr plain, w) \<Rightarrow>
          (let p1 = p\<lparr>world := w\<rparr> in
           case parse_message (proto P) plain of
             None \<Rightarrow> (m, p1)
           | Some msg \<Rightarrow>
               if cm_id msg \<in> set (m_seenIds m) then (m, p1)
               else let m1 = m\<lparr>m_seenIds := seen_admit (cm_id msg) (m_seenIds m)\<rparr>;
                        p2 = PushMessage m1 msg p1
                    in (EnqueueArchive (BuildKey (cm_room_topic msg) (cm_id msg)) valueBytes m1, p2)))"

definition OnLiveMessage ::
  "'w platform \<Rightarrow> string \<Rightarrow> bytes \<Rightarrow> 'w messaging \<Rightarrow> 'w proc \<Rightarrow> 'w messaging \<times> 'w proc" where
  "OnLiveMessage P topic valueBytes m p = ApplyMessage P topic valueBytes m p"

text \<open>\<open>None\<close>: the exception of \<open>RoomTopicFromKey\<close> leaves the handler.\<close>

definition OnMessageArrived ::
  "'w platform \<Rightarrow> string \<Rightarrow> bytes \<Rightarrow> 'w messaging \<Rightarrow> 'w proc \<Rightarrow> ('w messaging \<times> 'w proc) option" where
  "OnMessageArrived P key valueBytes m p =
     (case RoomTopicFromKey key of
        None \<Rightarrow> None
      | Some roomTopic \<Rightarrow>
          if roomTopic = [] then Some (m, p) else Some (ApplyMessage P roomTopic valueBytes m p))"

section \<open>History\<close>

text \<open>The scan loop: decrypt, parse, flip the role; a record that fails either step is skipped.\<close>

fun history_scan ::
  "'w platform \<Rightarrow> 'w messaging \<Rightarrow> string \<Rightarrow> (string \<times> bytes) list \<Rightarrow> 'w \<Rightarrow> ChatMessageState list \<times> 'w" where
  "history_scan P m roomTopic [] w = ([], w)"
| "history_scan P m roomTopic ((k, val) # entries) w =
     (case open_payload m roomTopic val w of
        (Inl _, w1) \<Rightarrow> history_scan P m roomTopic entries w1
      | (Inr plain, w1) \<Rightarrow>
          (case parse_message (proto P) plain of
             None \<Rightarrow> history_scan P m roomTopic entries w1
           | Some msg \<Rightarrow>
               (case history_scan P m roomTopic entries w1 of
                  (msgs, w2) \<Rightarrow> (msg\<lparr>cm_role := RoleFor msg (m_sender m)\<rparr> # msgs, w2))))"

text \<open>The order of the comparator: timestamps as signed integers, then ids bytewise.\<close>

definition message_key :: "ChatMessageState \<Rightarrow> int \<times> string" where
  "message_key msg = (sint (cm_timestamp msg), cm_id msg)"

definition message_less :: "ChatMessageState \<Rightarrow> ChatMessageState \<Rightarrow> bool" where
  "message_less a b \<longleftrightarrow>
     (if cm_timestamp a \<noteq> cm_timestamp b then sint (cm_timestamp a) < sint (cm_timestamp b)
      else cm_id a < cm_id b)"

definition QueryHistory ::
  "'w platform \<Rightarrow> core_session \<Rightarrow> string \<Rightarrow> 'w messaging \<Rightarrow> 'w proc
     \<Rightarrow> MessageHistory result \<times> 'w messaging \<times> 'w proc" where
  "QueryHistory P s roomTopic m p =
     (case CoreSession_QueryKeyValues P s (kMessagesKeyPrefix @ roomTopic @ ''/'') p of
        Inl e \<Rightarrow> (Inl e, m, p)
      | Inr entries \<Rightarrow>
          (case history_scan P m roomTopic entries (world p) of
             (found, w) \<Rightarrow>
               let messages = sort_key message_key found
               in (Inr \<lparr>mh_room_topic = roomTopic, mh_message = messages\<rparr>,
                   m\<lparr>m_seenIds := foldl (\<lambda>seen msg. seen_admit (cm_id msg) seen) (m_seenIds m) messages\<rparr>,
                   p\<lparr>world := w\<rparr>)))"

section \<open>The archive worker\<close>

datatype 'w worker_turn = Worker_waits | Worker_returns | Worker_wrote "'w messaging" "'w proc"

text \<open>One turn of the worker's loop: wait, return, or take the front item and write it.\<close>

definition ArchiveWorker_turn ::
  "'w platform \<Rightarrow> core_session \<Rightarrow> 'w messaging \<Rightarrow> 'w proc \<Rightarrow> 'w worker_turn" where
  "ArchiveWorker_turn P s m p =
     (case m_archiveQueue m of
        [] \<Rightarrow> if m_archiveStopped m then Worker_returns else Worker_waits
      | (key, val) # rest \<Rightarrow>
          Worker_wrote (m\<lparr>m_archiveQueue := rest\<rparr>) (snd (CoreSession_Put P s key val p)))"

text \<open>The loop, alone on the process: \<open>None\<close> when it would wait, the final state when it returns.\<close>

partial_function (option) ArchiveWorker ::
  "'w platform \<Rightarrow> core_session \<Rightarrow> 'w messaging \<Rightarrow> 'w proc \<Rightarrow> ('w messaging \<times> 'w proc) option" where
  "ArchiveWorker P s m p =
     (case ArchiveWorker_turn P s m p of
        Worker_waits \<Rightarrow> None
      | Worker_returns \<Rightarrow> Some (m, p)
      | Worker_wrote m' p' \<Rightarrow> ArchiveWorker P s m' p')"

text \<open>The destructor: set the stop flag, wake the worker and join it.\<close>

definition Messaging_destroy ::
  "'w platform \<Rightarrow> core_session \<Rightarrow> 'w messaging \<Rightarrow> 'w proc \<Rightarrow> ('w messaging \<times> 'w proc) option" where
  "Messaging_destroy P s m p = ArchiveWorker P s (m\<lparr>m_archiveStopped := True\<rparr>) p"

section \<open>Archive keys\<close>

text \<open>
  Raw datastore keys put a namespace in front of the logical key. A framing is what can stand there:
  the first occurrence of the key prefix after it is the logical key's own.
\<close>

definition raw_framing :: "string \<Rightarrow> bool" where
  "raw_framing fr \<longleftrightarrow> find_sub kMessagesKeyPrefix (fr @ kMessagesKeyPrefix) = Some (length fr)"

lemma find_sub_framed:
  "find_sub n (fr @ n) = Some (length fr) \<Longrightarrow> find_sub n (fr @ n @ rest) = Some (length fr)"
proof (induction fr)
  case Nil
  show ?case using find_sub_prefix [of n "n @ rest"] by simp
next
  case (Cons c fr)
  have no: "\<not> prefix n (c # fr @ n)" and ind: "find_sub n (fr @ n) = Some (length fr)"
    using Cons.prems by (auto split: if_splits)
  have "\<not> prefix n (c # fr @ n @ rest)"
  proof
    assume "prefix n (c # fr @ n @ rest)"
    then have "prefix n ((c # fr @ n) @ rest)" by simp
    then have "prefix n (c # fr @ n)"
      by (rule prefix_length_prefix) (auto simp: prefix_def)
    with no show False ..
  qed
  with Cons.IH [OF ind] show ?case by simp
qed

lemma raw_framing_Nil [simp]: "raw_framing []"
  by (simp add: raw_framing_def find_sub_prefix)

lemma EndsWith_iff: "EndsWith s suf \<longleftrightarrow> suffix suf s"
  by (auto simp: EndsWith_def suffix_def intro: exI [of _ "take (length s - length suf) s"])
    (metis append_take_drop_id)

lemma key_const_lengths [simp]:
  "length kMessagesKeyPrefix = 13" "length kValueSuffix = 2" "length kPrioritySuffix = 2"
  by (simp_all add: kMessagesKeyPrefix_def kValueSuffix_def kPrioritySuffix_def)

text \<open>The recovery on a framed key, in terms of what follows the prefix.\<close>

definition topic_of_tail :: "string \<Rightarrow> string" where
  "topic_of_tail rst = (case rfind_char (CHR ''/'') rst of None \<Rightarrow> rst | Some i \<Rightarrow> take i rst)"

lemma topic_of_tail_segment:
  "CHR ''/'' \<notin> set ident \<Longrightarrow> topic_of_tail (topic @ ''/'' @ ident) = topic"
  using rfind_char_last [of "CHR ''/''" ident topic] by (simp add: topic_of_tail_def)

lemma RoomTopicFromKey_bare:
  assumes "raw_framing fr" and "\<not> suffix kValueSuffix (kMessagesKeyPrefix @ rst)"
    and "\<not> suffix kPrioritySuffix (kMessagesKeyPrefix @ rst)"
  shows "RoomTopicFromKey (fr @ kMessagesKeyPrefix @ rst) = Some (topic_of_tail rst)"
  using assms find_sub_framed [of kMessagesKeyPrefix fr rst]
  by (simp add: RoomTopicFromKey_def raw_framing_def EndsWith_iff substr_from_def topic_of_tail_def Let_def)

lemma RoomTopicFromKey_suffixed:
  assumes "raw_framing fr" and "suf = kValueSuffix \<or> suf = kPrioritySuffix"
  shows "RoomTopicFromKey (fr @ kMessagesKeyPrefix @ rst @ suf) = Some (topic_of_tail rst)"
proof -
  have "suffix suf (kMessagesKeyPrefix @ rst @ suf)"
    by (metis append.assoc suffixI)
  with assms have "EndsWith (kMessagesKeyPrefix @ rst @ suf) kValueSuffix
      \<or> EndsWith (kMessagesKeyPrefix @ rst @ suf) kPrioritySuffix"
    by (auto simp: EndsWith_iff)
  moreover have "length suf = 2" using assms(2) by auto
  ultimately show ?thesis
    using assms(1) find_sub_framed [of kMessagesKeyPrefix fr "rst @ suf"]
    by (simp add: RoomTopicFromKey_def raw_framing_def substr_from_def topic_of_tail_def Let_def)
qed

text \<open>Where the recovery throws: the suffix it trims overlaps the prefix it then skips.\<close>

lemma RoomTopicFromKey_throws:
  "RoomTopicFromKey key = None \<longleftrightarrow>
     (\<exists>i. find_sub kMessagesKeyPrefix key = Some i \<and>
        (drop i key = kMessagesKeyPrefix @ ''v'' \<or> drop i key = kMessagesKeyPrefix @ ''p''))"
proof (cases "find_sub kMessagesKeyPrefix key")
  case None
  then show ?thesis by (simp add: RoomTopicFromKey_def)
next
  case (Some i)
  then obtain rst where rst: "drop i key = kMessagesKeyPrefix @ rst"
    using find_sub_Some [of kMessagesKeyPrefix key i] by (auto simp: prefix_def)
  have "RoomTopicFromKey key = None \<longleftrightarrow> length rst < 2 \<and>
      (EndsWith (kMessagesKeyPrefix @ rst) kValueSuffix \<or> EndsWith (kMessagesKeyPrefix @ rst) kPrioritySuffix)"
    using Some rst by (auto simp: RoomTopicFromKey_def substr_from_def Let_def)
  also have "\<dots> \<longleftrightarrow> rst = ''v'' \<or> rst = ''p''"
    by (cases rst; cases "List.tl rst")
      (auto simp: EndsWith_def kMessagesKeyPrefix_def kValueSuffix_def kPrioritySuffix_def)
  finally show ?thesis using Some rst by auto
qed

lemma BuildKey_inj:
  assumes "CHR ''/'' \<notin> set i" and "CHR ''/'' \<notin> set j"
  shows "BuildKey a i = BuildKey b j \<longleftrightarrow> a = b \<and> i = j"
  using split_last_sep [of a "CHR ''/''" i b j] assms by (auto simp: BuildKey_def)

text \<open>Minted ids: seed and counter as in the catalog, and no slash.\<close>

definition seed_ok :: "'w proc \<Rightarrow> bool" where
  "seed_ok p \<longleftrightarrow> (\<forall>s. message_seed p = Some s \<longrightarrow> CHR ''/'' \<notin> set s \<and> ascii s)"

lemma draw_seed_chars: "CHR ''/'' \<notin> set (fst (draw_seed P p)) \<and> ascii (fst (draw_seed P p))"
  by (simp add: draw_seed_def case_prod_beta Let_def)

lemma NextMessageId_frame [frame_simps]:
  "entity_seed (snd (Messaging_NextMessageId P p)) = entity_seed p"
  "entity_sequence (snd (Messaging_NextMessageId P p)) = entity_sequence p"
  "dart_port (snd (Messaging_NextMessageId P p)) = dart_port p"
  "dart_post_dl (snd (Messaging_NextMessageId P p)) = dart_post_dl p"
  "posted (snd (Messaging_NextMessageId P p)) = posted p"
  "live_handlers (snd (Messaging_NextMessageId P p)) = live_handlers p"
  "heal_handlers (snd (Messaging_NextMessageId P p)) = heal_handlers p"
  by (simp_all add: Messaging_NextMessageId_def Let_def case_prod_beta frame_simps split: option.split)

lemma NextMessageId_form:
  "\<exists>seed. message_seed (snd (Messaging_NextMessageId P p)) = Some seed \<and>
     (message_seed p = None \<and> seed = fst (draw_seed P p) \<or> message_seed p = Some seed) \<and>
     fst (Messaging_NextMessageId P p) = kMessageIdPrefix @ seed @ ''-'' @ show_nat (unat (message_sequence p)) \<and>
     message_sequence (snd (Messaging_NextMessageId P p)) = message_sequence p + 1"
  by (cases "message_seed p")
    (simp_all add: Messaging_NextMessageId_def Let_def case_prod_beta frame_simps)

lemma NextMessageId_chars:
  assumes "seed_ok p"
  shows "CHR ''/'' \<notin> set (fst (Messaging_NextMessageId P p))"
    and "ascii (fst (Messaging_NextMessageId P p))"
    and "seed_ok (snd (Messaging_NextMessageId P p))"
  using NextMessageId_form [of P p] assms draw_seed_chars [of P p]
  by (auto simp: seed_ok_def kMessageIdPrefix_def)

section \<open>Sending\<close>

text \<open>The record a send works on, in its pending state.\<close>

definition draft :: "'w platform \<Rightarrow> 'w messaging \<Rightarrow> string \<Rightarrow> string \<Rightarrow> 'w proc \<Rightarrow> ChatMessageState" where
  "draft P m roomTopic body p =
     \<lparr>cm_id = fst (Messaging_NextMessageId P p), cm_room_topic = roomTopic,
      cm_role = MESSAGE_ROLE_USER_SELF, cm_state = MESSAGE_STATE_PENDING, cm_text = body,
      cm_timestamp = fst (NowMs P (snd (Messaging_NextMessageId P p))),
      cm_sender = m_sender m, cm_deleted = False, cm_deleted_at_ms = 0\<rparr>"

text \<open>The event of the record at a later state.\<close>

definition draft_event ::
  "'w platform \<Rightarrow> 'w messaging \<Rightarrow> string \<Rightarrow> string \<Rightarrow> 'w proc \<Rightarrow> MessageState \<Rightarrow> GcsEvent" where
  "draft_event P m roomTopic body p st = Ev_message ((draft P m roomTopic body p)\<lparr>cm_state := st\<rparr>)"

definition sent_payload_source :: "'w platform \<Rightarrow> 'w messaging \<Rightarrow> string \<Rightarrow> string \<Rightarrow> 'w proc \<Rightarrow> bytes" where
  "sent_payload_source P m roomTopic body p =
     ser_message (proto P) ((draft P m roomTopic body p)\<lparr>cm_state := MESSAGE_STATE_COMPLETE\<rparr>)"

lemma PushMessage_own:
  "cm_sender msg = m_sender m \<Longrightarrow> PushMessage m msg p = m_sink m (Ev_message (msg\<lparr>cm_role := MESSAGE_ROLE_USER_SELF\<rparr>)) p"
  by (simp add: PushMessage_def RoleFor_def)

text \<open>The process between the pending echo and the payload.\<close>

definition after_echo :: "'w platform \<Rightarrow> 'w messaging \<Rightarrow> string \<Rightarrow> string \<Rightarrow> 'w proc \<Rightarrow> 'w proc" where
  "after_echo P m roomTopic body p =
     m_sink m (draft_event P m roomTopic body p MESSAGE_STATE_PENDING)
       (snd (NowMs P (snd (Messaging_NextMessageId P p))))"

lemma SendMessage_unfold:
  "Messaging_SendMessage P s topic body m p =
     (let m1 = m\<lparr>m_seenIds := List.insert (cm_id (draft P m topic body p)) (m_seenIds m)\<rparr>;
          p3 = after_echo P m topic body p;
          fail = (\<lambda>ec q. (Inl ec, m1, m_sink m (draft_event P m topic body p MESSAGE_STATE_ERROR) q))
      in case make_payload m topic (sent_payload_source P m topic body p) (world p3) of
           (Inl ec, w) \<Rightarrow> fail ec (p3\<lparr>world := w\<rparr>)
         | (Inr payload, w) \<Rightarrow>
             (case CoreSession_Publish P s topic payload (p3\<lparr>world := w\<rparr>) of
                (Inl ec, p4) \<Rightarrow> fail ec p4
              | (Inr _, p4) \<Rightarrow>
                  (case CoreSession_Put_topics P s (BuildKey topic (cm_id (draft P m topic body p)))
                          payload {topic} p4 of
                     (Inl ec, p5) \<Rightarrow> fail ec p5
                   | (Inr _, p5) \<Rightarrow>
                       (Inr (), m1, m_sink m (draft_event P m topic body p MESSAGE_STATE_COMPLETE) p5))))"
  by (simp add: Messaging_SendMessage_def draft_event_def draft_def after_echo_def
      sent_payload_source_def PushMessage_own make_payload_def Let_def case_prod_beta
      cong: sum.case_cong)

lemma SendMessage_state:
  "fst (snd (Messaging_SendMessage P s topic body m p)) =
     m\<lparr>m_seenIds := List.insert (cm_id (draft P m topic body p)) (m_seenIds m)\<rparr>"
  by (simp add: SendMessage_unfold Let_def case_prod_beta split: sum.split)

lemma SendMessage_InrE:
  assumes "Messaging_SendMessage P s topic body m p = (Inr (), m', p')"
  obtains payload w p4 p5 where
    "make_payload m topic (sent_payload_source P m topic body p) (world (after_echo P m topic body p))
       = (Inr payload, w)"
    "CoreSession_Publish P s topic payload ((after_echo P m topic body p)\<lparr>world := w\<rparr>) = (Inr (), p4)"
    "CoreSession_Put_topics P s (BuildKey topic (cm_id (draft P m topic body p))) payload {topic} p4
       = (Inr (), p5)"
    "p' = m_sink m (draft_event P m topic body p MESSAGE_STATE_COMPLETE) p5"
  using assms by (auto simp: SendMessage_unfold Let_def split: sum.splits prod.splits)

text \<open>With the production sink: what a send leaves on the port, whatever its outcome.\<close>

lemma after_echo_frame:
  assumes "m_sink m = PostToDart P"
  shows "dart_port (after_echo P m topic body p) = dart_port p"
    and "dart_post_dl (after_echo P m topic body p) = dart_post_dl p"
    and "live_handlers (after_echo P m topic body p) = live_handlers p"
    and "dart_attached p \<Longrightarrow> posted (after_echo P m topic body p) = posted p @
       [(dart_port p, SerializeGcsEvent P (draft_event P m topic body p MESSAGE_STATE_PENDING))]"
proof -
  let ?q = "snd (NowMs P (snd (Messaging_NextMessageId P p)))"
  have att: "dart_attached ?q \<longleftrightarrow> dart_attached p"
    by (simp add: dart_attached_def frame_simps)
  show "dart_port (after_echo P m topic body p) = dart_port p"
    "dart_post_dl (after_echo P m topic body p) = dart_post_dl p"
    "live_handlers (after_echo P m topic body p) = live_handlers p"
    using assms by (simp_all add: after_echo_def frame_simps)
  assume "dart_attached p"
  with assms att show "posted (after_echo P m topic body p) = posted p @
       [(dart_port p, SerializeGcsEvent P (draft_event P m topic body p MESSAGE_STATE_PENDING))]"
    by (simp add: after_echo_def PostToDart_attached frame_simps)
qed

definition send_final_state :: "unit result \<Rightarrow> MessageState" where
  "send_final_state r = (case r of Inr _ \<Rightarrow> MESSAGE_STATE_COMPLETE | Inl _ \<Rightarrow> MESSAGE_STATE_ERROR)"

lemma SendMessage_last_push:
  "\<exists>q. snd (snd (Messaging_SendMessage P s topic body m p)) =
       m_sink m (draft_event P m topic body p (send_final_state (fst (Messaging_SendMessage P s topic body m p)))) q
     \<and> dart_port q = dart_port (after_echo P m topic body p)
     \<and> dart_post_dl q = dart_post_dl (after_echo P m topic body p)
     \<and> posted q = posted (after_echo P m topic body p)"
proof -
  obtain r w where pay: "make_payload m topic (sent_payload_source P m topic body p)
      (world (after_echo P m topic body p)) = (r, w)" by fastforce
  let ?q = "(after_echo P m topic body p)\<lparr>world := w\<rparr>"
  show ?thesis
  proof (cases r)
    case (Inl e)
    with pay show ?thesis
      by (intro exI [of _ ?q]) (simp add: SendMessage_unfold Let_def send_final_state_def)
  next
    case (Inr payload)
    obtain r4 p4 where pub: "CoreSession_Publish P s topic payload ?q = (r4, p4)" by fastforce
    then have f4: "dart_port p4 = dart_port ?q" "dart_post_dl p4 = dart_post_dl ?q" "posted p4 = posted ?q"
      using CoreSession_Publish_frame [of P s topic payload ?q] by simp_all
    obtain r5 p5 where put: "CoreSession_Put_topics P s (BuildKey topic (cm_id (draft P m topic body p)))
        payload {topic} p4 = (r5, p5)" by fastforce
    then have f5: "dart_port p5 = dart_port p4" "dart_post_dl p5 = dart_post_dl p4" "posted p5 = posted p4"
      using CoreSession_Put_topics_frame [of P s "BuildKey topic (cm_id (draft P m topic body p))" payload "{topic}" p4]
      by simp_all
    show ?thesis
    proof (cases r4)
      case Inl
      with pay \<open>r = Inr payload\<close> pub f4 show ?thesis
        by (intro exI [of _ p4]) (simp add: SendMessage_unfold Let_def send_final_state_def)
    next
      case (Inr u)
      with pay \<open>r = Inr payload\<close> pub put f4 f5 show ?thesis
        by (intro exI [of _ p5]) (simp add: SendMessage_unfold Let_def send_final_state_def split: sum.split)
    qed
  qed
qed

lemma SendMessage_posts:
  assumes sink: "m_sink m = PostToDart P" and att: "dart_attached p"
    and run: "Messaging_SendMessage P s topic body m p = (r, m', p')"
  shows "posted p' = posted p @
    [(dart_port p, SerializeGcsEvent P (draft_event P m topic body p MESSAGE_STATE_PENDING)),
     (dart_port p, SerializeGcsEvent P (draft_event P m topic body p (send_final_state r)))]"
proof -
  from SendMessage_last_push [of P s topic body m p] run sink obtain q where
    p': "p' = PostToDart P (draft_event P m topic body p (send_final_state r)) q"
    and f: "dart_port q = dart_port (after_echo P m topic body p)"
      "dart_post_dl q = dart_post_dl (after_echo P m topic body p)"
      "posted q = posted (after_echo P m topic body p)" by auto
  note echo = after_echo_frame [OF sink, where topic = topic and body = body and p = p]
  have "dart_attached q" using att f echo by (simp add: dart_attached_def)
  then show ?thesis using att f echo by (simp add: p' PostToDart_attached)
qed

lemma SendMessage_archived:
  assumes "store_puts P" and "m_sink m = PostToDart P"
    and "Messaging_SendMessage P s topic body m p = (Inr (), m', p')"
  obtains payload w p4 where
    "make_payload m topic (sent_payload_source P m topic body p) (world (after_echo P m topic body p))
       = (Inr payload, w)"
    "CoreSession_Publish P s topic payload ((after_echo P m topic body p)\<lparr>world := w\<rparr>) = (Inr (), p4)"
    "CoreSession_Get P s (BuildKey topic (cm_id (draft P m topic body p))) p' = Inr payload"
    "\<And>k. k \<noteq> BuildKey topic (cm_id (draft P m topic body p)) \<Longrightarrow>
       CoreSession_Get P s k p' = CoreSession_Get P s k p4"
proof -
  from assms(3) obtain payload w p4 p5 where
    pay: "make_payload m topic (sent_payload_source P m topic body p) (world (after_echo P m topic body p))
       = (Inr payload, w)"
    and pub: "CoreSession_Publish P s topic payload ((after_echo P m topic body p)\<lparr>world := w\<rparr>) = (Inr (), p4)"
    and put: "CoreSession_Put_topics P s (BuildKey topic (cm_id (draft P m topic body p))) payload {topic} p4
       = (Inr (), p5)"
    and p': "p' = m_sink m (draft_event P m topic body p MESSAGE_STATE_COMPLETE) p5"
    by (rule SendMessage_InrE)
  have "CoreSession_Get P s k p' = CoreSession_Get P s k p5" for k
    by (simp add: p' assms(2) CoreSession_Get_def GcsGlobalDb_Get_def frame_simps)
  with core_topic_kv.put_topics_get [OF assms(1) put] pay pub show thesis by (intro that) auto
qed

section \<open>Receiving\<close>

text \<open>A delivery is admitted when it opens, parses, and its id is new.\<close>

definition admitted :: "'w platform \<Rightarrow> string \<Rightarrow> bytes \<Rightarrow> 'w messaging \<Rightarrow> 'w proc \<Rightarrow> ChatMessageState option" where
  "admitted P topic bs m p =
     (case fst (open_payload m topic bs (world p)) of
        Inl _ \<Rightarrow> None
      | Inr plain \<Rightarrow>
          (case parse_message (proto P) plain of
             None \<Rightarrow> None
           | Some msg \<Rightarrow> if cm_id msg \<in> set (m_seenIds m) then None else Some msg))"

definition with_role :: "string \<Rightarrow> ChatMessageState \<Rightarrow> ChatMessageState" where
  "with_role sender msg = msg\<lparr>cm_role := RoleFor msg sender\<rparr>"

lemma with_role_id [simp]: "cm_id (with_role sender msg) = cm_id msg"
  and with_role_key [simp]: "message_key (with_role sender msg) = message_key msg"
  by (simp_all add: with_role_def message_key_def)

lemma ApplyMessage_rejected:
  "admitted P topic bs m p = None \<Longrightarrow>
   ApplyMessage P topic bs m p = (m, p\<lparr>world := snd (open_payload m topic bs (world p))\<rparr>)"
  by (auto simp: ApplyMessage_def admitted_def Let_def split: sum.splits option.splits prod.splits if_splits)

lemma ApplyMessage_admitted:
  "admitted P topic bs m p = Some msg \<Longrightarrow>
   ApplyMessage P topic bs m p =
     (m\<lparr>m_seenIds := seen_admit (cm_id msg) (m_seenIds m),
        m_archiveQueue := m_archiveQueue m @ [(BuildKey (cm_room_topic msg) (cm_id msg), bs)]\<rparr>,
      m_sink m (Ev_message (with_role (m_sender m) msg))
        (p\<lparr>world := snd (open_payload m topic bs (world p))\<rparr>))"
  by (auto simp: ApplyMessage_def admitted_def EnqueueArchive_def PushMessage_def with_role_def Let_def
      split: sum.splits option.splits prod.splits if_splits)

lemma ApplyMessage_config:
  "m_sender (fst (ApplyMessage P topic bs m p)) = m_sender m"
  "m_sink (fst (ApplyMessage P topic bs m p)) = m_sink m"
  "m_crypto (fst (ApplyMessage P topic bs m p)) = m_crypto m"
  "m_encryptionEnabled (fst (ApplyMessage P topic bs m p)) = m_encryptionEnabled m"
  "m_archiveStopped (fst (ApplyMessage P topic bs m p)) = m_archiveStopped m"
  by (cases "admitted P topic bs m p"; simp add: ApplyMessage_rejected ApplyMessage_admitted)+

text \<open>The receive invariant: no id twice in the set, and the set within its bound.\<close>

definition messaging_ok :: "'w messaging \<Rightarrow> bool" where
  "messaging_ok m \<longleftrightarrow> distinct (m_seenIds m)"

lemma seen_admit_distinct [simp]: "distinct seen \<Longrightarrow> distinct (seen_admit i seen)"
  by (simp add: seen_admit_def)

lemma seen_admit_length [simp]: "length (seen_admit i seen) \<le> kMaxSeenIds"
  by (simp add: seen_admit_def kMaxSeenIds_def List.insert_def)

lemma seen_admit_room: "length seen < kMaxSeenIds \<Longrightarrow> seen_admit i seen = List.insert i seen"
  by (simp add: seen_admit_def)

lemma ApplyMessage_ok: "messaging_ok m \<Longrightarrow> messaging_ok (fst (ApplyMessage P topic bs m p))"
  by (cases "admitted P topic bs m p")
    (simp_all add: ApplyMessage_rejected ApplyMessage_admitted messaging_ok_def)

text \<open>A run of deliveries: both routes end in the same funnel with a topic and bytes.\<close>

fun deliver_all ::
  "'w platform \<Rightarrow> (string \<times> bytes) list \<Rightarrow> 'w messaging \<Rightarrow> 'w proc \<Rightarrow> 'w messaging \<times> 'w proc" where
  "deliver_all P [] m p = (m, p)"
| "deliver_all P ((topic, bs) # ds) m p =
     (case ApplyMessage P topic bs m p of (m1, p1) \<Rightarrow> deliver_all P ds m1 p1)"

text \<open>The messages a run admits, each with the bytes it came as.\<close>

fun admitted_all ::
  "'w platform \<Rightarrow> (string \<times> bytes) list \<Rightarrow> 'w messaging \<Rightarrow> 'w proc \<Rightarrow> (ChatMessageState \<times> bytes) list" where
  "admitted_all P [] m p = []"
| "admitted_all P ((topic, bs) # ds) m p =
     (case admitted P topic bs m p of None \<Rightarrow> [] | Some msg \<Rightarrow> [(msg, bs)]) @
     (case ApplyMessage P topic bs m p of (m1, p1) \<Rightarrow> admitted_all P ds m1 p1)"

lemma deliver_all_posts:
  assumes "m_sink m = PostToDart P" and "dart_attached p"
  shows "posted (snd (deliver_all P ds m p)) = posted p @
      map (\<lambda>(msg, bs). (dart_port p, SerializeGcsEvent P (Ev_message (with_role (m_sender m) msg))))
        (admitted_all P ds m p)
    \<and> m_archiveQueue (fst (deliver_all P ds m p)) = m_archiveQueue m @
      map (\<lambda>(msg, bs). (BuildKey (cm_room_topic msg) (cm_id msg), bs)) (admitted_all P ds m p)"
  using assms
proof (induction ds arbitrary: m p)
  case (Cons d ds)
  obtain topic bs where d: "d = (topic, bs)" by fastforce
  obtain m1 p1 where step: "ApplyMessage P topic bs m p = (m1, p1)" by fastforce
  have conf: "m_sender m1 = m_sender m" "m_sink m1 = m_sink m"
    using ApplyMessage_config [of P topic bs m p] by (simp_all add: step)
  show ?case
  proof (cases "admitted P topic bs m p")
    case None
    with step Cons.prems have "m1 = m" "p1 = p\<lparr>world := world p1\<rparr>"
      by (auto simp: ApplyMessage_rejected)
    moreover from this(2) Cons.prems have "dart_attached p1" "posted p1 = posted p" "dart_port p1 = dart_port p"
      by (metis (no_types) dart_attached_def proc.select_convs proc.surjective proc.update_convs(1))+
    ultimately show ?thesis
      using Cons.IH [of m1 p1] Cons.prems conf None by (simp add: d step)
  next
    case (Some msg)
    with step Cons.prems have q: "m_archiveQueue m1 = m_archiveQueue m @ [(BuildKey (cm_room_topic msg) (cm_id msg), bs)]"
      and p1: "dart_port p1 = dart_port p" "dart_attached p1"
        "posted p1 = posted p @ [(dart_port p, SerializeGcsEvent P (Ev_message (with_role (m_sender m) msg)))]"
      by (auto simp: ApplyMessage_admitted PostToDart_attached dart_attached_def)
    then show ?thesis
      using Cons.IH [of m1 p1] Cons.prems conf Some by (simp add: d step)
  qed
qed simp

text \<open>With room in the set, a run admits each id at most once and none it had already seen.\<close>

lemma seen_admit_grow:
  "length seen < kMaxSeenIds \<Longrightarrow> i \<notin> set seen \<Longrightarrow>
   set (seen_admit i seen) = insert i (set seen) \<and> length (seen_admit i seen) = Suc (length seen)"
  by (simp add: seen_admit_room List.insert_def)

lemma admitted_fresh: "admitted P topic bs m p = Some msg \<Longrightarrow> cm_id msg \<notin> set (m_seenIds m)"
  by (auto simp: admitted_def split: sum.splits option.splits if_splits)

lemma admitted_all_once:
  assumes "length (m_seenIds m) + length ds \<le> kMaxSeenIds"
  shows "distinct (map (cm_id \<circ> fst) (admitted_all P ds m p)) \<and>
    (cm_id \<circ> fst) ` set (admitted_all P ds m p) \<inter> set (m_seenIds m) = {}"
  using assms
proof (induction ds arbitrary: m p)
  case (Cons d ds)
  obtain topic bs where d: "d = (topic, bs)" by fastforce
  obtain m1 p1 where step: "ApplyMessage P topic bs m p = (m1, p1)" by fastforce
  show ?case
  proof (cases "admitted P topic bs m p")
    case None
    with step have "m1 = m" by (simp add: ApplyMessage_rejected)
    with Cons.IH [of m1 p1] Cons.prems None show ?thesis by (simp add: d step)
  next
    case (Some msg)
    note fresh = admitted_fresh [OF Some]
    from Some step have "m_seenIds m1 = seen_admit (cm_id msg) (m_seenIds m)"
      by (auto simp: ApplyMessage_admitted)
    with seen_admit_grow [OF _ fresh] Cons.prems
    have "set (m_seenIds m1) = insert (cm_id msg) (set (m_seenIds m))"
      "length (m_seenIds m1) + length ds \<le> kMaxSeenIds" by auto
    with Cons.IH [of m1 p1] fresh show ?thesis by (auto simp: d step Some)
  qed
qed simp

text \<open>Without encryption the admitted messages are the parseable ones, the first of each new id.\<close>

fun first_of_each :: "string set \<Rightarrow> (ChatMessageState \<times> bytes) list \<Rightarrow> (ChatMessageState \<times> bytes) list" where
  "first_of_each seen [] = []"
| "first_of_each seen ((msg, bs) # rest) =
     (if cm_id msg \<in> seen then first_of_each seen rest
      else (msg, bs) # first_of_each (insert (cm_id msg) seen) rest)"

definition parsed :: "'w platform \<Rightarrow> bytes list \<Rightarrow> (ChatMessageState \<times> bytes) list" where
  "parsed P bss = concat (map (\<lambda>bs. case parse_message (proto P) bs of None \<Rightarrow> [] | Some msg \<Rightarrow> [(msg, bs)]) bss)"

lemma admitted_all_plain:
  assumes "\<not> m_encryptionEnabled m" and "length (m_seenIds m) + length ds \<le> kMaxSeenIds"
  shows "admitted_all P ds m p = first_of_each (set (m_seenIds m)) (parsed P (map snd ds))"
  using assms
proof (induction ds arbitrary: m p)
  case (Cons d ds)
  obtain topic bs where d: "d = (topic, bs)" by fastforce
  obtain m1 p1 where step: "ApplyMessage P topic bs m p = (m1, p1)" by fastforce
  have enc: "\<not> m_encryptionEnabled m1"
    using ApplyMessage_config [of P topic bs m p] Cons.prems by (simp add: step)
  have adm: "admitted P topic bs m p = (case parse_message (proto P) bs of None \<Rightarrow> None
      | Some msg \<Rightarrow> if cm_id msg \<in> set (m_seenIds m) then None else Some msg)"
    using Cons.prems by (simp add: admitted_def open_payload_def)
  show ?case
  proof (cases "admitted P topic bs m p")
    case None
    with step have "m1 = m" by (simp add: ApplyMessage_rejected)
    with Cons.IH [of m1 p1] Cons.prems enc None adm show ?thesis
      by (simp add: d step parsed_def split: option.splits if_splits)
  next
    case (Some msg)
    note fresh = admitted_fresh [OF Some]
    have "parse_message (proto P) bs = Some msg"
      using Some adm by (auto split: option.splits if_splits)
    moreover from Some step have "m_seenIds m1 = seen_admit (cm_id msg) (m_seenIds m)"
      by (auto simp: ApplyMessage_admitted)
    moreover from this seen_admit_grow [OF _ fresh] Cons.prems
    have "set (m_seenIds m1) = insert (cm_id msg) (set (m_seenIds m))"
      "length (m_seenIds m1) + length ds \<le> kMaxSeenIds" by auto
    ultimately show ?thesis
      using Cons.IH [of m1 p1] enc fresh Some by (simp add: d step parsed_def)
  qed
qed (simp add: parsed_def)

section \<open>From sender to receiver\<close>

text \<open>
  Two messaging objects whose seams agree: both plaintext, or both on the OpenSSL adapter. What one
  makes the other opens, so the pair is a payload seam, whatever the outside worlds are.
\<close>

definition seam_agree ::
  "('w, 'k, 'c) openssl \<Rightarrow> 'w messaging \<Rightarrow> 'w messaging \<Rightarrow> bool" where
  "seam_agree ssl m1 m2 \<longleftrightarrow>
     \<not> m_encryptionEnabled m1 \<and> \<not> m_encryptionEnabled m2 \<or>
     m_encryptionEnabled m1 \<and> m_encryptionEnabled m2 \<and> openssl_ok ssl \<and>
     seam_encrypt (m_crypto m1) = Some (EncryptPayload ssl) \<and>
     seam_decrypt (m_crypto m2) = Some (DecryptPayload ssl)"

interpretation channel: payload_seam "seam_agree ssl m1 m2" fits_int "make_payload m1" "open_payload m2"
  for ssl and m1 m2 :: "'w messaging"
proof
  fix topic :: string and pt env :: bytes and s s1 s2 :: 'w
  assume agree: "seam_agree ssl m1 m2" and fit: "fits_int topic" "fits_int pt"
    and make: "make_payload m1 topic pt s = (Inr env, s1)"
  show "fst (open_payload m2 topic env s2) = Inr pt"
  proof (cases "m_encryptionEnabled m1")
    case True
    with agree have ok: "openssl_ok ssl" and "m_encryptionEnabled m2"
      and "seam_encrypt (m_crypto m1) = Some (EncryptPayload ssl)"
      and "seam_decrypt (m_crypto m2) = Some (DecryptPayload ssl)" by (auto simp: seam_agree_def)
    with make True gcm_seam.dec_enc [OF ok fit, of s env s1 s2] show ?thesis
      by (simp add: make_payload_def open_payload_def)
  next
    case False
    with agree make show ?thesis by (auto simp: seam_agree_def make_payload_def open_payload_def)
  qed
qed

lemma utf8_draft:
  assumes "seed_ok p" and "valid_utf8 topic" and "valid_utf8 body" and "valid_utf8 (m_sender m)"
    and "state_ok st"
  shows "wf_message ((draft P m topic body p)\<lparr>cm_state := st\<rparr>)"
  using assms NextMessageId_chars(2) [OF assms(1), of P]
  by (simp add: wf_message_def draft_def ascii_valid_utf8)

text \<open>The bytes a send produces are admitted, as the completed record, where the id is new.\<close>

lemma sent_payload_admitted:
  assumes codec: "protobuf_ok (proto P)" and agree: "seam_agree ssl m m2"
    and utf8: "seed_ok p" "valid_utf8 topic" "valid_utf8 body" "valid_utf8 (m_sender m)"
    and fit: "fits_int topic" "fits_int (sent_payload_source P m topic body p)"
    and pay: "make_payload m topic (sent_payload_source P m topic body p) w = (Inr payload, w')"
    and proto: "proto P2 = proto P"
  shows "admitted P2 topic payload m2 p2 =
    (if cm_id (draft P m topic body p) \<in> set (m_seenIds m2) then None
     else Some ((draft P m topic body p)\<lparr>cm_state := MESSAGE_STATE_COMPLETE\<rparr>))"
proof -
  let ?msg = "(draft P m topic body p)\<lparr>cm_state := MESSAGE_STATE_COMPLETE\<rparr>"
  have "fst (open_payload m2 topic payload (world p2)) = Inr (ser_message (proto P) ?msg)"
    using channel.dec_enc [OF agree fit pay] by (simp add: sent_payload_source_def)
  moreover have "parse_message (proto P) (ser_message (proto P) ?msg) = Some ?msg"
    using codec utf8_draft [OF utf8, of MESSAGE_STATE_COMPLETE] by (simp add: protobuf_okD)
  ultimately show ?thesis by (simp add: admitted_def proto)
qed

section \<open>History\<close>

lemma message_less_key: "message_less a b \<longleftrightarrow> message_key a < message_key b"
  by (auto simp: message_less_def message_key_def less_prod_def' signed_word_eqI)

definition history_order :: "ChatMessageState \<Rightarrow> ChatMessageState \<Rightarrow> bool" where
  "history_order a b \<longleftrightarrow> \<not> message_less b a"

lemma history_order_key: "history_order a b \<longleftrightarrow> message_key a \<le> message_key b"
  by (auto simp: history_order_def message_less_key)

lemma sorted_history: "sorted_wrt history_order (sort_key message_key xs)"
  using sorted_sort_key [of message_key xs]
  by (simp add: sorted_map sorted_wrt_map history_order_key [abs_def])

text \<open>Where the ids are distinct the order is total, so any sort of the batch gives this list.\<close>

lemma history_unique:
  assumes "sorted_wrt history_order ys" and "mset ys = mset xs" and "distinct (map message_key xs)"
  shows "ys = sort_key message_key xs"
proof -
  have "distinct (map message_key ys)"
    using assms(2,3) by (metis mset_eq_imp_distinct_iff mset_map)
  moreover have "sorted (map message_key ys)"
    using assms(1) by (simp add: sorted_wrt_map history_order_key [abs_def])
  ultimately show ?thesis
    using assms(2,3)
    by (intro map_sorted_distinct_set_unique [where f = message_key])
      (auto simp: distinct_map dest: mset_eq_setD)
qed

lemma QueryHistory_Inr:
  assumes "CoreSession_QueryKeyValues P s (kMessagesKeyPrefix @ topic @ ''/'') p = Inr entries"
  shows "\<exists>m' p'. QueryHistory P s topic m p =
    (Inr \<lparr>mh_room_topic = topic,
          mh_message = sort_key message_key (fst (history_scan P m topic entries (world p)))\<rparr>, m', p')"
  using assms by (simp add: QueryHistory_def case_prod_beta Let_def)

lemma QueryHistory_InrE:
  assumes "QueryHistory P s topic m p = (Inr h, m', p')"
  obtains entries where "CoreSession_QueryKeyValues P s (kMessagesKeyPrefix @ topic @ ''/'') p = Inr entries"
    "h = \<lparr>mh_room_topic = topic,
          mh_message = sort_key message_key (fst (history_scan P m topic entries (world p)))\<rparr>"
    "m' = m\<lparr>m_seenIds := foldl (\<lambda>seen msg. seen_admit (cm_id msg) seen) (m_seenIds m) (mh_message h)\<rparr>"
    "p' = p\<lparr>world := snd (history_scan P m topic entries (world p))\<rparr>"
  using assms by (auto simp: QueryHistory_def case_prod_beta Let_def split: sum.splits)

text \<open>An archived value: some object of the room made it from a UTF-8 record.\<close>

definition archived_as ::
  "'w platform \<Rightarrow> ('w, 'k, 'c) openssl \<Rightarrow> 'w messaging \<Rightarrow> string \<Rightarrow> bytes \<Rightarrow> ChatMessageState \<Rightarrow> bool" where
  "archived_as P ssl m topic val msg \<longleftrightarrow>
     (\<exists>m1 w w'. seam_agree ssl m1 m \<and> wf_message msg \<and> fits_int (ser_message (proto P) msg) \<and>
        make_payload m1 topic (ser_message (proto P) msg) w = (Inr val, w'))"

lemma history_scan_archived:
  assumes codec: "protobuf_ok (proto P)" and fit: "fits_int topic"
    and all: "list_all2 (\<lambda>e msg. archived_as P ssl m topic (snd e) msg) entries msgs"
  shows "fst (history_scan P m topic entries w) = map (with_role (m_sender m)) msgs"
  using all
proof (induction entries msgs arbitrary: w rule: list_all2_induct)
  case (Cons e entries msg msgs)
  obtain k v where e: "e = (k, v)" by fastforce
  from Cons.hyps(1) obtain m1 w1 w2 where a: "seam_agree ssl m1 m" "wf_message msg"
    "fits_int (ser_message (proto P) msg)" "make_payload m1 topic (ser_message (proto P) msg) w1 = (Inr v, w2)"
    by (auto simp: archived_as_def e)
  have "fst (open_payload m topic v w) = Inr (ser_message (proto P) msg)"
    by (rule channel.dec_enc [OF a(1) fit a(3,4)])
  then obtain w3 where "open_payload m topic v w = (Inr (ser_message (proto P) msg), w3)"
    by (metis prod.collapse)
  with Cons.IH [of w3] codec a(2) show ?case
    by (simp add: e protobuf_okD with_role_def case_prod_beta)
qed simp

section \<open>Archiving\<close>

text \<open>The queue written out in order.\<close>

definition write_out :: "'w platform \<Rightarrow> core_session \<Rightarrow> (string \<times> bytes) list \<Rightarrow> 'w proc \<Rightarrow> 'w proc" where
  "write_out P s q p = foldl (\<lambda>p (key, val). snd (CoreSession_Put P s key val p)) p q"

lemma ArchiveWorker_drains:
  "m_archiveStopped m \<Longrightarrow>
   ArchiveWorker P s m p = Some (m\<lparr>m_archiveQueue := []\<rparr>, write_out P s (m_archiveQueue m) p)"
proof (induction "m_archiveQueue m" arbitrary: m p)
  case Nil
  from Nil.hyps [symmetric] Nil.prems show ?case
    by (subst ArchiveWorker.simps) (cases m; simp add: ArchiveWorker_turn_def write_out_def)
next
  case (Cons kv rest)
  obtain key val where kv: "kv = (key, val)" by fastforce
  let ?m = "m\<lparr>m_archiveQueue := rest\<rparr>"
  have "ArchiveWorker P s ?m (snd (CoreSession_Put P s key val p)) =
      Some (?m\<lparr>m_archiveQueue := []\<rparr>, write_out P s rest (snd (CoreSession_Put P s key val p)))"
    using Cons.hyps(1) [of ?m] Cons.prems by simp
  then show ?case
    using Cons.hyps(2) [symmetric]
    by (subst ArchiveWorker.simps) (simp add: ArchiveWorker_turn_def kv write_out_def)
qed

lemma ArchiveWorker_keeps_waiting:
  "\<not> m_archiveStopped m \<Longrightarrow> ArchiveWorker P s m p = None"
proof (induction "m_archiveQueue m" arbitrary: m p)
  case Nil
  then show ?case by (subst ArchiveWorker.simps) (simp add: ArchiveWorker_turn_def)
next
  case (Cons kv rest)
  obtain key val where kv: "kv = (key, val)" by fastforce
  have "ArchiveWorker P s (m\<lparr>m_archiveQueue := rest\<rparr>) q = None" for q
    using Cons.hyps(1) [of "m\<lparr>m_archiveQueue := rest\<rparr>"] Cons.prems by simp
  then show ?case
    using Cons.hyps(2) [symmetric]
    by (subst ArchiveWorker.simps) (simp add: ArchiveWorker_turn_def kv)
qed

lemma seen_fold_distinct:
  "distinct seen \<Longrightarrow> distinct (foldl (\<lambda>seen msg. seen_admit (cm_id msg) seen) seen msgs)"
  by (induction msgs arbitrary: seen) simp_all

text \<open>With room in the set, a history scan leaves every scanned id in it.\<close>

lemma seen_fold_absorbs:
  "length seen + length msgs \<le> kMaxSeenIds \<Longrightarrow>
   cm_id ` set msgs \<union> set seen \<subseteq> set (foldl (\<lambda>seen msg. seen_admit (cm_id msg) seen) seen msgs)"
proof (induction msgs arbitrary: seen)
  case (Cons msg msgs)
  then have adm: "seen_admit (cm_id msg) seen = List.insert (cm_id msg) seen" by (simp add: seen_admit_room)
  have "length (List.insert (cm_id msg) seen) \<le> Suc (length seen)" by (simp add: List.insert_def)
  with Cons.prems Cons.IH [of "List.insert (cm_id msg) seen"] show ?case by (auto simp: adm)
qed simp

end
