(* ===== verification/MessagingProps.thy ===== *)
theory MessagingProps
  imports Messaging StoreProps CryptoProps
begin

text \<open>
  Properties of the messaging component (\<open>src/lib/gcs_messaging.cpp\<close>): sending, delivery, echo
  absorption and deduplication, history, archive keys, and the archive worker. The witnesses run on
  the reference platform with the reference cipher behind the encryption seam.
\<close>

section \<open>Reference objects\<close>

definition ref_seam :: "ref_world CryptoSeam" where
  "ref_seam = \<lparr>seam_encrypt = Some (EncryptPayload ref_ssl), seam_decrypt = Some (DecryptPayload ref_ssl),
     seam_enabled = True\<rparr>"

definition ref_alice :: "ref_world messaging" where
  "ref_alice = Messaging_new ''0xA'' (PostToDart ref_platform) ref_seam"

definition ref_bob :: "ref_world messaging" where
  "ref_bob = Messaging_new ''0xB'' (PostToDart ref_platform) ref_seam"

definition ref_carol :: "ref_world messaging" where
  "ref_carol = Messaging_new ''0xC'' (PostToDart ref_platform) CryptoSeam_default"

definition ref_attached :: "ref_world proc" where
  "ref_attached = ref_booted\<lparr>dart_port := 5\<rparr>"

lemma ref_attached_facts [simp]: "dart_attached ref_attached" "seed_ok ref_attached"
  "dart_port ref_attached = 5" "posted ref_attached = []"
  by (simp_all add: ref_attached_def ref_booted_def ref_proc_def dart_attached_def seed_ok_def)

lemma ref_messaging_facts [simp]:
  "m_sink ref_alice = PostToDart ref_platform" "m_sink ref_bob = PostToDart ref_platform"
  "m_sink ref_carol = PostToDart ref_platform"
  "m_sender ref_alice = ''0xA''" "m_sender ref_bob = ''0xB''" "m_sender ref_carol = ''0xC''"
  "m_seenIds ref_alice = []" "m_seenIds ref_bob = []" "m_seenIds ref_carol = []"
  "m_archiveQueue ref_bob = []" "\<not> m_encryptionEnabled ref_carol"
  "seam_agree ref_ssl ref_alice ref_bob"
  by (simp_all add: ref_alice_def ref_bob_def ref_carol_def Messaging_new_def ref_seam_def
      CryptoSeam_default_def seam_agree_def)

lemma ref_encrypt_any: "\<exists>env. EncryptPayload ref_ssl t b w = (Inr env, w)"
  by (simp add: EncryptPayload_def DeriveRoomKey_def hkdf_chain_def gcm_encrypt_chain_def ref_ssl_def Let_def)

lemma ref_Publish: "\<exists>q. CoreSession_Publish ref_platform ref_session t x p = (Inr (), q)"
  by (simp add: CoreSession_Publish_def GcsGlobalDb_Publish_def) (simp add: ref_platform_def)

lemma ref_Put_topics: "\<exists>q. CoreSession_Put_topics ref_platform ref_session k x T p = (Inr (), q)"
  by (simp add: core_put_defs with_db_def ref_platform_def)

lemma ref_send_ok:
  "\<exists>m' p'. Messaging_SendMessage ref_platform ref_session t b ref_alice p = (Inr (), m', p')"
proof -
  let ?e = "after_echo ref_platform ref_alice t b p"
  obtain env where 1: "make_payload ref_alice t (sent_payload_source ref_platform ref_alice t b p) (world ?e)
      = (Inr env, world ?e)"
    using ref_encrypt_any by (force simp: make_payload_def ref_alice_def Messaging_new_def ref_seam_def)
  obtain q where 2: "CoreSession_Publish ref_platform ref_session t env (?e\<lparr>world := world ?e\<rparr>) = (Inr (), q)"
    using ref_Publish by blast
  obtain r where 3: "CoreSession_Put_topics ref_platform ref_session
      (BuildKey t (cm_id (draft ref_platform ref_alice t b p))) env {t} q = (Inr (), r)"
    using ref_Put_topics by blast
  show ?thesis unfolding SendMessage_unfold Let_def 1 prod.case sum.case 2 3 by simp
qed

lemma ref_source_small:
  "fits_int (sent_payload_source ref_platform ref_alice ''gcs/chat/r1'' ''hi'' ref_attached)"
proof -
  have "length (sent_payload_source ref_platform ref_alice ''gcs/chat/r1'' ''hi'' ref_attached) < 200"
    by code_simp
  then show ?thesis by (simp add: fits_int_def)
qed

section \<open>Sending and delivery\<close>

text \<open>A message whose send succeeds was handed to the room's gossip topic and is stored under its archive
  key as one and the same bytes; any object of another sender whose seam agrees and that has not seen the
  id accepts those bytes, shows the message once, complete and in the peer role with its text intact, and
  queues the bytes, as received, for its own archive.\<close>

theorem send_reaches_peer:
  fixes ssl :: "('w, 'k, 'c) openssl"
  assumes "store_puts P" and "protobuf_ok (proto P)" and "proto P2 = proto P"
    and "m_sink m = PostToDart P" and "m_sink m2 = PostToDart P2" and "dart_attached p2"
    and "seam_agree ssl m m2" and "seed_ok p"
    and "valid_utf8 roomTopic" and "valid_utf8 body" and "valid_utf8 (m_sender m)"
    and "fits_int roomTopic" and "fits_int (sent_payload_source P m roomTopic body p)"
    and "Messaging_SendMessage P s roomTopic body m p = (Inr (), m', p')"
    and "m_sender m \<noteq> m_sender m2" and "cm_id (draft P m roomTopic body p) \<notin> set (m_seenIds m2)"
  shows "\<exists>payload q q' m2' p2'.
      CoreSession_Publish P s roomTopic payload q = (Inr (), q')
    \<and> CoreSession_Get P s (BuildKey roomTopic (cm_id (draft P m roomTopic body p))) p' = Inr payload
    \<and> ApplyMessage P2 roomTopic payload m2 p2 = (m2', p2')
    \<and> posted p2' = posted p2 @ [(dart_port p2, SerializeGcsEvent P2 (Ev_message
         ((draft P m roomTopic body p)\<lparr>cm_state := MESSAGE_STATE_COMPLETE, cm_role := MESSAGE_ROLE_USER_PEER\<rparr>)))]
    \<and> m_archiveQueue m2' = m_archiveQueue m2 @
         [(BuildKey roomTopic (cm_id (draft P m roomTopic body p)), payload)]"
proof -
  let ?d = "draft P m roomTopic body p"
  let ?msg = "?d\<lparr>cm_state := MESSAGE_STATE_COMPLETE\<rparr>"
  obtain payload w p4 where pay: "make_payload m roomTopic (sent_payload_source P m roomTopic body p)
        (world (after_echo P m roomTopic body p)) = (Inr payload, w)"
    and pub: "CoreSession_Publish P s roomTopic payload ((after_echo P m roomTopic body p)\<lparr>world := w\<rparr>) = (Inr (), p4)"
    and get: "CoreSession_Get P s (BuildKey roomTopic (cm_id ?d)) p' = Inr payload"
    using SendMessage_archived [OF assms(1,4,14)] by metis
  have adm: "admitted P2 roomTopic payload m2 p2 = Some ?msg"
    using sent_payload_admitted [OF assms(2,7-13) pay assms(3), of p2] assms(16) by simp
  have role: "with_role (m_sender m2) ?msg = ?msg\<lparr>cm_role := MESSAGE_ROLE_USER_PEER\<rparr>"
    using assms(15) by (simp add: with_role_def RoleFor_def draft_def)
  let ?w = "snd (open_payload m2 roomTopic payload (world p2))"
  have "dart_attached (p2\<lparr>world := ?w\<rparr>)" using assms(6) by (simp add: dart_attached_def)
  moreover have "cm_room_topic ?msg = roomTopic" "cm_id ?msg = cm_id ?d" by (simp_all add: draft_def)
  ultimately show ?thesis
    using pub get assms(5) by (auto simp: ApplyMessage_admitted [OF adm] role PostToDart_attached)
qed

theorem send_reaches_peer_witness:
  "\<exists>m' p' m2' p2' payload. Messaging_SendMessage ref_platform ref_session ''gcs/chat/r1'' ''hi'' ref_alice ref_attached
       = (Inr (), m', p')
     \<and> ApplyMessage ref_platform ''gcs/chat/r1'' payload ref_bob ref_attached = (m2', p2') \<and> length (posted p2') = 1"
proof -
  obtain m' p' where run: "Messaging_SendMessage ref_platform ref_session ''gcs/chat/r1'' ''hi'' ref_alice ref_attached
      = (Inr (), m', p')" using ref_send_ok by blast
  have "valid_utf8 ''gcs/chat/r1''" "valid_utf8 ''hi''" "valid_utf8 (m_sender ref_alice)" "fits_int ''gcs/chat/r1''"
    by (simp_all add: fits_int_def)
  from send_reaches_peer [OF ref_store_puts _ refl ref_messaging_facts(1,2) ref_attached_facts(1)
      ref_messaging_facts(12) ref_attached_facts(2) this ref_source_small run]
  obtain payload m2' p2' where "ApplyMessage ref_platform ''gcs/chat/r1'' payload ref_bob ref_attached = (m2', p2')"
    and "length (posted p2') = 1" by auto
  with run show ?thesis by blast
qed

text \<open>Every send pushes exactly two message events with one id, first pending, then complete when it
  succeeds and error when encryption, publishing or archiving fails, in this order and with the
  author's role.\<close>

theorem send_two_events:
  assumes "m_sink m = PostToDart P" and "dart_attached p"
    and "Messaging_SendMessage P s roomTopic body m p = (r, m', p')"
  shows "\<exists>ident t. posted p' = posted p @ map (\<lambda>st. (dart_port p, SerializeGcsEvent P (Ev_message
      \<lparr>cm_id = ident, cm_room_topic = roomTopic, cm_role = MESSAGE_ROLE_USER_SELF, cm_state = st,
        cm_text = body, cm_timestamp = t, cm_sender = m_sender m, cm_deleted = False, cm_deleted_at_ms = 0\<rparr>)))
      [MESSAGE_STATE_PENDING, case r of Inr _ \<Rightarrow> MESSAGE_STATE_COMPLETE | Inl _ \<Rightarrow> MESSAGE_STATE_ERROR]"
  using SendMessage_posts [OF assms]
  by (intro exI) (simp add: draft_event_def draft_def send_final_state_def)

theorem send_two_events_witness:
  "\<exists>m' p'. Messaging_SendMessage ref_platform ref_session ''gcs/chat/r1'' ''hi'' ref_alice ref_attached
       = (Inr (), m', p') \<and> length (posted p') = 2"
proof -
  obtain m' p' where run: "Messaging_SendMessage ref_platform ref_session ''gcs/chat/r1'' ''hi'' ref_alice ref_attached
      = (Inr (), m', p')" using ref_send_ok by blast
  from send_two_events [OF ref_messaging_facts(1) ref_attached_facts(1) run] have "length (posted p') = 2" by auto
  with run show ?thesis by blast
qed

text \<open>The sender absorbs its own message: when the bytes it archived come back to it, over either route
  and in any later state of the process, nothing is shown and nothing is queued.\<close>

theorem own_echo_absorbed:
  fixes ssl :: "('w, 'k, 'c) openssl"
  assumes "store_puts P" and "protobuf_ok (proto P)" and "m_sink m = PostToDart P" and "seam_agree ssl m m"
    and "seed_ok p" and "valid_utf8 roomTopic" and "valid_utf8 body" and "valid_utf8 (m_sender m)"
    and "fits_int roomTopic" and "fits_int (sent_payload_source P m roomTopic body p)"
    and "Messaging_SendMessage P s roomTopic body m p = (Inr (), m', p')"
    and "CoreSession_Get P s (BuildKey roomTopic (cm_id (draft P m roomTopic body p))) p' = Inr payload"
  shows "fst (ApplyMessage P roomTopic payload m' q) = m' \<and> posted (snd (ApplyMessage P roomTopic payload m' q)) = posted q"
proof -
  obtain payload' w p4 where pay: "make_payload m roomTopic (sent_payload_source P m roomTopic body p)
        (world (after_echo P m roomTopic body p)) = (Inr payload', w)"
    and "CoreSession_Get P s (BuildKey roomTopic (cm_id (draft P m roomTopic body p))) p' = Inr payload'"
    using SendMessage_archived [OF assms(1,3,11)] by metis
  with assms(12) have same: "payload' = payload" by simp
  have m': "m' = m\<lparr>m_seenIds := List.insert (cm_id (draft P m roomTopic body p)) (m_seenIds m)\<rparr>"
    using SendMessage_state [of P s roomTopic body m p] assms(11) by simp
  have "seam_agree ssl m m'" using assms(4) by (simp add: m' seam_agree_def)
  from sent_payload_admitted [OF assms(2) this assms(5-10) pay refl, of q]
  have "admitted P roomTopic payload m' q = None" by (simp add: m' same)
  then show ?thesis by (simp add: ApplyMessage_rejected)
qed

theorem own_echo_absorbed_witness:
  "\<exists>m' p' payload. Messaging_SendMessage ref_platform ref_session ''gcs/chat/r1'' ''hi'' ref_alice ref_attached
       = (Inr (), m', p') \<and> fst (ApplyMessage ref_platform ''gcs/chat/r1'' payload m' p') = m'"
proof -
  obtain m' p' where run: "Messaging_SendMessage ref_platform ref_session ''gcs/chat/r1'' ''hi'' ref_alice ref_attached
      = (Inr (), m', p')" using ref_send_ok by blast
  then obtain payload where get: "CoreSession_Get ref_platform ref_session
      (BuildKey ''gcs/chat/r1'' (cm_id (draft ref_platform ref_alice ''gcs/chat/r1'' ''hi'' ref_attached))) p' = Inr payload"
    using SendMessage_archived [OF ref_store_puts ref_messaging_facts(1)] by metis
  have "seam_agree ref_ssl ref_alice ref_alice"
    by (simp add: seam_agree_def ref_alice_def Messaging_new_def ref_seam_def)
  moreover have "valid_utf8 ''gcs/chat/r1''" "valid_utf8 ''hi''" "valid_utf8 (m_sender ref_alice)" "fits_int ''gcs/chat/r1''"
    by (simp_all add: fits_int_def)
  ultimately have "fst (ApplyMessage ref_platform ''gcs/chat/r1'' payload m' p') = m'"
    using own_echo_absorbed [OF ref_store_puts _ ref_messaging_facts(1) _ ref_attached_facts(2) _ _ _ _
        ref_source_small run get, of ref_ssl p'] by simp
  with run show ?thesis by blast
qed

text \<open>C7: over any run of deliveries that fits in the dedupe set, live and replicated in any order, wrong keys,
  tampered and unparseable bytes included, every message id is shown at most once, never one that had
  been seen, and exactly the shown messages are queued for the archive, as received and in the same order.\<close>

theorem deliveries_apply_once:
  assumes "m_sink m = PostToDart P" and "dart_attached p"
    and "length (m_seenIds m) + length deliveries \<le> kMaxSeenIds"
  shows "\<exists>shown. distinct (map (cm_id \<circ> fst) shown)
    \<and> (cm_id \<circ> fst) ` set shown \<inter> set (m_seenIds m) = {}
    \<and> posted (snd (deliver_all P deliveries m p)) = posted p @
        map (\<lambda>(msg, bs). (dart_port p, SerializeGcsEvent P (Ev_message (msg\<lparr>cm_role := RoleFor msg (m_sender m)\<rparr>)))) shown
    \<and> m_archiveQueue (fst (deliver_all P deliveries m p)) = m_archiveQueue m @
        map (\<lambda>(msg, bs). (BuildKey (cm_room_topic msg) (cm_id msg), bs)) shown"
  using deliver_all_posts [OF assms(1,2), of deliveries] admitted_all_once [OF assms(3), of P p]
  by (intro exI [of _ "admitted_all P deliveries m p"]) (simp add: with_role_def)

text \<open>A message record on the reference platform, and its plain serialisation.\<close>

definition ref_message :: "string \<Rightarrow> int64 \<Rightarrow> ChatMessageState" where
  "ref_message ident t = empty_message\<lparr>cm_id := ident, cm_room_topic := ''gcs/chat/r1'', cm_text := ''hi'',
     cm_sender := ''0xA'', cm_timestamp := t, cm_state := MESSAGE_STATE_COMPLETE\<rparr>"

definition ref_bytes :: "string \<Rightarrow> int64 \<Rightarrow> bytes" where
  "ref_bytes ident t = ser_message ref_codec (ref_message ident t)"

lemma ref_bytes_parse [simp]: "valid_utf8 ident \<Longrightarrow> parse_message ref_codec (ref_bytes ident t) = Some (ref_message ident t)"
  unfolding ref_bytes_def by (rule protobuf_okD(1) [OF ref_codec_ok]) (simp add: wf_message_def ref_message_def empty_message_def)

lemma ref_message_id [simp]: "cm_id (ref_message i t) = i"
  by (simp add: ref_message_def)

definition ref_deliveries :: "(string \<times> bytes) list" where
  "ref_deliveries = [(''gcs/chat/r1'', ref_bytes ''m'' 1), (''gcs/chat/r1'', ref_bytes ''m'' 1),
     (''gcs/chat/r1'', ''junk''), (''gcs/chat/r1'', ref_bytes ''n'' 2)]"

theorem deliveries_apply_once_witness:
  "\<exists>shown :: (ChatMessageState \<times> bytes) list. distinct (map (cm_id \<circ> fst) shown) \<and>
     length (posted (snd (deliver_all ref_platform ref_deliveries ref_carol ref_attached))) = length shown"
proof -
  have "length (m_seenIds ref_carol) + length ref_deliveries \<le> kMaxSeenIds"
    by (simp add: kMaxSeenIds_def ref_deliveries_def)
  from deliveries_apply_once [OF ref_messaging_facts(3) ref_attached_facts(1) this] obtain shown :: "(ChatMessageState \<times> bytes) list" where
    once: "distinct (map (cm_id \<circ> fst) shown)"
    and eq: "posted (snd (deliver_all ref_platform ref_deliveries ref_carol ref_attached)) = posted ref_attached @
      map (\<lambda>(msg, bs). (dart_port ref_attached, SerializeGcsEvent ref_platform
        (Ev_message (msg\<lparr>cm_role := RoleFor msg (m_sender ref_carol)\<rparr>)))) shown" by blast
  have "length (posted (snd (deliver_all ref_platform ref_deliveries ref_carol ref_attached))) = length shown"
    unfolding eq by simp
  with once show ?thesis by blast
qed



text \<open>C29: a delivery or a history scan keeps the dedupe set within its bound of 4096 entries, or lets it
  shrink to it when sends have made it larger; a send adds its id without the bound being looked at.\<close>

theorem seen_set_bound:
  shows "length (m_seenIds (fst (ApplyMessage P roomTopic bs m p))) \<le> max (length (m_seenIds m)) kMaxSeenIds
    \<and> length (m_seenIds (fst (snd (QueryHistory P s roomTopic m p)))) \<le> max (length (m_seenIds m)) kMaxSeenIds
    \<and> m_seenIds (fst (snd (Messaging_SendMessage P s roomTopic body m p))) =
        List.insert (cm_id (draft P m roomTopic body p)) (m_seenIds m)"
proof (intro conjI)
  have fold: "length (foldl (\<lambda>seen msg. seen_admit (cm_id msg) seen) seen msgs) \<le> max (length seen) kMaxSeenIds"
    for seen and msgs :: "ChatMessageState list"
    by (induction msgs arbitrary: seen) (simp_all, meson le_max_iff_disj order_trans seen_admit_length max.bounded_iff order_refl)
  then show "length (m_seenIds (fst (snd (QueryHistory P s roomTopic m p)))) \<le> max (length (m_seenIds m)) kMaxSeenIds"
    by (simp add: QueryHistory_def case_prod_beta Let_def split: sum.split)
  show "length (m_seenIds (fst (ApplyMessage P roomTopic bs m p))) \<le> max (length (m_seenIds m)) kMaxSeenIds"
    by (cases "admitted P roomTopic bs m p")
      (simp_all add: ApplyMessage_rejected ApplyMessage_admitted max.coboundedI2)
qed (simp add: SendMessage_state)

section \<open>History\<close>

text \<open>A history request returns the records the scan of the room's key prefix opened and parsed, each exactly
  as often as it was found and in its role for this sender, ordered by timestamp and then id; when the
  scan fails its error is returned and nothing changes.\<close>

theorem history_sorted:
  shows "case CoreSession_QueryKeyValues P s (kMessagesKeyPrefix @ roomTopic @ ''/'') p of
      Inl e \<Rightarrow> QueryHistory P s roomTopic m p = (Inl e, m, p)
    | Inr entries \<Rightarrow>
        (\<exists>messages m' p'. QueryHistory P s roomTopic m p =
            (Inr \<lparr>mh_room_topic = roomTopic, mh_message = messages\<rparr>, m', p')
          \<and> mset messages = mset (fst (history_scan P m roomTopic entries (world p)))
          \<and> sorted_wrt (\<lambda>a b. sint (cm_timestamp a) < sint (cm_timestamp b)
                \<or> cm_timestamp a = cm_timestamp b \<and> cm_id a \<le> cm_id b) messages)"
proof (cases "CoreSession_QueryKeyValues P s (kMessagesKeyPrefix @ roomTopic @ ''/'') p")
  case (Inl e)
  then show ?thesis by (simp add: QueryHistory_def)
next
  case (Inr entries)
  from QueryHistory_Inr [OF Inr, of m] obtain m' p' where run: "QueryHistory P s roomTopic m p =
      (Inr \<lparr>mh_room_topic = roomTopic,
            mh_message = sort_key message_key (fst (history_scan P m roomTopic entries (world p)))\<rparr>, m', p')" by blast
  have "history_order = (\<lambda>a b. sint (cm_timestamp a) < sint (cm_timestamp b)
      \<or> cm_timestamp a = cm_timestamp b \<and> cm_id a \<le> cm_id b)"
    by (intro ext) (auto simp: history_order_key message_key_def less_eq_prod_def dest: signed_word_eqI)
  then have "sorted_wrt (\<lambda>a b. sint (cm_timestamp a) < sint (cm_timestamp b)
      \<or> cm_timestamp a = cm_timestamp b \<and> cm_id a \<le> cm_id b)
      (sort_key message_key (fst (history_scan P m roomTopic entries (world p))))"
    using sorted_history [of "fst (history_scan P m roomTopic entries (world p))"] by (simp only:)
  with run Inr show ?thesis by auto
qed

text \<open>C27: where every value under the room's prefix was made by an object whose seam agrees with the reader's, the
  history is complete: it holds every archived message once, whoever wrote it.\<close>

theorem history_complete:
  fixes ssl :: "('w, 'k, 'c) openssl"
  assumes "protobuf_ok (proto P)" and "fits_int roomTopic"
    and "CoreSession_QueryKeyValues P s (kMessagesKeyPrefix @ roomTopic @ ''/'') p = Inr entries"
    and "list_all2 (\<lambda>e msg. archived_as P ssl m roomTopic (snd e) msg) entries msgs"
  shows "\<exists>h m' p'. QueryHistory P s roomTopic m p = (Inr h, m', p') \<and> mh_room_topic h = roomTopic
    \<and> mset (mh_message h) = mset (map (\<lambda>msg. msg\<lparr>cm_role := RoleFor msg (m_sender m)\<rparr>) msgs)"
  using QueryHistory_Inr [OF assms(3), of m] history_scan_archived [OF assms(1,2,4), of "world p"]
  by (auto simp: with_role_def [abs_def])

lemma ref_archived:
  assumes "valid_utf8 i"
  shows "archived_as ref_platform ref_ssl ref_carol ''gcs/chat/r1'' (ref_bytes i t) (ref_message i t)
    \<longleftrightarrow> fits_int (ref_bytes i t)"
proof -
  have "wf_message (ref_message i t)"
    using assms by (simp add: wf_message_def ref_message_def empty_message_def)
  moreover have "make_payload ref_carol x b w = (Inr b, w)" for x b w by (simp add: make_payload_def)
  moreover have "seam_agree ref_ssl m1 ref_carol \<longleftrightarrow> \<not> m_encryptionEnabled m1" for m1
    by (simp add: seam_agree_def)
  moreover have "make_payload m1 x b w = (Inr b, w)" if "\<not> m_encryptionEnabled m1" for m1 x b and w :: ref_world
    using that by (simp add: make_payload_def)
  ultimately show ?thesis
    unfolding archived_as_def ref_bytes_def
    by (auto intro!: exI [of _ ref_carol])
qed

definition ref_history_proc :: "ref_world proc" where
  "ref_history_proc = ref_proc (ref_world0\<lparr>rw_store :=
     [(BuildKey ''gcs/chat/r1'' ''n'', ref_bytes ''n'' 2), (BuildKey ''gcs/chat/r1'' ''m'', ref_bytes ''m'' 1)]\<rparr>)"

lemma ref_history_query:
  "CoreSession_QueryKeyValues ref_platform ref_session (kMessagesKeyPrefix @ ''gcs/chat/r1'' @ ''/'') ref_history_proc
     = Inr [(BuildKey ''gcs/chat/r1'' ''n'', ref_bytes ''n'' 2), (BuildKey ''gcs/chat/r1'' ''m'', ref_bytes ''m'' 1)]"
  by (simp add: CoreSession_QueryKeyValues_def GcsGlobalDb_QueryKeyValues_def)
    (simp add: ref_platform_def ref_history_proc_def ref_proc_def BuildKey_def)

lemma ref_bytes_small: "fits_int (ref_bytes ''m'' 1)" "fits_int (ref_bytes ''n'' 2)"
proof -
  have "length (ref_bytes ''m'' 1) < 100" "length (ref_bytes ''n'' 2) < 100" by code_simp+
  then show "fits_int (ref_bytes ''m'' 1)" "fits_int (ref_bytes ''n'' 2)" by (simp_all add: fits_int_def)
qed

theorem history_complete_witness:
  "\<exists>h m' p'. QueryHistory ref_platform ref_session ''gcs/chat/r1'' ref_carol ref_history_proc = (Inr h, m', p')
     \<and> size (mset (mh_message h)) = 2"
proof -
  have all: "list_all2 (\<lambda>e msg. archived_as ref_platform ref_ssl ref_carol ''gcs/chat/r1'' (snd e) msg)
      [(BuildKey ''gcs/chat/r1'' ''n'', ref_bytes ''n'' 2), (BuildKey ''gcs/chat/r1'' ''m'', ref_bytes ''m'' 1)]
      [ref_message ''n'' 2, ref_message ''m'' 1]"
    by (simp add: ref_archived ref_bytes_small)
  have fit: "fits_int ''gcs/chat/r1''" and codec: "protobuf_ok (proto ref_platform)" by (simp_all add: fits_int_def)
  from history_complete [OF codec fit ref_history_query all] obtain h m' p' where
    run: "QueryHistory ref_platform ref_session ''gcs/chat/r1'' ref_carol ref_history_proc = (Inr h, m', p')"
    and eq: "mset (mh_message h) = mset (map (\<lambda>msg. msg\<lparr>cm_role := RoleFor msg (m_sender ref_carol)\<rparr>)
      [ref_message ''n'' 2, ref_message ''m'' 1])"
    by blast
  have "size (mset (mh_message h)) = 2" unfolding eq by simp
  with run show ?thesis by blast
qed

text \<open>While the dedupe set has room, a history replay absorbs the ids it returned: a live or replicated
  delivery of one of those messages afterwards shows nothing and queues nothing.\<close>

theorem history_absorbs:
  assumes "QueryHistory P s roomTopic m p = (Inr h, m', p')"
    and "length (m_seenIds m) + length (mh_message h) \<le> kMaxSeenIds"
    and "fst (open_payload m' topic bs (world q)) = Inr plain" and "parse_message (proto P) plain = Some msg"
    and "cm_id msg \<in> cm_id ` set (mh_message h)"
  shows "fst (ApplyMessage P topic bs m' q) = m' \<and> posted (snd (ApplyMessage P topic bs m' q)) = posted q"
proof -
  from assms(1) have "m_seenIds m' = foldl (\<lambda>seen msg. seen_admit (cm_id msg) seen) (m_seenIds m) (mh_message h)"
    by (auto elim: QueryHistory_InrE)
  with seen_fold_absorbs [OF assms(2)] assms(5) have "cm_id msg \<in> set (m_seenIds m')" by auto
  with assms(3,4) have "admitted P topic bs m' q = None" by (simp add: admitted_def)
  then show ?thesis by (simp add: ApplyMessage_rejected)
qed

theorem history_absorbs_witness:
  "\<exists>h m' p'. QueryHistory ref_platform ref_session ''gcs/chat/r1'' ref_carol ref_history_proc = (Inr h, m', p')
     \<and> fst (ApplyMessage ref_platform ''gcs/chat/r1'' (ref_bytes ''m'' 1) m' p') = m'"
proof -
  have plain: "history_scan ref_platform ref_carol t
      [(k1, ref_bytes ''n'' 2), (k2, ref_bytes ''m'' 1)] w =
      (map (with_role ''0xC'') [ref_message ''n'' 2, ref_message ''m'' 1], w)" for t k1 k2 w
    by (simp add: open_payload_def with_role_def)
  obtain h m' p' where run: "QueryHistory ref_platform ref_session ''gcs/chat/r1'' ref_carol ref_history_proc = (Inr h, m', p')"
    and h: "mh_message h = sort_key message_key (map (with_role ''0xC'') [ref_message ''n'' 2, ref_message ''m'' 1])"
    using QueryHistory_Inr [OF ref_history_query, of ref_carol] unfolding plain fst_conv
    by (metis MessageHistory.select_convs(2))
  from run have "\<not> m_encryptionEnabled m'" by (auto elim: QueryHistory_InrE)
  then have "fst (open_payload m' ''gcs/chat/r1'' (ref_bytes ''m'' 1) (world p')) = Inr (ref_bytes ''m'' 1)"
    by (simp add: open_payload_def)
  moreover have "length (m_seenIds ref_carol) + length (mh_message h) \<le> kMaxSeenIds" by (simp add: h kMaxSeenIds_def)
  moreover have "cm_id (ref_message ''m'' 1) \<in> cm_id ` set (mh_message h)"
    by (simp only: h set_sort) simp
  ultimately have "fst (ApplyMessage ref_platform ''gcs/chat/r1'' (ref_bytes ''m'' 1) m' p') = m'"
    using history_absorbs [OF run, of "''gcs/chat/r1''" "ref_bytes ''m'' 1" p' "ref_bytes ''m'' 1" "ref_message ''m'' 1"]
    by simp
  with run show ?thesis by blast
qed

section \<open>Archive keys and the archive worker\<close>

text \<open>From the archive key of a message, logical or in its raw datastore form with a namespace before and a
  value or priority suffix behind, the room topic is recovered, slashes in the topic included.\<close>

theorem room_topic_roundtrip:
  assumes "raw_framing fr" and "CHR ''/'' \<notin> set ident"
    and "suf = kValueSuffix \<or> suf = kPrioritySuffix \<or> (suf = [] \<and> ident \<noteq> ''v'' \<and> ident \<noteq> ''p'')"
  shows "RoomTopicFromKey (fr @ BuildKey roomTopic ident @ suf) = Some roomTopic"
proof (cases "suf = []")
  case False
  with assms(3) have "suf = kValueSuffix \<or> suf = kPrioritySuffix" by auto
  from RoomTopicFromKey_suffixed [OF assms(1) this, of "roomTopic @ ''/'' @ ident"] topic_of_tail_segment [OF assms(2)]
  show ?thesis by (simp add: BuildKey_def)
next
  case True
  with assms(3) have ident: "ident \<noteq> ''v''" "ident \<noteq> ''p''" by (auto simp: kValueSuffix_def kPrioritySuffix_def)
  have no: "\<not> suffix (CHR ''/'' # [c]) (kMessagesKeyPrefix @ roomTopic @ ''/'' @ ident)" if "ident \<noteq> [c]" "c \<noteq> CHR ''/''" for c
  proof
    assume "suffix (CHR ''/'' # [c]) (kMessagesKeyPrefix @ roomTopic @ ''/'' @ ident)"
    then obtain xs where "(kMessagesKeyPrefix @ roomTopic) @ CHR ''/'' # ident = xs @ CHR ''/'' # [c]"
      by (auto simp: suffix_def)
    from split_last_sep [OF this assms(2)] that show False by simp
  qed
  have "RoomTopicFromKey (fr @ kMessagesKeyPrefix @ roomTopic @ ''/'' @ ident) = Some (topic_of_tail (roomTopic @ ''/'' @ ident))"
    using no [of "CHR ''v''"] no [of "CHR ''p''"] ident
    by (intro RoomTopicFromKey_bare [OF assms(1)]) (simp_all add: kValueSuffix_def kPrioritySuffix_def)
  with topic_of_tail_segment [OF assms(2)] True show ?thesis by (simp add: BuildKey_def)
qed

theorem room_topic_roundtrip_witness:
  "RoomTopicFromKey (''/ns/k/'' @ BuildKey ''gcs/chat/r1'' ''msg-1-2-0'' @ ''/v'') = Some ''gcs/chat/r1''"
  using room_topic_roundtrip [of "''/ns/k/''" "''msg-1-2-0''" "''/v''" "''gcs/chat/r1''"]
  by (simp add: raw_framing_def kMessagesKeyPrefix_def kValueSuffix_def)

text \<open>The recovery throws, and a handler with it, exactly on a key that ends right behind the prefix in the
  one letter of a value or priority suffix; such a key matches the pattern the handler is registered for.\<close>

theorem room_topic_throws:
  shows "(RoomTopicFromKey key = None \<longleftrightarrow>
      (\<exists>i. find_sub kMessagesKeyPrefix key = Some i \<and>
         (drop i key = kMessagesKeyPrefix @ ''v'' \<or> drop i key = kMessagesKeyPrefix @ ''p'')))
    \<and> OnMessageArrived P ''/gcs/messages/v'' bs m p = None"
proof
  show "RoomTopicFromKey key = None \<longleftrightarrow>
      (\<exists>i. find_sub kMessagesKeyPrefix key = Some i \<and>
         (drop i key = kMessagesKeyPrefix @ ''v'' \<or> drop i key = kMessagesKeyPrefix @ ''p''))"
    by (rule RoomTopicFromKey_throws)
  have "find_sub kMessagesKeyPrefix ''/gcs/messages/v'' = Some 1" by (simp add: kMessagesKeyPrefix_def)
  moreover have "drop 1 ''/gcs/messages/v'' = kMessagesKeyPrefix @ ''v''" by (simp add: kMessagesKeyPrefix_def)
  ultimately have "RoomTopicFromKey ''/gcs/messages/v'' = None" unfolding RoomTopicFromKey_throws by blast
  then show "OnMessageArrived P ''/gcs/messages/v'' bs m p = None" by (simp add: OnMessageArrived_def)
qed

text \<open>A stopped archive worker always returns, after writing every queued record, oldest first, with nothing
  left in the queue; one that is not stopped never returns. So destroying the component loses no
  queued record.\<close>

theorem archive_drains:
  shows "ArchiveWorker P s m p =
      (if m_archiveStopped m
       then Some (m\<lparr>m_archiveQueue := []\<rparr>,
              foldl (\<lambda>p (key, val). snd (CoreSession_Put P s key val p)) p (m_archiveQueue m))
       else None)
    \<and> Messaging_destroy P s m p = Some (m\<lparr>m_archiveStopped := True, m_archiveQueue := []\<rparr>,
        foldl (\<lambda>p (key, val). snd (CoreSession_Put P s key val p)) p (m_archiveQueue m))"
  using ArchiveWorker_drains [of m P s p] ArchiveWorker_keeps_waiting [of m P s p]
    ArchiveWorker_drains [of "m\<lparr>m_archiveStopped := True\<rparr>" P s p]
  by (simp add: write_out_def Messaging_destroy_def)

end
