(* ===== verification/Ffi.thy ===== *)
theory Ffi
  imports EntityStore Messaging
begin

text \<open>
  The C boundary (\<open>src/ffi/gcs_core_ffi.cpp\<close>, \<open>gcs_core.h\<close>): the globals, the helpers that
  register and project topics, the receive bridges, and the join and derived-join logic. The
  globals are one record. A handler is a function from that record to its status and the new
  record; what it does with the mutex released is atomic here, and the interleavings are the
  subject of \<open>FfiThreads\<close>. OpenSSL is the argument \<open>ssl\<close> of what constructs the messaging
  component, the rest of the outside is the platform record \<open>P\<close>.
\<close>

unbundle bit_operations_syntax

section \<open>Constants and state\<close>

datatype GcsStatus = GCS_OK | GCS_ERROR_GENERIC | GCS_ERROR_INVALID_ARGUMENT
  | GCS_ERROR_NOT_RUNNING | GCS_ERROR_UNSUPPORTED_CODEC

definition kCommandTopic :: string where
  "kCommandTopic = ''gcs/command''"

definition kSmokeTopicA :: string where
  "kSmokeTopicA = ''gcs/chat/smoke-test''"

definition kSmokeTopicB :: string where
  "kSmokeTopicB = ''gcs/chat/smoke-test-2''"

definition kMaxEntityNameLength :: nat where
  "kMaxEntityNameLength = 64"

definition kMaxTopicLength :: nat where
  "kMaxTopicLength = 128"

definition kRoomTopicNamespace :: string where
  "kRoomTopicNamespace = ''gcs/chat/''"

definition kMaxMessageTextLength :: nat where
  "kMaxMessageTextLength = 4096"

definition int_max :: nat where
  "int_max = 2147483647"

text \<open>The globals; \<open>g_dartPort\<close> is the port of the process. A session has its address.\<close>

record 'w ffi =
  g_session :: "(handle \<times> core_session) option"
  g_entities :: "entity_store option"
  g_messaging :: "'w messaging option"
  g_roomTopics :: "string list"
  g_derivedTopics :: "string list"
  g_explicitTopics :: "string list"
  g_sdkBootedHere :: bool
  g_exitHookRegistered :: bool
  g_apiDlInitialized :: bool
  g_inFlight :: uint32
  g_receivingDisabled :: bool
  g_tearingDown :: bool
  g_proc :: "'w proc"

text \<open>The globals as the image is loaded, in a process.\<close>

definition ffi_loaded :: "'w proc \<Rightarrow> 'w ffi" where
  "ffi_loaded p = \<lparr>g_session = None, g_entities = None, g_messaging = None, g_roomTopics = [],
     g_derivedTopics = [], g_explicitTopics = [], g_sdkBootedHere = False,
     g_exitHookRegistered = False, g_apiDlInitialized = False, g_inFlight = 0,
     g_receivingDisabled = False, g_tearingDown = False, g_proc = p\<rparr>"

text \<open>The dereferences of the code, defined where the globals are set (\<open>ffi_ok\<close>).\<close>

definition the_session :: "'w ffi \<Rightarrow> core_session" where
  "the_session s = snd (the (g_session s))"

definition the_entities :: "'w ffi \<Rightarrow> entity_store" where
  "the_entities s = the (g_entities s)"

definition the_messaging :: "'w ffi \<Rightarrow> 'w messaging" where
  "the_messaging s = the (g_messaging s)"

definition handle_matches :: "'w ffi \<Rightarrow> handle option \<Rightarrow> bool" where
  "handle_matches s session =
     (case g_session s of None \<Rightarrow> False | Some (address, _) \<Rightarrow> session = Some address)"

section \<open>Helpers\<close>

definition Utf8CodePointCount :: "string \<Rightarrow> nat" where
  "Utf8CodePointCount str =
     length (filter (\<lambda>c. (of_char c :: 8 word) AND 0xC0 \<noteq> 0x80) str)"

definition IsValidRoomTopicShape :: "string \<Rightarrow> bool" where
  "IsValidRoomTopicShape roomTopic \<longleftrightarrow>
     length roomTopic > length kRoomTopicNamespace \<and>
     take (length kRoomTopicNamespace) roomTopic = kRoomTopicNamespace \<and>
     CHR ''/'' \<notin> set (drop (length kRoomTopicNamespace) roomTopic)"

text \<open>
  \<open>std::filesystem::path::parent_path\<close> on a POSIX path: a path with no relative part is its own
  parent, otherwise the last element goes with the separators before it, and the root stays.
\<close>

definition parent_path :: "string \<Rightarrow> string" where
  "parent_path s =
     (let root = takeWhile (\<lambda>c. c = CHR ''/'') s;
          rel = dropWhile (\<lambda>c. c = CHR ''/'') s;
          dir = rev (dropWhile (\<lambda>c. c \<noteq> CHR ''/'') (rev rel))
      in if rel = [] then s else root @ rev (dropWhile (\<lambda>c. c = CHR ''/'') (rev dir)))"

definition path_append :: "string \<Rightarrow> string \<Rightarrow> string" where
  "path_append p q = (if p = [] \<or> last p = CHR ''/'' then p @ q else p @ ''/'' @ q)"

definition SessionBasePath :: "'w platform \<Rightarrow> GcsConfig \<Rightarrow> 'w \<Rightarrow> string" where
  "SessionBasePath P config w =
     (if cfg_db_path config = [] then path_append (temp_directory_path P w) ''gcs''
      else let basePath = parent_path (cfg_db_path config)
           in if basePath = [] then ''.'' else basePath)"

definition single_quote :: string where
  "single_quote = [CHR 0x27]"

definition in_quotes :: "string \<Rightarrow> string \<Rightarrow> string" where
  "in_quotes before x = before @ single_quote @ x @ single_quote"

definition Post :: "'w platform \<Rightarrow> GcsEvent \<Rightarrow> 'w ffi \<Rightarrow> 'w ffi" where
  "Post P e s = s\<lparr>g_proc := PostToDart P e (g_proc s)\<rparr>"

definition Notice :: "'w platform \<Rightarrow> string \<Rightarrow> 'w ffi \<Rightarrow> 'w ffi" where
  "Notice P message s = s\<lparr>g_proc := PostErrorNotice P message (g_proc s)\<rparr>"

definition BuildRoomListEvent :: "'w ffi \<Rightarrow> GcsEvent" where
  "BuildRoomListEvent s = Ev_room_list (g_roomTopics s)"

definition BuildSpaceTreeEvent :: "'w ffi \<Rightarrow> GcsEvent" where
  "BuildSpaceTreeEvent s =
     Ev_space_tree (EntityStore_Spaces (the_entities s)) (EntityStore_Rooms (the_entities s))"

definition PushMessageHistory :: "'w platform \<Rightarrow> string \<Rightarrow> 'w ffi \<Rightarrow> 'w ffi" where
  "PushMessageHistory P roomTopic s =
     (case QueryHistory P (the_session s) roomTopic (the_messaging s) (g_proc s) of
        (Inl _, m, p) \<Rightarrow> s\<lparr>g_messaging := Some m, g_proc := p\<rparr>
      | (Inr history, m, p) \<Rightarrow>
          Post P (Ev_message_history history) (s\<lparr>g_messaging := Some m, g_proc := p\<rparr>))"

definition SubscribeLive :: "'w platform \<Rightarrow> string \<Rightarrow> 'w ffi \<Rightarrow> bool \<times> 'w ffi" where
  "SubscribeLive P roomTopic s =
     (let s1 = s\<lparr>g_inFlight := g_inFlight s + 1\<rparr>;
          (r, p) = CoreSession_Subscribe P (the_session s1) roomTopic (g_proc s1);
          liveOk = has_value r;
          s2 = s1\<lparr>g_proc := p\<rparr>;
          s3 = s2\<lparr>g_inFlight := g_inFlight s2 - 1\<rparr>
      in (liveOk,
          if \<not> liveOk then Notice P (in_quotes ''live subscribe failed for room '' roomTopic) s3
          else s3))"

text \<open>Listen first, then broadcast; the second call is made only when the first succeeds.\<close>

definition register_topic :: "'w platform \<Rightarrow> core_session \<Rightarrow> string \<Rightarrow> 'w proc \<Rightarrow> bool \<times> 'w proc" where
  "register_topic P cs topic p =
     (case CoreSession_AddListenTopic P cs topic p of
        (Inl _, p1) \<Rightarrow> (False, p1)
      | (Inr _, p1) \<Rightarrow>
          (case CoreSession_AddBroadcastTopic P cs topic p1 of (r, p2) \<Rightarrow> (has_value r, p2)))"

section \<open>Derived joins\<close>

text \<open>One turn of the first loop: a newly derived topic registers, joins, replays and subscribes.\<close>

definition refresh_join :: "'w platform \<Rightarrow> string \<Rightarrow> 'w ffi \<Rightarrow> 'w ffi" where
  "refresh_join P topic s =
     (if topic \<in> set (g_derivedTopics s) then s
      else case register_topic P (the_session s) topic (g_proc s) of
             (False, p) \<Rightarrow> s\<lparr>g_proc := p\<rparr>
           | (True, p) \<Rightarrow>
               let s1 = s\<lparr>g_proc := p, g_derivedTopics := g_derivedTopics s @ [topic]\<rparr>;
                   s2 = (if topic \<in> set (g_roomTopics s1) then s1
                         else s1\<lparr>g_roomTopics := g_roomTopics s1 @ [topic]\<rparr>);
                   s3 = PushMessageHistory P topic s2
               in snd (SubscribeLive P topic s3))"

text \<open>The second loop: what is no longer derived leaves, unless it was joined explicitly.\<close>

definition refresh_evict :: "string list \<Rightarrow> 'w ffi \<Rightarrow> 'w ffi" where
  "refresh_evict derived s =
     s\<lparr>g_roomTopics := foldl (\<lambda>rooms topic.
          if topic \<in> set derived then rooms
          else if topic \<notin> set (g_explicitTopics s) then filter (\<lambda>t. t \<noteq> topic) rooms else rooms)
          (g_roomTopics s) (g_derivedTopics s),
       g_derivedTopics := filter (\<lambda>topic. topic \<in> set derived) (g_derivedTopics s)\<rparr>"

definition RefreshDerivedJoins :: "'w platform \<Rightarrow> 'w ffi \<Rightarrow> 'w ffi" where
  "RefreshDerivedJoins P s =
     (let derived = EntityStore_DerivedJoinedTopics (the_entities s)
      in refresh_evict derived (foldl (\<lambda>s topic. refresh_join P topic s) s derived))"

section \<open>Receive bridges\<close>

text \<open>The callback of the live subscription.\<close>

definition live_bridge :: "'w platform \<Rightarrow> string \<Rightarrow> bytes \<Rightarrow> 'w ffi \<Rightarrow> 'w ffi" where
  "live_bridge P topic data s =
     (if g_receivingDisabled s then s
      else case g_messaging s of
             None \<Rightarrow> s
           | Some m \<Rightarrow>
               let s1 = s\<lparr>g_inFlight := g_inFlight s + 1\<rparr>;
                   (m', p') = OnLiveMessage P topic data m (g_proc s1);
                   s2 = s1\<lparr>g_messaging := Some m', g_proc := p'\<rparr>
               in s2\<lparr>g_inFlight := g_inFlight s2 - 1\<rparr>)"

text \<open>
  The callback on a new CRDT element. The flag says that it returned; an exception of the handler
  leaves it with the count already taken and not given back.
\<close>

definition heal_bridge :: "'w platform \<Rightarrow> string \<Rightarrow> bytes \<Rightarrow> 'w ffi \<Rightarrow> bool \<times> 'w ffi" where
  "heal_bridge P key val s =
     (if g_receivingDisabled s then (True, s)
      else case g_messaging s of
             None \<Rightarrow> (True, s)
           | Some m \<Rightarrow>
               let s1 = s\<lparr>g_inFlight := g_inFlight s + 1\<rparr>
               in case OnMessageArrived P key val m (g_proc s1) of
                    None \<Rightarrow> (False, s1)
                  | Some (m', p') \<Rightarrow>
                      let s2 = s1\<lparr>g_messaging := Some m', g_proc := p'\<rparr>
                      in (True, s2\<lparr>g_inFlight := g_inFlight s2 - 1\<rparr>))"

end
