(* ===== verification/FfiCommands.thy ===== *)
theory FfiCommands
  imports Ffi
begin

text \<open>
  The commands: \<open>gcs_publish\<close> with its five arms, and \<open>gcs_subscribe\<close>
  (\<open>src/ffi/gcs_core_ffi.cpp\<close>). A null pointer argument is \<open>None\<close>; a buffer's length is the
  length of the list.
\<close>

section \<open>The arms of the command switch\<close>

definition publish_join :: "'w platform \<Rightarrow> string \<Rightarrow> 'w ffi \<Rightarrow> GcsStatus \<times> 'w ffi" where
  "publish_join P roomTopic s =
     (if roomTopic = [] then
        (GCS_ERROR_INVALID_ARGUMENT, Notice P ''join_topic rejected: room_topic is empty'' s)
      else if length roomTopic > kMaxTopicLength then
        (GCS_ERROR_INVALID_ARGUMENT,
         Notice P ''join_topic rejected: room_topic exceeds maximum length'' s)
      else if \<not> IsValidRoomTopicShape roomTopic then
        (GCS_ERROR_INVALID_ARGUMENT,
         Notice P (in_quotes ''join_topic rejected: room_topic must be '' ''gcs/chat/<id>'' @
           '' with no additional '' @ in_quotes [] ''/'') s)
      else case register_topic P (the_session s) roomTopic (g_proc s) of
        (False, p) \<Rightarrow>
          (GCS_ERROR_GENERIC,
           Notice P (in_quotes ''join_topic failed for room '' roomTopic) (s\<lparr>g_proc := p\<rparr>))
      | (True, p) \<Rightarrow>
          let s1 = s\<lparr>g_proc := p\<rparr>;
              alreadyJoined = (roomTopic \<in> set (g_roomTopics s1));
              s2 = (if alreadyJoined then s1 else s1\<lparr>g_roomTopics := g_roomTopics s1 @ [roomTopic]\<rparr>);
              s3 = (if roomTopic \<in> set (g_explicitTopics s2) then s2
                    else s2\<lparr>g_explicitTopics := g_explicitTopics s2 @ [roomTopic]\<rparr>);
              s4 = Post P (BuildRoomListEvent s3) s3;
              s5 = PushMessageHistory P roomTopic s4
          in if alreadyJoined then (GCS_OK, s5)
             else case SubscribeLive P roomTopic s5 of
                    (liveOk, s6) \<Rightarrow> (if \<not> liveOk then GCS_ERROR_GENERIC else GCS_OK, s6))"

definition publish_send :: "'w platform \<Rightarrow> string \<Rightarrow> string \<Rightarrow> 'w ffi \<Rightarrow> GcsStatus \<times> 'w ffi" where
  "publish_send P roomTopic body s =
     (if roomTopic = [] then
        (GCS_ERROR_INVALID_ARGUMENT, Notice P ''send_text rejected: room_topic is empty'' s)
      else if length roomTopic > kMaxTopicLength then
        (GCS_ERROR_INVALID_ARGUMENT,
         Notice P ''send_text rejected: room_topic exceeds maximum length'' s)
      else if \<not> IsValidRoomTopicShape roomTopic then
        (GCS_ERROR_INVALID_ARGUMENT,
         Notice P (in_quotes ''send_text rejected: room_topic must be '' ''gcs/chat/<id>'' @
           '' with no additional '' @ in_quotes [] ''/'') s)
      else if roomTopic \<notin> set (g_roomTopics s) then
        (GCS_ERROR_INVALID_ARGUMENT,
         Notice P (in_quotes ''send_text rejected: room '' roomTopic @ '' is not joined'') s)
      else if length body > kMaxMessageTextLength then
        (GCS_ERROR_INVALID_ARGUMENT,
         Notice P ''send_text rejected: text exceeds maximum length'' s)
      else
        let s1 = s\<lparr>g_inFlight := g_inFlight s + 1\<rparr>;
            (r, m, p) = Messaging_SendMessage P (the_session s1) roomTopic body (the_messaging s1) (g_proc s1);
            s2 = s1\<lparr>g_messaging := Some m, g_proc := p\<rparr>;
            s3 = s2\<lparr>g_inFlight := g_inFlight s2 - 1\<rparr>
        in if \<not> has_value r
           then (GCS_ERROR_GENERIC, Notice P (in_quotes ''send_text failed for room '' roomTopic) s3)
           else (GCS_OK, s3))"

definition publish_create_space ::
  "'w platform \<Rightarrow> string \<Rightarrow> bool \<Rightarrow> bool \<Rightarrow> 'w ffi \<Rightarrow> GcsStatus \<times> 'w ffi" where
  "publish_create_space P name is_public auto_join_rooms s =
     (if name = [] then
        (GCS_ERROR_INVALID_ARGUMENT, Notice P ''create_space rejected: name is empty'' s)
      else if Utf8CodePointCount name > kMaxEntityNameLength then
        (GCS_ERROR_INVALID_ARGUMENT,
         Notice P ''create_space rejected: name exceeds maximum length'' s)
      else case EntityStore_CreateSpace P (the_session s) name is_public auto_join_rooms
                  (the_entities s) (g_proc s) of
        (r, es, p) \<Rightarrow>
          let s1 = s\<lparr>g_entities := Some es, g_proc := p\<rparr>
          in if \<not> has_value r
             then (GCS_ERROR_GENERIC, Notice P (in_quotes ''create_space store write failed for '' name) s1)
             else (GCS_OK, Post P (BuildSpaceTreeEvent s1) s1))"

text \<open>What both arms that can change the derived set do at the end.\<close>

definition refresh_and_post :: "'w platform \<Rightarrow> 'w ffi \<Rightarrow> 'w ffi" where
  "refresh_and_post P s =
     (let s1 = RefreshDerivedJoins P s;
          s2 = Post P (BuildSpaceTreeEvent s1) s1
      in Post P (BuildRoomListEvent s2) s2)"

definition publish_create_room ::
  "'w platform \<Rightarrow> string \<Rightarrow> string \<Rightarrow> 'w ffi \<Rightarrow> GcsStatus \<times> 'w ffi" where
  "publish_create_room P name parent_space_id s =
     (if name = [] then
        (GCS_ERROR_INVALID_ARGUMENT, Notice P ''create_room rejected: name is empty'' s)
      else if Utf8CodePointCount name > kMaxEntityNameLength then
        (GCS_ERROR_INVALID_ARGUMENT,
         Notice P ''create_room rejected: name exceeds maximum length'' s)
      else if parent_space_id \<noteq> [] \<and> \<not> EntityStore_IsValidParentSpace (the_entities s) parent_space_id then
        (GCS_ERROR_INVALID_ARGUMENT,
         Notice P (in_quotes ''create_room rejected: parent space '' parent_space_id @ '' not found'') s)
      else case EntityStore_CreateRoom P (the_session s) name parent_space_id
                  (the_entities s) (g_proc s) of
        (r, es, p) \<Rightarrow>
          let s1 = s\<lparr>g_entities := Some es, g_proc := p\<rparr>
          in if \<not> has_value r
             then (GCS_ERROR_GENERIC, Notice P (in_quotes ''create_room store write failed for '' name) s1)
             else (GCS_OK, refresh_and_post P s1))"

definition publish_update_space ::
  "'w platform \<Rightarrow> string \<Rightarrow> string \<Rightarrow> bool \<Rightarrow> bool \<Rightarrow> 'w ffi \<Rightarrow> GcsStatus \<times> 'w ffi" where
  "publish_update_space P space_id name is_public auto_join_rooms s =
     (if space_id = [] \<or> name = [] then
        (GCS_ERROR_INVALID_ARGUMENT,
         Notice P ''update_space rejected: space_id and name must be non-empty'' s)
      else if Utf8CodePointCount name > kMaxEntityNameLength then
        (GCS_ERROR_INVALID_ARGUMENT,
         Notice P ''update_space rejected: name exceeds maximum length'' s)
      else
        let desired = empty_space\<lparr>sp_id := space_id, sp_name := name, sp_is_public := is_public,
                        sp_auto_join_rooms := auto_join_rooms\<rparr>
        in case EntityStore_UpdateSpace P (the_session s) desired (the_entities s) (g_proc s) of
             (r, es, p) \<Rightarrow>
               let s1 = s\<lparr>g_entities := Some es, g_proc := p\<rparr>
               in if \<not> has_value r
                  then (GCS_ERROR_GENERIC, Notice P (in_quotes ''update_space failed for '' space_id) s1)
                  else (GCS_OK, refresh_and_post P s1))"

definition publish_not_set :: "'w platform \<Rightarrow> 'w ffi \<Rightarrow> GcsStatus \<times> 'w ffi" where
  "publish_not_set P s = (GCS_ERROR_INVALID_ARGUMENT, Notice P ''GcsCommand payload not set'' s)"

section \<open>The two handlers\<close>

fun dispatch_command :: "'w platform \<Rightarrow> GcsCommand \<Rightarrow> 'w ffi \<Rightarrow> GcsStatus \<times> 'w ffi" where
  "dispatch_command P (JoinTopic roomTopic) s = publish_join P roomTopic s"
| "dispatch_command P (SendText roomTopic body) s = publish_send P roomTopic body s"
| "dispatch_command P (CreateSpace name pub auto) s = publish_create_space P name pub auto s"
| "dispatch_command P (CreateRoom name parent) s = publish_create_room P name parent s"
| "dispatch_command P (UpdateSpace ident name pub auto) s = publish_update_space P ident name pub auto s"
| "dispatch_command P PAYLOAD_NOT_SET s = publish_not_set P s"

definition gcs_publish ::
  "'w platform \<Rightarrow> handle option \<Rightarrow> string option \<Rightarrow> bytes option \<Rightarrow> 'w ffi \<Rightarrow> GcsStatus \<times> 'w ffi" where
  "gcs_publish P session topic payloadBytes s =
     (if \<not> handle_matches s session \<or> topic = None \<or> payloadBytes = None \<or> payloadBytes = Some []
      then (GCS_ERROR_INVALID_ARGUMENT, s)
      else if length (the payloadBytes) > int_max then (GCS_ERROR_INVALID_ARGUMENT, s)
      else if \<not> CoreSession_IsRunning (the_session s) then (GCS_ERROR_NOT_RUNNING, s)
      else if the topic \<noteq> kCommandTopic then (GCS_ERROR_INVALID_ARGUMENT, s)
      else case parse_command (proto P) (the payloadBytes) of
             None \<Rightarrow> (GCS_ERROR_INVALID_ARGUMENT, Notice P ''GcsCommand parse failed'' s)
           | Some command \<Rightarrow> dispatch_command P command s)"

definition gcs_subscribe ::
  "'w platform \<Rightarrow> handle option \<Rightarrow> string option \<Rightarrow> int64 \<Rightarrow> 'w ffi \<Rightarrow> GcsStatus \<times> 'w ffi" where
  "gcs_subscribe P session topic dartPort s =
     (if \<not> handle_matches s session \<or> topic = None \<or> dartPort = 0
      then (GCS_ERROR_INVALID_ARGUMENT, s)
      else if \<not> CoreSession_IsRunning (the_session s) then (GCS_ERROR_NOT_RUNNING, s)
      else let s1 = s\<lparr>g_proc := (g_proc s)\<lparr>dart_port := dartPort\<rparr>\<rparr>;
               s2 = Post P (BuildSpaceTreeEvent s1) s1;
               s3 = Post P (BuildRoomListEvent s2) s2
           in (GCS_OK, Post P (Ev_readiness True) s3))"

end
