(* ===== verification/FfiLifecycle.thy ===== *)
theory FfiLifecycle
  imports FfiCommands
begin

text \<open>
  Start and end of a session at the C boundary (\<open>src/ffi/gcs_core_ffi.cpp\<close>): booting the embedded
  node, \<open>gcs_init\<close>, the shared teardown body, \<open>gcs_shutdown\<close> and the process-exit hook.
\<close>

section \<open>Boot\<close>

definition double_quoted :: "string \<Rightarrow> string" where
  "double_quoted x = CHR 0x22 # x @ [CHR 0x22]"

definition config_line :: "string \<Rightarrow> string \<Rightarrow> string" where
  "config_line key val = ''       '' @ double_quoted key @ '': '' @ double_quoted val"

definition kDevConfig :: string where
  "kDevConfig =
     [CHR 0x0A] @ ''     {'' @ [CHR 0x0A] @
     config_line ''Address'' ''0x0000000000000000000000000000000000000001'' @ '','' @ [CHR 0x0A] @
     config_line ''Cut'' ''100'' @ '','' @ [CHR 0x0A] @
     config_line ''TokenValue'' ''1000'' @ '','' @ [CHR 0x0A] @
     config_line ''TokenID''
       ''0x0000000000000000000000000000000000000000000000000000000000000001'' @ [CHR 0x0A] @
     ''     }'' @ [CHR 0x0A] @ ''    ''"

definition EnsureSdkBooted :: "'w platform \<Rightarrow> GcsConfig \<Rightarrow> 'w ffi \<Rightarrow> bool \<times> 'w ffi" where
  "EnsureSdkBooted P config s =
     (let w = world (g_proc s) in
      if sdk_get_node P w \<noteq> None then (True, s)
      else let basePath = SessionBasePath P config w;
               w1 = create_directories P basePath w;
               (booted, w2) = (if cfg_mnemonic config = [] then sdk_init P basePath kDevConfig w1
                               else sdk_init_with_mnemonic P basePath kDevConfig (cfg_mnemonic config) w1);
               s1 = s\<lparr>g_proc := (g_proc s)\<lparr>world := w2\<rparr>\<rparr>
           in if \<not> booted then (False, s1)
              else let s2 = s1\<lparr>g_sdkBootedHere := True\<rparr>
                   in if g_exitHookRegistered s2 then (True, s2)
                      else case register_atexit P w2 of
                             (ok, w3) \<Rightarrow>
                               (True, s2\<lparr>g_exitHookRegistered := ok, g_proc := (g_proc s2)\<lparr>world := w3\<rparr>\<rparr>))"

text \<open>\<open>GeniusSDKShutdown\<close>, called where the code pairs a boot of its own.\<close>

definition shutdown_sdk :: "'w platform \<Rightarrow> 'w proc \<Rightarrow> 'w proc" where
  "shutdown_sdk P p = p\<lparr>world := sdk_shutdown P (world p)\<rparr>"

section \<open>gcs_init\<close>

text \<open>The loop over the smoke topics: what joined both ways, in order.\<close>

fun join_smoke :: "'w platform \<Rightarrow> core_session \<Rightarrow> string list \<Rightarrow> 'w proc \<Rightarrow> string list \<times> 'w proc" where
  "join_smoke P cs [] p = ([], p)"
| "join_smoke P cs (topic # topics) p =
     (case register_topic P cs topic p of
        (ok, p1) \<Rightarrow>
          (case join_smoke P cs topics p1 of
             (joined, p2) \<Rightarrow> (if ok then topic # joined else joined, p2)))"

text \<open>The messaging component as \<open>gcs_init\<close> wires it.\<close>

definition production_messaging ::
  "'w platform \<Rightarrow> ('w, 'k, 'c) openssl \<Rightarrow> 'w \<Rightarrow> 'w messaging" where
  "production_messaging P ssl w =
     Messaging_new (sdk_address P w) (PostToDart P)
       \<lparr>seam_encrypt = Some (EncryptPayload ssl), seam_decrypt = Some (DecryptPayload ssl),
        seam_enabled = True\<rparr>"

text \<open>From the moment the session is stored: receive gate, messaging, heal bridge, catalog, joins.\<close>

definition init_components ::
  "'w platform \<Rightarrow> ('w, 'k, 'c) openssl \<Rightarrow> handle \<Rightarrow> core_session \<Rightarrow> 'w ffi \<Rightarrow> 'w ffi" where
  "init_components P ssl address cs s =
     (let s1 = s\<lparr>g_session := Some (address, cs), g_receivingDisabled := False,
                 g_messaging := Some (production_messaging P ssl (world (g_proc s)))\<rparr>;
          (_, p2) = CoreSession_RegisterNewElementCallback P cs kMessagesKeyCallbackPattern (g_proc s1);
          s2 = s1\<lparr>g_proc := p2\<rparr>;
          (_, es) = EntityStore_LoadFromStore P cs EntityStore_new (g_proc s2)
      in RefreshDerivedJoins P (s2\<lparr>g_entities := Some es\<rparr>))"

definition init_session ::
  "'w platform \<Rightarrow> ('w, 'k, 'c) openssl \<Rightarrow> GcsConfig \<Rightarrow> 'w ffi \<Rightarrow> handle option \<times> 'w ffi" where
  "init_session P ssl config s =
     (let (address, w1) = new_address P (world (g_proc s));
          (r, cs, p2) = CoreSession_Initialize P (CoreSession_new (cfg_db_path config))
                          ((g_proc s)\<lparr>world := w1\<rparr>)
      in if \<not> has_value r then
           (let (cs1, p3) = CoreSession_Shutdown P cs p2;
                p4 = (if g_sdkBootedHere s then shutdown_sdk P p3 else p3)
            in (None, s\<lparr>g_sdkBootedHere := False, g_proc := CoreSession_destroy P cs1 p4\<rparr>))
         else
           (let (joined, p3) = join_smoke P cs [kSmokeTopicA, kSmokeTopicB] p2;
                s1 = s\<lparr>g_roomTopics := g_roomTopics s @ joined, g_proc := p3\<rparr>
            in if joined = [] then
                 (let (cs1, p4) = CoreSession_Shutdown P cs p3
                  in (None, s1\<lparr>g_proc := CoreSession_destroy P cs1 p4\<rparr>))
               else (Some address, init_components P ssl address cs s1)))"

definition gcs_init ::
  "'w platform \<Rightarrow> ('w, 'k, 'c) openssl \<Rightarrow> bytes option \<Rightarrow> 'w ffi \<Rightarrow> handle option \<times> 'w ffi" where
  "gcs_init P ssl configBytes s =
     (if g_tearingDown s then (None, s)
      else let s1 = s\<lparr>g_apiDlInitialized := True\<rparr>
      in case g_session s1 of
           Some (address, _) \<Rightarrow> (Some address, s1)
         | None \<Rightarrow>
             if configBytes = None \<or> configBytes = Some [] then (None, s1)
             else if length (the configBytes) > int_max then (None, s1)
             else case parse_config (proto P) (the configBytes) of
               None \<Rightarrow> (None, s1)
             | Some config \<Rightarrow>
                 if cfg_codec config \<noteq> CODEC_PROTOBUF then (None, s1)
                 else case EnsureSdkBooted P config s1 of
                        (False, s2) \<Rightarrow> (None, s2)
                      | (True, s2) \<Rightarrow> init_session P ssl config s2)"

section \<open>Teardown\<close>

text \<open>
  The exit hook's bounded acquisition: the outcome of every \<open>try_lock\<close> and the steady clock after
  it, attempt by attempt. The result also names the attempt that decided.
\<close>

partial_function (option) exit_lock_loop ::
  "(nat \<Rightarrow> bool) \<Rightarrow> (nat \<Rightarrow> int) \<Rightarrow> int \<Rightarrow> nat \<Rightarrow> (bool \<times> nat) option" where
  "exit_lock_loop try_lock now deadline i =
     (if try_lock i then Some (True, i)
      else if now i \<ge> deadline then Some (False, i)
      else exit_lock_loop try_lock now deadline (Suc i))"

definition kExitTeardownDrainTimeout_ms :: int where
  "kExitTeardownDrainTimeout_ms = 2000"

definition kExitLockRetryInterval_ms :: int where
  "kExitLockRetryInterval_ms = 10"

definition TryAcquireExitLockBounded ::
  "(nat \<Rightarrow> bool) \<Rightarrow> int \<Rightarrow> (nat \<Rightarrow> int) \<Rightarrow> (bool \<times> nat) option" where
  "TryAcquireExitLockBounded try_lock start now =
     exit_lock_loop try_lock now (start + kExitTeardownDrainTimeout_ms) 0"

text \<open>
  The unlocked phase on the evicted objects: the node first when this library booted it, then the
  messaging component, whose destructor drains the archive into the still running store, then the
  session. The archive worker always returns once stopped (\<open>ArchiveWorker_drains\<close>).
\<close>

definition destroy_evicted ::
  "'w platform \<Rightarrow> bool \<Rightarrow> (core_session \<times> 'w messaging) option \<Rightarrow> 'w proc \<Rightarrow> 'w proc" where
  "destroy_evicted P sdkBootedHere evicted p =
     (let p1 = (if sdkBootedHere then shutdown_sdk P p else p)
      in case evicted of
           None \<Rightarrow> p1
         | Some (cs, m) \<Rightarrow>
             let p2 = snd (the (Messaging_destroy P cs m p1));
                 (cs3, p3) = CoreSession_Shutdown P cs p2
             in CoreSession_destroy P cs3 p3)"

text \<open>Eviction under the lock: the pairing flag, and with a session every guarded global.\<close>

definition evict_globals :: "'w ffi \<Rightarrow> bool \<times> (core_session \<times> 'w messaging) option \<times> 'w ffi" where
  "evict_globals s =
     (let sdkBootedHere = g_sdkBootedHere s; s1 = s\<lparr>g_sdkBootedHere := False\<rparr>
      in case g_session s1 of
           None \<Rightarrow> (sdkBootedHere, None, s1)
         | Some (_, cs) \<Rightarrow>
             (sdkBootedHere, Some (cs, the_messaging s1),
              s1\<lparr>g_proc := (g_proc s1)\<lparr>dart_port := 0\<rparr>, g_session := None, g_entities := None,
                 g_messaging := None, g_roomTopics := [], g_derivedTopics := [], g_explicitTopics := []\<rparr>))"

text \<open>With the caller's lock (\<open>gcs_shutdown\<close>) and without it, once the exit hook holds its own.\<close>

definition TeardownSessionAndNode :: "'w platform \<Rightarrow> bool \<Rightarrow> bool \<Rightarrow> 'w ffi \<Rightarrow> 'w ffi" where
  "TeardownSessionAndNode P with_lock exit_acquired s =
     (let s1 = s\<lparr>g_receivingDisabled := True, g_tearingDown := True\<rparr>
      in if \<not> with_lock \<and> \<not> exit_acquired then s1
         else case evict_globals s1 of
                (sdkBootedHere, evicted, s2) \<Rightarrow>
                  let s3 = s2\<lparr>g_proc := destroy_evicted P sdkBootedHere evicted (g_proc s2)\<rparr>
                  in if with_lock then s3\<lparr>g_tearingDown := False\<rparr> else s3)"

text \<open>
  \<open>gcs_shutdown\<close>; \<open>None\<close> means that it waits for operations in flight, which no step of its own ends.
\<close>

definition gcs_shutdown :: "'w platform \<Rightarrow> handle option \<Rightarrow> 'w ffi \<Rightarrow> 'w ffi option" where
  "gcs_shutdown P session s =
     (if \<not> handle_matches s session then Some s
      else let s1 = s\<lparr>g_receivingDisabled := True\<rparr>
           in if g_inFlight s1 \<noteq> 0 then None
              else Some (TeardownSessionAndNode P True False s1))"

definition exit_hook :: "'w platform \<Rightarrow> (nat \<Rightarrow> bool) \<Rightarrow> int \<Rightarrow> (nat \<Rightarrow> int) \<Rightarrow> 'w ffi \<Rightarrow> 'w ffi option" where
  "exit_hook P try_lock start now s =
     (case TryAcquireExitLockBounded try_lock start now of
        None \<Rightarrow> None
      | Some (acquired, _) \<Rightarrow> Some (TeardownSessionAndNode P False acquired s))"

end
