(* ===== verification/FfiInv.thy ===== *)
theory FfiInv
  imports FfiLifecycle
begin

text \<open>
  The invariant of the globals at the C boundary, with the step relation over everything that can
  run between two calls (\<open>src/ffi/gcs_core_ffi.cpp\<close>): the handlers, both receive bridges, the
  archive worker, the exit hook, and changes of the outside world by remote peers.
\<close>

lemmas ffi_defs = Post_def Notice_def the_session_def the_entities_def the_messaging_def

section \<open>The invariant\<close>

definition topics_ok :: "'w ffi \<Rightarrow> bool" where
  "topics_ok s \<longleftrightarrow> distinct (g_roomTopics s) \<and> distinct (g_derivedTopics s) \<and> distinct (g_explicitTopics s)
     \<and> set (g_derivedTopics s) \<subseteq> set (g_roomTopics s) \<and> set (g_explicitTopics s) \<subseteq> set (g_roomTopics s)"

definition messaging_wired :: "'w platform \<Rightarrow> ('w, 'k, 'c) openssl \<Rightarrow> 'w messaging \<Rightarrow> bool" where
  "messaging_wired P ssl m \<longleftrightarrow> m_sink m = PostToDart P \<and> m_encryptionEnabled m \<and>
     seam_encrypt (m_crypto m) = Some (EncryptPayload ssl) \<and>
     seam_decrypt (m_crypto m) = Some (DecryptPayload ssl) \<and> messaging_ok m"

definition components_ok ::
  "'w platform \<Rightarrow> ('w, 'k, 'c) openssl \<Rightarrow> core_session \<Rightarrow> entity_store option \<Rightarrow> 'w messaging option \<Rightarrow> bool" where
  "components_ok P ssl cs es m \<longleftrightarrow> gdb_ok (cs_db cs) \<and> CoreSession_IsRunning cs \<and>
     (\<exists>e. es = Some e \<and> es_ok e) \<and> (\<exists>x. m = Some x \<and> messaging_wired P ssl x)"

definition ffi_ok :: "'w platform \<Rightarrow> ('w, 'k, 'c) openssl \<Rightarrow> 'w ffi \<Rightarrow> bool" where
  "ffi_ok P ssl s \<longleftrightarrow> topics_ok s \<and>
     (case g_session s of
        None \<Rightarrow> g_entities s = None \<and> g_messaging s = None \<and> g_roomTopics s = []
      | Some (_, cs) \<Rightarrow> components_ok P ssl cs (g_entities s) (g_messaging s))"

lemma ffi_okE:
  assumes "ffi_ok P ssl s" and "g_session s = Some (a, cs)"
  obtains es m where "g_entities s = Some es" "es_ok es" "g_messaging s = Some m"
    "messaging_wired P ssl m" "gdb_ok (cs_db cs)" "CoreSession_IsRunning cs" "topics_ok s"
  using assms by (auto simp: ffi_ok_def components_ok_def)

lemma ffi_okI:
  assumes "g_session s = Some (a, cs)" and "topics_ok s" and "gdb_ok (cs_db cs)"
    and "CoreSession_IsRunning cs" and "g_entities s = Some es" and "es_ok es"
    and "g_messaging s = Some m" and "messaging_wired P ssl m"
  shows "ffi_ok P ssl s"
  using assms by (simp add: ffi_ok_def components_ok_def)

lemma ffi_ok_no_session:
  "ffi_ok P ssl s \<Longrightarrow> g_session s = None \<Longrightarrow> g_roomTopics s = [] \<and> g_derivedTopics s = [] \<and>
     g_explicitTopics s = [] \<and> g_entities s = None \<and> g_messaging s = None"
  by (auto simp: ffi_ok_def topics_ok_def)

text \<open>Changing the process or a flag keeps it.\<close>

lemma ffi_ok_frame [simp]:
  "ffi_ok P ssl (s\<lparr>g_proc := p\<rparr>) = ffi_ok P ssl s"
  "ffi_ok P ssl (s\<lparr>g_inFlight := n\<rparr>) = ffi_ok P ssl s"
  "ffi_ok P ssl (s\<lparr>g_receivingDisabled := b\<rparr>) = ffi_ok P ssl s"
  "ffi_ok P ssl (s\<lparr>g_tearingDown := b\<rparr>) = ffi_ok P ssl s"
  "ffi_ok P ssl (s\<lparr>g_sdkBootedHere := b\<rparr>) = ffi_ok P ssl s"
  "ffi_ok P ssl (s\<lparr>g_exitHookRegistered := b\<rparr>) = ffi_ok P ssl s"
  "ffi_ok P ssl (s\<lparr>g_apiDlInitialized := b\<rparr>) = ffi_ok P ssl s"
  by (simp_all add: ffi_ok_def topics_ok_def split: option.split)

lemma ffi_ok_Post [simp]: "ffi_ok P ssl (Post P' e s) = ffi_ok P ssl s"
  and ffi_ok_Notice [simp]: "ffi_ok P ssl (Notice P' n s) = ffi_ok P ssl s"
  by (simp_all add: Post_def Notice_def)

text \<open>Replacing one component by a well-formed one keeps it.\<close>

lemma ffi_ok_messaging:
  "ffi_ok P ssl s \<Longrightarrow> g_messaging s = Some m \<Longrightarrow> messaging_wired P ssl m' \<Longrightarrow>
   ffi_ok P ssl (s\<lparr>g_messaging := Some m'\<rparr>)"
  by (auto simp: ffi_ok_def topics_ok_def components_ok_def split: option.splits)

lemma ffi_ok_entities:
  "ffi_ok P ssl s \<Longrightarrow> g_entities s = Some es \<Longrightarrow> es_ok es' \<Longrightarrow>
   ffi_ok P ssl (s\<lparr>g_entities := Some es'\<rparr>)"
  by (auto simp: ffi_ok_def topics_ok_def components_ok_def split: option.splits)

lemma ffi_ok_topics:
  "ffi_ok P ssl s \<Longrightarrow> g_session s \<noteq> None \<Longrightarrow> t = s\<lparr>g_roomTopics := r, g_derivedTopics := d, g_explicitTopics := e\<rparr> \<Longrightarrow>
   topics_ok t \<Longrightarrow> ffi_ok P ssl t"
  by (auto simp: ffi_ok_def components_ok_def split: option.splits)

section \<open>The components' operations keep it\<close>

lemma wired_Apply: "messaging_wired P ssl m \<Longrightarrow> messaging_wired P ssl (fst (ApplyMessage P' t b m p))"
  by (simp add: messaging_wired_def ApplyMessage_config ApplyMessage_ok)

lemma wired_Send: "messaging_wired P ssl m \<Longrightarrow>
  messaging_wired P ssl (fst (snd (Messaging_SendMessage P' s t b m p)))"
  by (simp add: messaging_wired_def SendMessage_state messaging_ok_def)

lemma wired_History: "messaging_wired P ssl m \<Longrightarrow>
  messaging_wired P ssl (fst (snd (QueryHistory P' s t m p)))"
  by (auto simp: messaging_wired_def QueryHistory_def messaging_ok_def case_prod_beta Let_def
      seen_fold_distinct split: sum.split)

lemma wired_production: "messaging_wired P ssl (production_messaging P ssl w)"
  by (simp add: production_messaging_def Messaging_new_def messaging_wired_def messaging_ok_def)

lemma es_ok_CreateSpace: "es_ok es \<Longrightarrow> es_ok (fst (snd (EntityStore_CreateSpace P s n a b es p)))"
  by (simp add: EntityStore_CreateSpace_def es_ok_keyed Let_def case_prod_beta split: sum.split)

lemma es_ok_CreateRoom: "es_ok es \<Longrightarrow> es_ok (fst (snd (EntityStore_CreateRoom P s n par es p)))"
  by (simp add: EntityStore_CreateRoom_def es_ok_keyed Let_def case_prod_beta split: sum.split)

lemma es_ok_UpdateSpace: "es_ok es \<Longrightarrow> es_ok (fst (snd (EntityStore_UpdateSpace P s d es p)))"
  by (simp add: EntityStore_UpdateSpace_def es_ok_keyed Let_def case_prod_beta split: sum.split option.split)

section \<open>The helpers keep it\<close>

lemma PushMessageHistory_shape:
  "PushMessageHistory P t s = s\<lparr>g_messaging := Some (fst (snd (QueryHistory P (the_session s) t (the_messaging s) (g_proc s)))),
     g_proc := g_proc (PushMessageHistory P t s)\<rparr>"
  by (auto simp: PushMessageHistory_def Post_def case_prod_beta split: sum.split)

lemma SubscribeLive_shape:
  "snd (SubscribeLive P t s) = s\<lparr>g_proc := g_proc (snd (SubscribeLive P t s))\<rparr>"
  by (simp add: SubscribeLive_def Notice_def Let_def case_prod_beta)

lemma PushMessageHistory_ok:
  assumes "ffi_ok P ssl s" and "g_session s \<noteq> None"
  shows "ffi_ok P ssl (PushMessageHistory P t s)"
proof -
  from assms(2) obtain a cs where "g_session s = Some (a, cs)" by auto
  with assms(1) obtain m where m: "g_messaging s = Some m" "messaging_wired P ssl m"
    by (elim ffi_okE) blast
  then have "ffi_ok P ssl (s\<lparr>g_messaging := Some (fst (snd (QueryHistory P (the_session s) t (the_messaging s) (g_proc s))))\<rparr>)"
    by (intro ffi_ok_messaging [OF assms(1)] wired_History) (simp_all add: the_messaging_def)
  then show ?thesis by (subst PushMessageHistory_shape) simp
qed

lemma SubscribeLive_ok: "ffi_ok P ssl s \<Longrightarrow> ffi_ok P ssl (snd (SubscribeLive P t s))"
  by (subst SubscribeLive_shape) simp

lemma PushMessageHistory_fields [simp]:
  "g_session (PushMessageHistory P t s) = g_session s"
  "g_entities (PushMessageHistory P t s) = g_entities s"
  "g_roomTopics (PushMessageHistory P t s) = g_roomTopics s"
  "g_derivedTopics (PushMessageHistory P t s) = g_derivedTopics s"
  "g_explicitTopics (PushMessageHistory P t s) = g_explicitTopics s"
  "g_inFlight (PushMessageHistory P t s) = g_inFlight s"
  "g_receivingDisabled (PushMessageHistory P t s) = g_receivingDisabled s"
  "g_tearingDown (PushMessageHistory P t s) = g_tearingDown s"
  "g_apiDlInitialized (PushMessageHistory P t s) = g_apiDlInitialized s"
  "g_sdkBootedHere (PushMessageHistory P t s) = g_sdkBootedHere s"
  by (subst PushMessageHistory_shape, simp)+

lemma SubscribeLive_fields [simp]:
  "g_session (snd (SubscribeLive P t s)) = g_session s"
  "g_entities (snd (SubscribeLive P t s)) = g_entities s"
  "g_messaging (snd (SubscribeLive P t s)) = g_messaging s"
  "g_roomTopics (snd (SubscribeLive P t s)) = g_roomTopics s"
  "g_derivedTopics (snd (SubscribeLive P t s)) = g_derivedTopics s"
  "g_explicitTopics (snd (SubscribeLive P t s)) = g_explicitTopics s"
  "g_inFlight (snd (SubscribeLive P t s)) = g_inFlight s"
  "g_receivingDisabled (snd (SubscribeLive P t s)) = g_receivingDisabled s"
  "g_tearingDown (snd (SubscribeLive P t s)) = g_tearingDown s"
  "g_apiDlInitialized (snd (SubscribeLive P t s)) = g_apiDlInitialized s"
  "g_sdkBootedHere (snd (SubscribeLive P t s)) = g_sdkBootedHere s"
  by (subst SubscribeLive_shape, simp)+

section \<open>Refreshing the derived joins\<close>

lemma refresh_join_ok:
  assumes "ffi_ok P ssl s" and "g_session s \<noteq> None"
  shows "ffi_ok P ssl (refresh_join P t s)"
proof (cases "t \<in> set (g_derivedTopics s) \<or> \<not> fst (register_topic P (the_session s) t (g_proc s))")
  case True
  with assms show ?thesis
    by (auto simp: refresh_join_def split: prod.split bool.split)
next
  case False
  then obtain p where reg: "register_topic P (the_session s) t (g_proc s) = (True, p)"
    and new: "t \<notin> set (g_derivedTopics s)" by (metis prod.collapse)
  let ?s1 = "s\<lparr>g_proc := p, g_derivedTopics := g_derivedTopics s @ [t]\<rparr>"
  let ?s2 = "if t \<in> set (g_roomTopics ?s1) then ?s1 else ?s1\<lparr>g_roomTopics := g_roomTopics ?s1 @ [t]\<rparr>"
  have "topics_ok s" using assms(1) by (simp add: ffi_ok_def)
  with new have top: "topics_ok ?s2" by (auto simp: topics_ok_def)
  have "ffi_ok P ssl (s\<lparr>g_proc := p\<rparr>)" using assms(1) by simp
  then have "ffi_ok P ssl ?s2"
    by (rule ffi_ok_topics [where r = "g_roomTopics ?s2" and d = "g_derivedTopics ?s2"
          and e = "g_explicitTopics s"]) (use assms(2) top in \<open>auto split: if_splits\<close>)
  then have "ffi_ok P ssl (snd (SubscribeLive P t (PushMessageHistory P t ?s2)))"
    using assms(2) by (intro SubscribeLive_ok PushMessageHistory_ok) simp_all
  moreover have "refresh_join P t s = snd (SubscribeLive P t (PushMessageHistory P t ?s2))"
    using reg new by (simp add: refresh_join_def Let_def)
  ultimately show ?thesis by simp
qed

lemma refresh_join_fields [simp]:
  "g_session (refresh_join P t s) = g_session s"
  "g_entities (refresh_join P t s) = g_entities s"
  "g_explicitTopics (refresh_join P t s) = g_explicitTopics s"
  "g_inFlight (refresh_join P t s) = g_inFlight s"
  "g_receivingDisabled (refresh_join P t s) = g_receivingDisabled s"
  "g_tearingDown (refresh_join P t s) = g_tearingDown s"
  "g_apiDlInitialized (refresh_join P t s) = g_apiDlInitialized s"
  "g_sdkBootedHere (refresh_join P t s) = g_sdkBootedHere s"
  by (auto simp: refresh_join_def Let_def split: prod.split bool.split)

lemma refresh_fold_fields [simp]:
  "g_session (foldl (\<lambda>s t. refresh_join P t s) s ts) = g_session s"
  "g_entities (foldl (\<lambda>s t. refresh_join P t s) s ts) = g_entities s"
  "g_explicitTopics (foldl (\<lambda>s t. refresh_join P t s) s ts) = g_explicitTopics s"
  "g_inFlight (foldl (\<lambda>s t. refresh_join P t s) s ts) = g_inFlight s"
  "g_receivingDisabled (foldl (\<lambda>s t. refresh_join P t s) s ts) = g_receivingDisabled s"
  "g_tearingDown (foldl (\<lambda>s t. refresh_join P t s) s ts) = g_tearingDown s"
  "g_apiDlInitialized (foldl (\<lambda>s t. refresh_join P t s) s ts) = g_apiDlInitialized s"
  "g_sdkBootedHere (foldl (\<lambda>s t. refresh_join P t s) s ts) = g_sdkBootedHere s"
  by (induction ts arbitrary: s) simp_all

lemma refresh_fold_ok:
  "ffi_ok P ssl s \<Longrightarrow> g_session s \<noteq> None \<Longrightarrow> ffi_ok P ssl (foldl (\<lambda>s t. refresh_join P t s) s ts)"
  by (induction ts arbitrary: s) (simp_all add: refresh_join_ok)

text \<open>The eviction loop as a filter of the projection.\<close>

lemma evict_fold:
  "foldl (\<lambda>rooms t. if t \<in> D then rooms else if t \<notin> E then filter (\<lambda>u. u \<noteq> t) rooms else rooms) rooms ts
     = filter (\<lambda>u. u \<in> D \<or> u \<in> E \<or> u \<notin> set ts) rooms"
  by (induction ts arbitrary: rooms) (auto intro!: filter_cong)

lemma refresh_evict_eq:
  "refresh_evict D s =
     s\<lparr>g_roomTopics := filter (\<lambda>u. u \<in> set D \<or> u \<in> set (g_explicitTopics s) \<or> u \<notin> set (g_derivedTopics s))
         (g_roomTopics s),
       g_derivedTopics := filter (\<lambda>t. t \<in> set D) (g_derivedTopics s)\<rparr>"
  using evict_fold [of "set D" "set (g_explicitTopics s)" "g_roomTopics s" "g_derivedTopics s"]
  by (simp add: refresh_evict_def)

lemma refresh_evict_ok:
  assumes "ffi_ok P ssl s" and "g_session s \<noteq> None"
  shows "ffi_ok P ssl (refresh_evict D s)"
proof (rule ffi_ok_topics [OF assms])
  have "topics_ok s" using assms(1) by (simp add: ffi_ok_def)
  then show "topics_ok (refresh_evict D s)" by (auto simp: refresh_evict_eq topics_ok_def)
  show "refresh_evict D s = s\<lparr>g_roomTopics := g_roomTopics (refresh_evict D s),
      g_derivedTopics := g_derivedTopics (refresh_evict D s), g_explicitTopics := g_explicitTopics s\<rparr>"
    by (simp add: refresh_evict_eq)
qed

lemma RefreshDerivedJoins_ok:
  "ffi_ok P ssl s \<Longrightarrow> g_session s \<noteq> None \<Longrightarrow> ffi_ok P ssl (RefreshDerivedJoins P s)"
  by (simp add: RefreshDerivedJoins_def Let_def refresh_evict_ok refresh_fold_ok)

lemma RefreshDerivedJoins_fields [simp]:
  "g_session (RefreshDerivedJoins P s) = g_session s"
  "g_entities (RefreshDerivedJoins P s) = g_entities s"
  "g_explicitTopics (RefreshDerivedJoins P s) = g_explicitTopics s"
  "g_inFlight (RefreshDerivedJoins P s) = g_inFlight s"
  "g_receivingDisabled (RefreshDerivedJoins P s) = g_receivingDisabled s"
  "g_tearingDown (RefreshDerivedJoins P s) = g_tearingDown s"
  "g_apiDlInitialized (RefreshDerivedJoins P s) = g_apiDlInitialized s"
  "g_sdkBootedHere (RefreshDerivedJoins P s) = g_sdkBootedHere s"
  by (simp_all add: RefreshDerivedJoins_def refresh_evict_eq Let_def)

section \<open>The commands keep it\<close>

lemma has_session: "ffi_ok P ssl s \<Longrightarrow> handle_matches s h \<Longrightarrow>
  \<exists>a cs. h = Some a \<and> g_session s = Some (a, cs) \<and> the_session s = cs \<and> CoreSession_IsRunning cs"
  by (auto simp: handle_matches_def the_session_def ffi_ok_def components_ok_def split: option.splits)

text \<open>What a successful registration leaves in the two topic sets of a join.\<close>

definition add_topic :: "string \<Rightarrow> string list \<Rightarrow> string list" where
  "add_topic t ts = (if t \<in> set ts then ts else ts @ [t])"

lemma add_topic_set [simp]: "set (add_topic t ts) = insert t (set ts)"
  by (auto simp: add_topic_def)

lemma add_topic_distinct [simp]: "distinct (add_topic t ts) \<longleftrightarrow> distinct ts"
  by (simp add: add_topic_def)

definition join_topics :: "string \<Rightarrow> 'w ffi \<Rightarrow> 'w ffi" where
  "join_topics t s = s\<lparr>g_roomTopics := add_topic t (g_roomTopics s),
     g_explicitTopics := add_topic t (g_explicitTopics s)\<rparr>"

definition join_rejected :: "string \<Rightarrow> bool" where
  "join_rejected t \<longleftrightarrow> t = [] \<or> length t > kMaxTopicLength \<or> \<not> IsValidRoomTopicShape t"

lemma publish_join_invalid:
  "join_rejected t \<Longrightarrow> \<exists>n. publish_join P t s = (GCS_ERROR_INVALID_ARGUMENT, Notice P n s)"
  by (auto simp: publish_join_def join_rejected_def)

lemma publish_join_unregistered:
  "\<not> join_rejected t \<Longrightarrow> register_topic P (the_session s) t (g_proc s) = (False, p) \<Longrightarrow>
   publish_join P t s = (GCS_ERROR_GENERIC, Notice P (in_quotes ''join_topic failed for room '' t) (s\<lparr>g_proc := p\<rparr>))"
  by (simp add: publish_join_def join_rejected_def)

lemma publish_join_registered:
  assumes "\<not> join_rejected t" and "register_topic P (the_session s) t (g_proc s) = (True, p)"
  shows "publish_join P t s =
    (let s3 = join_topics t (s\<lparr>g_proc := p\<rparr>);
         s5 = PushMessageHistory P t (Post P (Ev_room_list (g_roomTopics s3)) s3)
     in if t \<in> set (g_roomTopics s) then (GCS_OK, s5)
        else case SubscribeLive P t s5 of (liveOk, s6) \<Rightarrow> (if liveOk then GCS_OK else GCS_ERROR_GENERIC, s6))"
  using assms
  by (cases "t \<in> set (g_roomTopics s)"; cases "t \<in> set (g_explicitTopics s)")
    (simp_all add: publish_join_def join_rejected_def join_topics_def add_topic_def
      BuildRoomListEvent_def Let_def case_prod_beta)

lemma publish_join_cases:
  obtains (invalid) n where "join_rejected t" "publish_join P t s = (GCS_ERROR_INVALID_ARGUMENT, Notice P n s)"
  | (unregistered) p where "\<not> join_rejected t" "register_topic P (the_session s) t (g_proc s) = (False, p)"
      "publish_join P t s = (GCS_ERROR_GENERIC, Notice P (in_quotes ''join_topic failed for room '' t) (s\<lparr>g_proc := p\<rparr>))"
  | (registered) p where "\<not> join_rejected t" "register_topic P (the_session s) t (g_proc s) = (True, p)"
      "publish_join P t s =
        (let s3 = join_topics t (s\<lparr>g_proc := p\<rparr>);
             s5 = PushMessageHistory P t (Post P (Ev_room_list (g_roomTopics s3)) s3)
         in if t \<in> set (g_roomTopics s) then (GCS_OK, s5)
            else case SubscribeLive P t s5 of (liveOk, s6) \<Rightarrow> (if liveOk then GCS_OK else GCS_ERROR_GENERIC, s6))"
proof (cases "join_rejected t")
  case True
  with publish_join_invalid invalid show thesis by blast
next
  case False
  obtain b p where reg: "register_topic P (the_session s) t (g_proc s) = (b, p)" by fastforce
  show thesis
  proof (cases b)
    case True
    with reg have "register_topic P (the_session s) t (g_proc s) = (True, p)" by simp
    from registered [OF False this publish_join_registered [OF False this]] show thesis .
  next
    case bad: False
    with reg have "register_topic P (the_session s) t (g_proc s) = (False, p)" by simp
    from unregistered [OF False this publish_join_unregistered [OF False this]] show thesis .
  qed
qed

lemma join_topics_ok:
  assumes "ffi_ok P ssl s" and "g_session s \<noteq> None"
  shows "ffi_ok P ssl (join_topics t s)"
proof (rule ffi_ok_topics [OF assms])
  have "topics_ok s" using assms(1) by (simp add: ffi_ok_def)
  then show "topics_ok (join_topics t s)" by (auto simp: topics_ok_def join_topics_def)
  show "join_topics t s = s\<lparr>g_roomTopics := g_roomTopics (join_topics t s),
      g_derivedTopics := g_derivedTopics s, g_explicitTopics := g_explicitTopics (join_topics t s)\<rparr>"
    by (simp add: join_topics_def)
qed

lemma join_topics_fields [simp]:
  "g_session (join_topics t s) = g_session s"
  "g_entities (join_topics t s) = g_entities s"
  "g_messaging (join_topics t s) = g_messaging s"
  "g_derivedTopics (join_topics t s) = g_derivedTopics s"
  "g_inFlight (join_topics t s) = g_inFlight s"
  "g_receivingDisabled (join_topics t s) = g_receivingDisabled s"
  "g_tearingDown (join_topics t s) = g_tearingDown s"
  "g_apiDlInitialized (join_topics t s) = g_apiDlInitialized s"
  "g_sdkBootedHere (join_topics t s) = g_sdkBootedHere s"
  "g_proc (join_topics t s) = g_proc s"
  by (simp_all add: join_topics_def)

lemma Post_fields [simp]:
  "g_session (Post P e s) = g_session s" "g_entities (Post P e s) = g_entities s"
  "g_messaging (Post P e s) = g_messaging s" "g_roomTopics (Post P e s) = g_roomTopics s"
  "g_derivedTopics (Post P e s) = g_derivedTopics s" "g_explicitTopics (Post P e s) = g_explicitTopics s"
  "g_inFlight (Post P e s) = g_inFlight s" 
  "g_receivingDisabled (Post P e s) = g_receivingDisabled s" "g_tearingDown (Post P e s) = g_tearingDown s"
  "g_apiDlInitialized (Post P e s) = g_apiDlInitialized s" "g_sdkBootedHere (Post P e s) = g_sdkBootedHere s"
  "g_proc (Post P e s) = PostToDart P e (g_proc s)"
  by (simp_all add: Post_def)

lemma Notice_fields [simp]:
  "g_session (Notice P n s) = g_session s" "g_entities (Notice P n s) = g_entities s"
  "g_messaging (Notice P n s) = g_messaging s" "g_roomTopics (Notice P n s) = g_roomTopics s"
  "g_derivedTopics (Notice P n s) = g_derivedTopics s" "g_explicitTopics (Notice P n s) = g_explicitTopics s"
  "g_inFlight (Notice P n s) = g_inFlight s" 
  "g_receivingDisabled (Notice P n s) = g_receivingDisabled s" "g_tearingDown (Notice P n s) = g_tearingDown s"
  "g_apiDlInitialized (Notice P n s) = g_apiDlInitialized s" "g_sdkBootedHere (Notice P n s) = g_sdkBootedHere s"
  "g_proc (Notice P n s) = PostErrorNotice P n (g_proc s)"
  by (simp_all add: Notice_def)

lemma publish_join_ok:
  assumes "ffi_ok P ssl s" and "g_session s \<noteq> None"
  shows "ffi_ok P ssl (snd (publish_join P t s))"
proof (cases rule: publish_join_cases [of t P s])
  case (registered p)
  have "ffi_ok P ssl (PushMessageHistory P t (Post P e (join_topics t (s\<lparr>g_proc := p\<rparr>))))" for e
    using assms by (intro PushMessageHistory_ok) (simp_all add: join_topics_ok)
  then show ?thesis
    by (simp add: registered(3) Let_def case_prod_beta SubscribeLive_ok)
qed (simp_all add: assms)

text \<open>The send arm past its guards.\<close>

definition send_rejected :: "string \<Rightarrow> string \<Rightarrow> 'w ffi \<Rightarrow> bool" where
  "send_rejected t body s \<longleftrightarrow> join_rejected t \<or> t \<notin> set (g_roomTopics s) \<or> length body > kMaxMessageTextLength"

lemma publish_send_invalid:
  "send_rejected t body s \<Longrightarrow> \<exists>n. publish_send P t body s = (GCS_ERROR_INVALID_ARGUMENT, Notice P n s)"
  by (auto simp: publish_send_def send_rejected_def join_rejected_def)

lemma publish_send_valid:
  assumes "\<not> send_rejected t body s"
    and "Messaging_SendMessage P (the_session s) t body (the_messaging s) (g_proc s) = (r, m, p)"
  shows "publish_send P t body s =
    (if has_value r then (GCS_OK, s\<lparr>g_messaging := Some m, g_proc := p\<rparr>)
     else (GCS_ERROR_GENERIC, Notice P (in_quotes ''send_text failed for room '' t)
             (s\<lparr>g_messaging := Some m, g_proc := p\<rparr>)))"
  using assms
  by (simp add: publish_send_def send_rejected_def join_rejected_def Let_def the_session_def the_messaging_def)

lemma publish_send_ok:
  assumes ok: "ffi_ok P ssl s" and ses: "g_session s \<noteq> None"
  shows "ffi_ok P ssl (snd (publish_send P t body s))"
proof (cases "send_rejected t body s")
  case True
  with publish_send_invalid [of t body s P] ok show ?thesis by auto
next
  case False
  obtain r m p where run: "Messaging_SendMessage P (the_session s) t body (the_messaging s) (g_proc s) = (r, m, p)"
    by (metis prod.collapse)
  from ok ses obtain m0 where m0: "g_messaging s = Some m0" "messaging_wired P ssl m0"
    by (auto elim: ffi_okE)
  with wired_Send [OF m0(2), of P "the_session s" t body "g_proc s"] run
  have "messaging_wired P ssl m" by (simp add: the_messaging_def)
  from ffi_ok_messaging [OF ok m0(1) this] show ?thesis
    by (simp add: publish_send_valid [OF False run])
qed

text \<open>The three catalog arms.\<close>

lemma refresh_and_post_ok:
  "ffi_ok P ssl s \<Longrightarrow> g_session s \<noteq> None \<Longrightarrow> ffi_ok P ssl (refresh_and_post P s)"
  by (simp add: refresh_and_post_def Let_def RefreshDerivedJoins_ok)

lemma refresh_and_post_fields [simp]:
  "g_session (refresh_and_post P s) = g_session s"
  "g_entities (refresh_and_post P s) = g_entities s"
  "g_explicitTopics (refresh_and_post P s) = g_explicitTopics s"
  "g_inFlight (refresh_and_post P s) = g_inFlight s"
  "g_receivingDisabled (refresh_and_post P s) = g_receivingDisabled s"
  "g_tearingDown (refresh_and_post P s) = g_tearingDown s"
  "g_apiDlInitialized (refresh_and_post P s) = g_apiDlInitialized s"
  "g_sdkBootedHere (refresh_and_post P s) = g_sdkBootedHere s"
  by (simp_all add: refresh_and_post_def Let_def)

definition name_rejected :: "string \<Rightarrow> bool" where
  "name_rejected name \<longleftrightarrow> name = [] \<or> Utf8CodePointCount name > kMaxEntityNameLength"

lemma publish_create_space_invalid:
  "name_rejected name \<Longrightarrow>
   \<exists>n. publish_create_space P name a b s = (GCS_ERROR_INVALID_ARGUMENT, Notice P n s)"
  by (auto simp: publish_create_space_def name_rejected_def)

lemma publish_create_space_valid:
  assumes "\<not> name_rejected name"
    and "EntityStore_CreateSpace P (the_session s) name a b (the_entities s) (g_proc s) = (r, es, p)"
  shows "publish_create_space P name a b s =
    (let s1 = s\<lparr>g_entities := Some es, g_proc := p\<rparr>
     in if has_value r then (GCS_OK, Post P (BuildSpaceTreeEvent s1) s1)
        else (GCS_ERROR_GENERIC, Notice P (in_quotes ''create_space store write failed for '' name) s1))"
  using assms by (simp add: publish_create_space_def name_rejected_def Let_def)

definition room_rejected :: "string \<Rightarrow> string \<Rightarrow> 'w ffi \<Rightarrow> bool" where
  "room_rejected name parent s \<longleftrightarrow> name_rejected name \<or>
     (parent \<noteq> [] \<and> \<not> EntityStore_IsValidParentSpace (the_entities s) parent)"

lemma publish_create_room_invalid:
  "room_rejected name parent s \<Longrightarrow>
   \<exists>n. publish_create_room P name parent s = (GCS_ERROR_INVALID_ARGUMENT, Notice P n s)"
  by (auto simp: publish_create_room_def name_rejected_def room_rejected_def)

lemma publish_create_room_valid:
  assumes "\<not> room_rejected name parent s"
    and "EntityStore_CreateRoom P (the_session s) name parent (the_entities s) (g_proc s) = (r, es, p)"
  shows "publish_create_room P name parent s =
    (let s1 = s\<lparr>g_entities := Some es, g_proc := p\<rparr>
     in if has_value r then (GCS_OK, refresh_and_post P s1)
        else (GCS_ERROR_GENERIC, Notice P (in_quotes ''create_room store write failed for '' name) s1))"
  using assms by (auto simp: publish_create_room_def name_rejected_def room_rejected_def Let_def)

definition desired_space :: "string \<Rightarrow> string \<Rightarrow> bool \<Rightarrow> bool \<Rightarrow> SpaceRecord" where
  "desired_space ident name a b = empty_space\<lparr>sp_id := ident, sp_name := name, sp_is_public := a,
     sp_auto_join_rooms := b\<rparr>"

lemma publish_update_space_invalid:
  "ident = [] \<or> name_rejected name \<Longrightarrow>
   \<exists>n. publish_update_space P ident name a b s = (GCS_ERROR_INVALID_ARGUMENT, Notice P n s)"
  by (auto simp: publish_update_space_def name_rejected_def)

lemma publish_update_space_valid:
  assumes "\<not> (ident = [] \<or> name_rejected name)"
    and "EntityStore_UpdateSpace P (the_session s) (desired_space ident name a b) (the_entities s) (g_proc s)
           = (r, es, p)"
  shows "publish_update_space P ident name a b s =
    (let s1 = s\<lparr>g_entities := Some es, g_proc := p\<rparr>
     in if has_value r then (GCS_OK, refresh_and_post P s1)
        else (GCS_ERROR_GENERIC, Notice P (in_quotes ''update_space failed for '' ident) s1))"
  using assms by (simp add: publish_update_space_def name_rejected_def desired_space_def Let_def)

text \<open>All three keep the invariant once the catalog operation keeps the catalog's.\<close>

lemma entities_written:
  assumes "ffi_ok P ssl s" and "g_session s \<noteq> None"
    and "\<And>es0. es_ok es0 \<Longrightarrow> the_entities s = es0 \<Longrightarrow> es_ok es"
  shows "ffi_ok P ssl (s\<lparr>g_entities := Some es, g_proc := p\<rparr>)"
proof -
  from assms(1,2) obtain es0 where es0: "g_entities s = Some es0" "es_ok es0" by (auto elim: ffi_okE)
  with assms(3) have "es_ok es" by (simp add: the_entities_def)
  from ffi_ok_entities [OF assms(1) es0(1) this]
  show ?thesis by simp
qed

lemma publish_create_space_ok:
  assumes "ffi_ok P ssl s" and "g_session s \<noteq> None"
  shows "ffi_ok P ssl (snd (publish_create_space P name a b s))"
proof (cases "name_rejected name")
  case True
  with publish_create_space_invalid [of name P a b s] assms show ?thesis by auto
next
  case False
  obtain r es p where run: "EntityStore_CreateSpace P (the_session s) name a b (the_entities s) (g_proc s) = (r, es, p)"
    by (metis prod.collapse)
  have "ffi_ok P ssl (s\<lparr>g_entities := Some es, g_proc := p\<rparr>)"
    using es_ok_CreateSpace [of "the_entities s" P "the_session s" name a b "g_proc s"] run
    by (intro entities_written [OF assms]) simp
  then show ?thesis by (simp add: publish_create_space_valid [OF False run] Let_def)
qed

lemma publish_create_room_ok:
  assumes "ffi_ok P ssl s" and "g_session s \<noteq> None"
  shows "ffi_ok P ssl (snd (publish_create_room P name parent s))"
proof (cases "room_rejected name parent s")
  case True
  with publish_create_room_invalid [of name parent s P] assms show ?thesis by auto
next
  case False
  obtain r es p where run: "EntityStore_CreateRoom P (the_session s) name parent (the_entities s) (g_proc s) = (r, es, p)"
    by (metis prod.collapse)
  have "ffi_ok P ssl (s\<lparr>g_entities := Some es, g_proc := p\<rparr>)"
    using es_ok_CreateRoom [of "the_entities s" P "the_session s" name parent "g_proc s"] run
    by (intro entities_written [OF assms]) simp
  then show ?thesis
    using assms(2) by (simp add: publish_create_room_valid [OF False run] Let_def refresh_and_post_ok)
qed

lemma publish_update_space_ok:
  assumes "ffi_ok P ssl s" and "g_session s \<noteq> None"
  shows "ffi_ok P ssl (snd (publish_update_space P ident name a b s))"
proof (cases "ident = [] \<or> name_rejected name")
  case True
  with publish_update_space_invalid [of ident name P a b s] assms show ?thesis by auto
next
  case False
  obtain r es p where run: "EntityStore_UpdateSpace P (the_session s) (desired_space ident name a b)
      (the_entities s) (g_proc s) = (r, es, p)"
    by (metis prod.collapse)
  have "ffi_ok P ssl (s\<lparr>g_entities := Some es, g_proc := p\<rparr>)"
    using es_ok_UpdateSpace [of "the_entities s" P "the_session s" "desired_space ident name a b" "g_proc s"] run
    by (intro entities_written [OF assms]) simp
  then show ?thesis
    using assms(2) by (simp add: publish_update_space_valid [OF False run] Let_def refresh_and_post_ok)
qed

lemma dispatch_command_ok:
  assumes "ffi_ok P ssl s" and "g_session s \<noteq> None"
  shows "ffi_ok P ssl (snd (dispatch_command P c s))"
  using assms
  by (cases c) (simp_all add: publish_join_ok publish_send_ok publish_create_space_ok publish_create_room_ok
      publish_update_space_ok publish_not_set_def)

lemma gcs_publish_ok: "ffi_ok P ssl s \<Longrightarrow> ffi_ok P ssl (snd (gcs_publish P h t b s))"
  by (auto simp: gcs_publish_def handle_matches_def split: option.splits intro!: dispatch_command_ok)

lemma gcs_subscribe_ok: "ffi_ok P ssl s \<Longrightarrow> ffi_ok P ssl (snd (gcs_subscribe P h t port s))"
  by (simp add: gcs_subscribe_def Let_def)

section \<open>The bridges and the archive worker keep it\<close>

lemma live_bridge_ok:
  assumes "ffi_ok P ssl s"
  shows "ffi_ok P ssl (live_bridge P t d s)"
proof (cases "g_receivingDisabled s \<or> g_messaging s = None")
  case False
  then obtain m where m: "g_messaging s = Some m" by auto
  with assms have "messaging_wired P ssl m"
    by (auto simp: ffi_ok_def components_ok_def split: option.splits)
  from ffi_ok_messaging [OF assms m wired_Apply [OF this]] False m show ?thesis
    by (simp add: live_bridge_def OnLiveMessage_def Let_def case_prod_beta)
qed (use assms in \<open>auto simp: live_bridge_def\<close>)

lemma heal_bridge_ok:
  assumes "ffi_ok P ssl s"
  shows "ffi_ok P ssl (snd (heal_bridge P k v s))"
proof (cases "g_receivingDisabled s \<or> g_messaging s = None")
  case False
  then obtain m where m: "g_messaging s = Some m" by auto
  with assms have wired: "messaging_wired P ssl m"
    by (auto simp: ffi_ok_def components_ok_def split: option.splits)
  then have "OnMessageArrived P k v m p = Some (m', p') \<Longrightarrow> messaging_wired P ssl m'" for p m' p'
    using wired_Apply [OF wired, of P] by (auto simp: OnMessageArrived_def split: option.splits if_splits)
      (metis fst_conv)
  from ffi_ok_messaging [OF assms m this] False m assms show ?thesis
    by (auto simp: heal_bridge_def Let_def split: option.split)
qed (use assms in \<open>auto simp: heal_bridge_def\<close>)

text \<open>One turn of the archive thread beside the other steps.\<close>

definition archive_turn :: "'w platform \<Rightarrow> 'w ffi \<Rightarrow> 'w ffi" where
  "archive_turn P s =
     (case g_messaging s of
        None \<Rightarrow> s
      | Some m \<Rightarrow>
          (case ArchiveWorker_turn P (the_session s) m (g_proc s) of
             Worker_wrote m' p' \<Rightarrow> s\<lparr>g_messaging := Some m', g_proc := p'\<rparr>
           | _ \<Rightarrow> s))"

lemma archive_turn_ok:
  assumes "ffi_ok P ssl s"
  shows "ffi_ok P ssl (archive_turn P s)"
proof (cases "g_messaging s")
  case (Some m)
  with assms have "messaging_wired P ssl (m\<lparr>m_archiveQueue := q\<rparr>)" for q
    by (auto simp: ffi_ok_def components_ok_def messaging_wired_def messaging_ok_def split: option.splits)
  from ffi_ok_messaging [OF assms Some this] assms Some show ?thesis
    by (simp add: archive_turn_def ArchiveWorker_turn_def split: list.split)
qed (simp add: archive_turn_def assms)

section \<open>Starting and ending a session keep it\<close>

text \<open>The outcomes of the boot.\<close>

lemma EnsureSdkBooted_cases:
  obtains (reused) node where "sdk_get_node P (world (g_proc s)) = Some node"
      "EnsureSdkBooted P config s = (True, s)"
  | (failed) p where "sdk_get_node P (world (g_proc s)) = None"
      "EnsureSdkBooted P config s = (False, s\<lparr>g_proc := p\<rparr>)"
  | (booted) p h where "sdk_get_node P (world (g_proc s)) = None"
      "EnsureSdkBooted P config s = (True, s\<lparr>g_sdkBootedHere := True, g_exitHookRegistered := h, g_proc := p\<rparr>)"
proof (cases "sdk_get_node P (world (g_proc s))")
  case (Some node)
  with reused show thesis by (simp add: EnsureSdkBooted_def)
next
  case None
  let ?base = "SessionBasePath P config (world (g_proc s))"
  let ?w1 = "create_directories P ?base (world (g_proc s))"
  obtain b w2 where boot: "(if cfg_mnemonic config = [] then sdk_init P ?base kDevConfig ?w1
      else sdk_init_with_mnemonic P ?base kDevConfig (cfg_mnemonic config) ?w1) = (b, w2)" by fastforce
  obtain ok w3 where hook: "register_atexit P w2 = (ok, w3)" by fastforce
  note unfolded = EnsureSdkBooted_def [of P config s] Let_def None boot hook
  show thesis
  proof (cases b)
    case False
    with unfolded show thesis by (intro failed [OF None]) simp
  next
    case True
    show thesis
    proof (cases "g_exitHookRegistered s")
      case True
      have "s\<lparr>g_proc := q, g_sdkBootedHere := True\<rparr> =
          s\<lparr>g_sdkBootedHere := True, g_exitHookRegistered := True, g_proc := q\<rparr>" for q
        using True by (cases s) simp
      with True \<open>b\<close> unfolded show thesis
        by (intro booted [OF None, where h = True and p = "(g_proc s)\<lparr>world := w2\<rparr>"]) simp
    next
      case False
      with \<open>b\<close> unfolded show thesis
        by (intro booted [OF None, where h = ok and p = "(g_proc s)\<lparr>world := w3\<rparr>"]) simp
    qed
  qed
qed

lemma EnsureSdkBooted_shape:
  "\<exists>b h p. snd (EnsureSdkBooted P config s) = s\<lparr>g_sdkBootedHere := b, g_exitHookRegistered := h, g_proc := p\<rparr>"
proof (cases rule: EnsureSdkBooted_cases [of P s config])
  case (reused node)
  then show ?thesis
    by (intro exI [of _ "g_sdkBootedHere s"] exI [of _ "g_exitHookRegistered s"] exI [of _ "g_proc s"]) simp
next
  case (failed p)
  then show ?thesis
    by (intro exI [of _ "g_sdkBootedHere s"] exI [of _ "g_exitHookRegistered s"] exI [of _ p]) simp
next
  case (booted p h)
  then show ?thesis by (intro exI [of _ True] exI [of _ h] exI [of _ p]) simp
qed

lemma init_components_ok:
  assumes top: "topics_ok s" and gdb: "gdb_ok (cs_db cs)" and run: "CoreSession_IsRunning cs"
  shows "ffi_ok P ssl (init_components P ssl a cs s)"
    and "g_session (init_components P ssl a cs s) = Some (a, cs)"
proof -
  obtain p2 es where init: "init_components P ssl a cs s =
      RefreshDerivedJoins P (s\<lparr>g_session := Some (a, cs), g_receivingDisabled := False,
        g_messaging := Some (production_messaging P ssl (world (g_proc s))), g_proc := p2, g_entities := Some es\<rparr>)"
    and es: "es_ok es"
    using LoadFromStore_ok [of P cs EntityStore_new]
    by (simp add: init_components_def Let_def case_prod_beta)
  have "ffi_ok P ssl (s\<lparr>g_session := Some (a, cs), g_receivingDisabled := False,
        g_messaging := Some (production_messaging P ssl (world (g_proc s))), g_proc := p2, g_entities := Some es\<rparr>)"
    by (rule ffi_okI [OF _ _ gdb run _ es _ wired_production]) (use top in \<open>simp_all add: topics_ok_def\<close>)
  then show "ffi_ok P ssl (init_components P ssl a cs s)"
    by (simp add: init RefreshDerivedJoins_ok)
  show "g_session (init_components P ssl a cs s) = Some (a, cs)" by (simp add: init)
qed

lemma join_smoke_members: "set (fst (join_smoke P cs ts p)) \<subseteq> set ts"
  by (induction ts arbitrary: p) (auto simp: case_prod_beta split: if_splits)

lemma join_smoke_distinct: "distinct ts \<Longrightarrow> distinct (fst (join_smoke P cs ts p))"
  using join_smoke_members by (induction ts arbitrary: p) (fastforce simp: case_prod_beta)+

lemma smoke_topics_distinct [simp]: "kSmokeTopicA \<noteq> kSmokeTopicB"
  by (simp add: kSmokeTopicA_def kSmokeTopicB_def)

text \<open>The outcomes of the session's construction.\<close>

lemma init_session_cases:
  assumes "ffi_ok P ssl s" and "g_session s = None"
  obtains (uninitialized) p where
      "init_session P ssl config s = (None, s\<lparr>g_sdkBootedHere := False, g_proc := p\<rparr>)"
  | (no_smoke) p where "init_session P ssl config s = (None, s\<lparr>g_proc := p\<rparr>)"
  | (running) a cs joined p where "gdb_ok (cs_db cs)" "CoreSession_IsRunning cs" "joined \<noteq> []"
      "set joined \<subseteq> {kSmokeTopicA, kSmokeTopicB}" "distinct joined"
      "init_session P ssl config s =
         (Some a, init_components P ssl a cs (s\<lparr>g_roomTopics := joined, g_proc := p\<rparr>))"
proof -
  obtain a w1 where a: "new_address P (world (g_proc s)) = (a, w1)" by fastforce
  obtain r cs p2 where i: "CoreSession_Initialize P (CoreSession_new (cfg_db_path config))
      ((g_proc s)\<lparr>world := w1\<rparr>) = (r, cs, p2)" by (metis prod.collapse)
  obtain joined p3 where j: "join_smoke P cs [kSmokeTopicA, kSmokeTopicB] p2 = (joined, p3)" by fastforce
  have none: "g_roomTopics s = []" using ffi_ok_no_session [OF assms] by simp
  show thesis
  proof (cases "has_value r")
    case False
    with a i uninitialized show thesis by (simp add: init_session_def Let_def case_prod_beta)
  next
    case ok: True
    show thesis
    proof (cases "joined = []")
      case True
      have "s\<lparr>g_roomTopics := [], g_proc := p\<rparr> = s\<lparr>g_proc := p\<rparr>" for p
        using none by (cases s) simp
      with ok a i j none True no_smoke show thesis
        by (simp add: init_session_def Let_def case_prod_beta)
    next
      case False
      have "gdb_ok (cs_db cs)" "CoreSession_IsRunning cs"
        using ok i CoreSession_Initialize_ok [of "CoreSession_new (cfg_db_path config)" P "(g_proc s)\<lparr>world := w1\<rparr>"]
          CoreSession_Initialize_result [of "CoreSession_new (cfg_db_path config)" P "(g_proc s)\<lparr>world := w1\<rparr>"]
        by auto
      moreover have "set joined \<subseteq> {kSmokeTopicA, kSmokeTopicB}" "distinct joined"
        using join_smoke_members [of P cs "[kSmokeTopicA, kSmokeTopicB]" p2]
          join_smoke_distinct [of "[kSmokeTopicA, kSmokeTopicB]" P cs p2] j by auto
      ultimately show thesis
        using ok a i j none False
        by (intro running [of cs joined a p3]) (simp_all add: init_session_def Let_def)
    qed
  qed
qed

lemma init_session_ok:
  assumes "ffi_ok P ssl s" and "g_session s = None"
  shows "ffi_ok P ssl (snd (init_session P ssl config s))"
  using assms
proof (cases rule: init_session_cases [where config = config])
  case (running a cs joined p)
  have "topics_ok (s\<lparr>g_roomTopics := joined, g_proc := p\<rparr>)"
    using running(5) ffi_ok_no_session [OF assms] by (simp add: topics_ok_def)
  from init_components_ok(1) [OF this running(1,2)] running(6) show ?thesis by simp
qed (simp_all add: assms)

lemma gcs_init_ok:
  assumes "ffi_ok P ssl s"
  shows "ffi_ok P ssl (snd (gcs_init P ssl b s))"
proof -
  let ?s1 = "s\<lparr>g_apiDlInitialized := True\<rparr>"
  have boot: "ffi_ok P ssl (snd (EnsureSdkBooted P c ?s1))"
    "g_session (snd (EnsureSdkBooted P c ?s1)) = g_session s" for c
    using EnsureSdkBooted_shape [of P c ?s1] assms by auto
  have "g_session s = None \<Longrightarrow> ffi_ok P ssl (snd (init_session P ssl c (snd (EnsureSdkBooted P c ?s1))))" for c
    using boot by (intro init_session_ok) simp_all
  with boot assms show ?thesis
    by (auto simp: gcs_init_def Let_def case_prod_beta split: option.split bool.split)
qed

lemma evict_globals_none [simp]:
  "g_session (snd (snd (evict_globals s))) = None"
  by (simp add: evict_globals_def Let_def split: option.split)

lemma evict_globals_ok: "ffi_ok P ssl s \<Longrightarrow> ffi_ok P ssl (snd (snd (evict_globals s)))"
proof (cases "g_session s")
  case None
  assume "ffi_ok P ssl s"
  with None show ?thesis by (simp add: evict_globals_def)
qed (auto simp: evict_globals_def Let_def ffi_ok_def topics_ok_def)

lemma Teardown_ok: "ffi_ok P ssl s \<Longrightarrow> ffi_ok P ssl (TeardownSessionAndNode P b c s)"
  using evict_globals_ok [of P ssl "s\<lparr>g_receivingDisabled := True, g_tearingDown := True\<rparr>"]
  by (simp add: TeardownSessionAndNode_def Let_def case_prod_beta)

lemma gcs_shutdown_ok: "ffi_ok P ssl s \<Longrightarrow> gcs_shutdown P h s = Some t \<Longrightarrow> ffi_ok P ssl t"
  by (auto simp: gcs_shutdown_def Let_def Teardown_ok split: if_splits)

lemma exit_hook_ok: "ffi_ok P ssl s \<Longrightarrow> exit_hook P lk st now s = Some t \<Longrightarrow> ffi_ok P ssl t"
  by (auto simp: exit_hook_def Teardown_ok split: option.splits prod.splits)

section \<open>All runs\<close>

inductive ffi_step :: "'w platform \<Rightarrow> ('w, 'k, 'c) openssl \<Rightarrow> 'w ffi \<Rightarrow> 'w ffi \<Rightarrow> bool"
  for P :: "'w platform" and ssl :: "('w, 'k, 'c) openssl" where
  init: "ffi_step P ssl s (snd (gcs_init P ssl configBytes s))"
| publish: "ffi_step P ssl s (snd (gcs_publish P h topic payload s))"
| subscribe: "ffi_step P ssl s (snd (gcs_subscribe P h topic port s))"
| shutdown: "gcs_shutdown P h s = Some t \<Longrightarrow> ffi_step P ssl s t"
| exit: "exit_hook P try_lock start now s = Some t \<Longrightarrow> ffi_step P ssl s t"
| live: "ffi_step P ssl s (live_bridge P topic data s)"
| heal: "ffi_step P ssl s (snd (heal_bridge P key val s))"
| archive: "ffi_step P ssl s (archive_turn P s)"
| outside: "ffi_step P ssl s (s\<lparr>g_proc := p\<rparr>)"

inductive ffi_reachable :: "'w platform \<Rightarrow> ('w, 'k, 'c) openssl \<Rightarrow> 'w ffi \<Rightarrow> bool"
  for P :: "'w platform" and ssl :: "('w, 'k, 'c) openssl" where
  loaded: "ffi_reachable P ssl (ffi_loaded p)"
| step: "ffi_reachable P ssl s \<Longrightarrow> ffi_step P ssl s t \<Longrightarrow> ffi_reachable P ssl t"

lemma ffi_loaded_ok: "ffi_ok P ssl (ffi_loaded p)"
  by (simp add: ffi_loaded_def ffi_ok_def topics_ok_def)

lemma ffi_step_ok:
  assumes "ffi_step P ssl s t" and "ffi_ok P ssl s"
  shows "ffi_ok P ssl t"
  using assms
proof cases
  case shutdown
  then show ?thesis using assms(2) gcs_shutdown_ok by blast
next
  case exit
  then show ?thesis using assms(2) exit_hook_ok by blast
qed (simp_all add: gcs_init_ok gcs_publish_ok gcs_subscribe_ok live_bridge_ok heal_bridge_ok archive_turn_ok)

lemma ffi_reachable_inv: "ffi_reachable P ssl s \<Longrightarrow> ffi_ok P ssl s"
  by (induction rule: ffi_reachable.induct) (auto intro: ffi_loaded_ok ffi_step_ok)

end
