(* ===== verification/FfiEffects.thy ===== *)
theory FfiEffects
  imports FfiInv
begin

text \<open>
  What the handlers at the C boundary (\<open>src/ffi/gcs_core_ffi.cpp\<close>) leave behind: the port and the
  registered handlers through every helper, the topic sets after a refresh, the outcomes of
  starting and ending a session, and the helpers on strings.
\<close>

section \<open>Port and handlers through the helpers\<close>

text \<open>The same listener: port and API table unchanged.\<close>

definition same_listener :: "'w proc \<Rightarrow> 'w proc \<Rightarrow> bool" where
  "same_listener p q \<longleftrightarrow> dart_port q = dart_port p \<and> dart_post_dl q = dart_post_dl p"

lemma same_listener_refl [simp]: "same_listener p p"
  by (simp add: same_listener_def)

lemma same_listener_trans: "same_listener p q \<Longrightarrow> same_listener q r \<Longrightarrow> same_listener p r"
  by (simp add: same_listener_def)

lemma same_listener_attached: "same_listener p q \<Longrightarrow> dart_attached q = dart_attached p"
  by (simp add: same_listener_def dart_attached_def)

lemma same_listener_world [simp]: "same_listener p (p\<lparr>world := w\<rparr>)"
  by (simp add: same_listener_def)

lemma same_listener_Post [simp]: "same_listener p (PostToDart P e q) = same_listener p q"
  "same_listener p (PostErrorNotice P n q) = same_listener p q"
  by (simp_all add: same_listener_def frame_simps)

lemma same_listener_NextEntityId [simp]: "same_listener p (snd (EntityStore_NextEntityId P pfx p))"
  by (cases "entity_seed p")
    (simp_all add: same_listener_def NextEntityId_seeded NextEntityId_unseeded case_prod_beta frame_simps)

lemma same_listener_NowMs [simp]: "same_listener q (snd (NowMs P p)) = same_listener q p"
  by (simp add: same_listener_def frame_simps)

lemma same_listener_Put [simp]:
  "same_listener q (snd (CoreSession_Put P s k v p)) = same_listener q p"
  "same_listener q (snd (CoreSession_Put_topics P s k v T p)) = same_listener q p"
  "same_listener q (snd (AppendToManifest P s b i p)) = same_listener q p"
  by (simp_all add: same_listener_def AppendToManifest_def frame_simps)

lemma same_listener_catalog:
  "same_listener p (snd (snd (EntityStore_CreateSpace P s n a b es p)))"
  "same_listener p (snd (snd (EntityStore_CreateRoom P s n par es p)))"
  "same_listener p (snd (snd (EntityStore_UpdateSpace P s d es p)))"
  by (simp_all add: EntityStore_CreateSpace_def EntityStore_CreateRoom_def EntityStore_UpdateSpace_def Let_def
      case_prod_beta split: sum.split option.split)

lemma same_listener_history: "same_listener p (snd (snd (QueryHistory P s t m p)))"
  by (simp add: QueryHistory_def Let_def case_prod_beta split: sum.split)

lemma same_listener_register: "same_listener p (snd (register_topic P cs t p))"
  by (simp add: register_topic_def same_listener_def case_prod_beta frame_simps split: sum.split)

lemma same_listener_subscribe: "same_listener p (snd (CoreSession_Subscribe P s t p))"
  by (simp add: CoreSession_Subscribe_def GcsGlobalDb_Subscribe_def same_listener_def Let_def case_prod_beta
      split: option.split)

lemma same_listener_PushMessageHistory [simp]:
  "same_listener (g_proc s) (g_proc (PushMessageHistory P t s))"
  using same_listener_history [of "g_proc s" P "the_session s" t "the_messaging s"]
  by (simp add: PushMessageHistory_def case_prod_beta split: sum.split)

lemma same_listener_SubscribeLive [simp]:
  "same_listener (g_proc s) (g_proc (snd (SubscribeLive P t s)))"
proof -
  have "the_session (s\<lparr>g_inFlight := n\<rparr>) = the_session s" for n by (simp add: the_session_def)
  with same_listener_subscribe [of "g_proc s" P "the_session s" t] show ?thesis
    by (simp add: SubscribeLive_def Let_def case_prod_beta)
qed

lemma same_listener_send:
  assumes "m_sink m = PostToDart P"
  shows "same_listener p (snd (snd (Messaging_SendMessage P s t b m p)))"
proof -
  from SendMessage_last_push [of P s t b m p] obtain q e where
    "snd (snd (Messaging_SendMessage P s t b m p)) = m_sink m e q"
    "dart_port q = dart_port (after_echo P m t b p)" "dart_post_dl q = dart_post_dl (after_echo P m t b p)" by blast
  with after_echo_frame(1,2) [OF assms, where topic = t and body = b and p = p] assms show ?thesis
    by (simp add: same_listener_def frame_simps)
qed

text \<open>Registered live handlers.\<close>

lemma live_handlers_register [simp]: "live_handlers (snd (register_topic P cs t p)) = live_handlers p"
  by (simp add: register_topic_def case_prod_beta frame_simps split: sum.split)

lemma live_handlers_PushMessageHistory [simp]:
  "live_handlers (g_proc (PushMessageHistory P t s)) = live_handlers (g_proc s)"
proof -
  have "live_handlers (snd (snd (QueryHistory P c t m p))) = live_handlers p" for c m p
    by (simp add: QueryHistory_def Let_def case_prod_beta split: sum.split)
  then show ?thesis
    by (simp add: PushMessageHistory_def case_prod_beta frame_simps split: sum.split)
qed

lemma live_handlers_SubscribeLive:
  "live_handlers (g_proc (snd (SubscribeLive P t s))) =
     (if fst (SubscribeLive P t s) then live_handlers (g_proc s) @ [t] else live_handlers (g_proc s))"
proof -
  have ses: "the_session (s\<lparr>g_inFlight := n\<rparr>) = the_session s" for n by (simp add: the_session_def)
  have "live_handlers (snd (CoreSession_Subscribe P c t p)) =
      (if has_value (fst (CoreSession_Subscribe P c t p)) then live_handlers p @ [t] else live_handlers p)" for c p
    by (simp add: CoreSession_Subscribe_def GcsGlobalDb_Subscribe_def Let_def case_prod_beta split: option.split)
  with ses show ?thesis
    by (simp add: SubscribeLive_def Let_def case_prod_beta frame_simps)
qed

section \<open>The topic sets after a refresh\<close>

text \<open>One turn either leaves the sets, or adds the topic to both.\<close>

lemma refresh_join_cases:
  obtains (same) "g_derivedTopics (refresh_join P t s) = g_derivedTopics s"
      "g_roomTopics (refresh_join P t s) = g_roomTopics s"
      "live_handlers (g_proc (refresh_join P t s)) = live_handlers (g_proc s)"
      "t \<in> set (g_derivedTopics s) \<or> \<not> fst (register_topic P (the_session s) t (g_proc s))"
  | (joined) "g_derivedTopics (refresh_join P t s) = g_derivedTopics s @ [t]"
      "g_roomTopics (refresh_join P t s) = add_topic t (g_roomTopics s)"
      "set (live_handlers (g_proc (refresh_join P t s))) \<subseteq> insert t (set (live_handlers (g_proc s)))"
proof (cases "t \<in> set (g_derivedTopics s)")
  case True
  then have "refresh_join P t s = s" by (simp add: refresh_join_def)
  with same True show thesis by simp
next
  case False
  obtain b p where reg: "register_topic P (the_session s) t (g_proc s) = (b, p)" by fastforce
  then have p: "live_handlers p = live_handlers (g_proc s)" by (metis live_handlers_register snd_conv)
  show thesis
  proof (cases b)
    case True
    with False reg have eq: "refresh_join P t s = (let s1 = s\<lparr>g_proc := p, g_derivedTopics := g_derivedTopics s @ [t]\<rparr>;
        s2 = (if t \<in> set (g_roomTopics s1) then s1 else s1\<lparr>g_roomTopics := g_roomTopics s1 @ [t]\<rparr>)
        in snd (SubscribeLive P t (PushMessageHistory P t s2)))" by (simp add: refresh_join_def Let_def)
    show thesis
      by (rule joined) (auto simp: eq Let_def add_topic_def live_handlers_SubscribeLive p)
  next
    case bad: False
    with False reg have eq: "refresh_join P t s = s\<lparr>g_proc := p\<rparr>" by (simp add: refresh_join_def)
    show thesis by (rule same) (use eq p reg bad in simp_all)
  qed
qed

lemma refresh_fold_bounds:
  "set (g_derivedTopics (foldl (\<lambda>s t. refresh_join P t s) s ts)) \<subseteq> set (g_derivedTopics s) \<union> set ts
   \<and> set (g_roomTopics s) \<subseteq> set (g_roomTopics (foldl (\<lambda>s t. refresh_join P t s) s ts))
   \<and> set (g_roomTopics (foldl (\<lambda>s t. refresh_join P t s) s ts)) \<subseteq> set (g_roomTopics s) \<union> set ts
   \<and> set (live_handlers (g_proc (foldl (\<lambda>s t. refresh_join P t s) s ts)))
       \<subseteq> set (live_handlers (g_proc s)) \<union> set ts"
proof (induction ts arbitrary: s)
  case (Cons t ts)
  show ?case
    by (cases rule: refresh_join_cases [of P t s])
      (use Cons.IH [of "refresh_join P t s"] in \<open>auto simp del: refresh_fold_fields\<close>)
qed simp

text \<open>Where the store accepts every broadcast topic, each derived topic joins.\<close>

definition broadcasts_accepted :: "'w platform \<Rightarrow> bool" where
  "broadcasts_accepted P \<longleftrightarrow> (\<forall>h t w. fst (globaldb_add_broadcast P h t w))"

lemma register_accepted:
  "broadcasts_accepted P \<Longrightarrow> CoreSession_IsRunning cs \<Longrightarrow> fst (register_topic P cs t p)"
  by (simp add: register_topic_def core_topic_defs with_db_def CoreSession_IsRunning_def GcsGlobalDb_IsRunning_def
      broadcasts_accepted_def case_prod_beta)

lemma refresh_fold_accepted:
  assumes "broadcasts_accepted P" and "CoreSession_IsRunning (the_session s)"
    and "set (g_derivedTopics s) \<subseteq> set (g_roomTopics s)"
  shows "set (g_derivedTopics (foldl (\<lambda>s t. refresh_join P t s) s ts)) = set (g_derivedTopics s) \<union> set ts
   \<and> set (g_roomTopics (foldl (\<lambda>s t. refresh_join P t s) s ts)) = set (g_roomTopics s) \<union> set ts"
  using assms(2,3)
proof (induction ts arbitrary: s)
  case (Cons t ts)
  have run: "CoreSession_IsRunning (the_session (refresh_join P t s))"
    using Cons.prems(1) by (simp add: the_session_def)
  have reg: "fst (register_topic P (the_session s) t (g_proc s))"
    using register_accepted [OF assms(1) Cons.prems(1)] .
  show ?case
  proof (cases rule: refresh_join_cases [of P t s])
    case same
    with reg Cons.prems(2) have "t \<in> set (g_derivedTopics s)" by simp
    with same Cons.IH [OF run] Cons.prems(2) show ?thesis by auto
  next
    case joined
    with Cons.IH [OF run] Cons.prems(2) show ?thesis by auto
  qed
qed simp

section \<open>Strings\<close>

text \<open>The UTF-8 encoding of a code point.\<close>

definition utf8_encode :: "nat \<Rightarrow> string" where
  "utf8_encode cp =
     (if cp < 0x80 then [char_of cp]
      else if cp < 0x800 then [char_of (0xC0 + cp div 64), char_of (0x80 + cp mod 64)]
      else if cp < 0x10000 then
        [char_of (0xE0 + cp div 4096), char_of (0x80 + cp div 64 mod 64), char_of (0x80 + cp mod 64)]
      else [char_of (0xF0 + cp div 262144), char_of (0x80 + cp div 4096 mod 64),
            char_of (0x80 + cp div 64 mod 64), char_of (0x80 + cp mod 64)])"

lemma byte_class: "list_all (\<lambda>n. ((of_nat n :: 8 word) AND 0xC0 \<noteq> 0x80) = (\<not> (128 \<le> n \<and> n < 192))) [0..<256]"
proof -
  have "[0..<256] = 0 # 1 # [2..<(256::nat)]" by (simp add: upt_conv_Cons)
  then show ?thesis by simp
qed

lemma lead_byte:
  fixes n :: nat
  assumes "n < 256"
  shows "(of_char (char_of n) :: 8 word) AND 0xC0 \<noteq> 0x80 \<longleftrightarrow> \<not> (128 \<le> n \<and> n < 192)"
proof -
  have "(of_char (char_of n) :: 8 word) = of_nat (of_char (char_of n))"
    by (simp only: of_nat_of_char)
  also have "\<dots> = of_nat n" using assms by (simp only: of_char_of mod_less)
  finally show ?thesis using byte_class assms by (simp add: list_all_iff)
qed

lemma code_points_encode:
  assumes "cp < 0x110000"
  shows "Utf8CodePointCount (utf8_encode cp) = 1"
proof -
  have "cp div 64 < 32" if "cp < 0x800" using that by simp
  moreover have "cp div 4096 < 16" if "cp < 0x10000" using that by simp
  moreover have "cp div 262144 < 8" using assms by simp
  ultimately show ?thesis
    by (auto simp: utf8_encode_def Utf8CodePointCount_def lead_byte)
qed

lemma code_points_append: "Utf8CodePointCount (s @ t) = Utf8CodePointCount s + Utf8CodePointCount t"
  by (simp add: Utf8CodePointCount_def)

lemma code_points_concat:
  "list_all (\<lambda>cp. cp < 0x110000) cps \<Longrightarrow> Utf8CodePointCount (concat (map utf8_encode cps)) = length cps"
proof (induction cps)
  case Nil
  show ?case by (simp add: Utf8CodePointCount_def)
next
  case (Cons cp cps)
  then show ?case by (simp add: code_points_append code_points_encode)
qed

text \<open>A valid topic is the namespace and one segment.\<close>

lemma IsValidRoomTopicShape_iff:
  "IsValidRoomTopicShape t \<longleftrightarrow> (\<exists>i. t = kRoomTopicNamespace @ i \<and> i \<noteq> [] \<and> CHR ''/'' \<notin> set i)"
proof
  assume shape: "IsValidRoomTopicShape t"
  then have "t = kRoomTopicNamespace @ drop (length kRoomTopicNamespace) t"
    by (metis IsValidRoomTopicShape_def append_take_drop_id)
  with shape show "\<exists>i. t = kRoomTopicNamespace @ i \<and> i \<noteq> [] \<and> CHR ''/'' \<notin> set i"
    by (intro exI [of _ "drop (length kRoomTopicNamespace) t"]) (auto simp: IsValidRoomTopicShape_def)
qed (auto simp: IsValidRoomTopicShape_def)

lemma scan_prefix_valid:
  assumes "IsValidRoomTopicShape a" and "IsValidRoomTopicShape b" and "CHR ''/'' \<notin> set ident"
  shows "prefix (kMessagesKeyPrefix @ a @ ''/'') (BuildKey b ident) \<longleftrightarrow> a = b"
proof
  assume "prefix (kMessagesKeyPrefix @ a @ ''/'') (BuildKey b ident)"
  then obtain zs where zs: "a @ CHR ''/'' # zs = b @ CHR ''/'' # ident"
    by (auto simp: BuildKey_def prefix_def)
  from assms obtain i j where a: "a = kRoomTopicNamespace @ i" "CHR ''/'' \<notin> set i"
    and b: "b = kRoomTopicNamespace @ j" "CHR ''/'' \<notin> set j"
    by (auto simp: IsValidRoomTopicShape_iff)
  from zs have "i @ CHR ''/'' # zs = j @ CHR ''/'' # ident" by (simp add: a b)
  then have "takeWhile (\<lambda>c. c \<noteq> CHR ''/'') (i @ CHR ''/'' # zs) = takeWhile (\<lambda>c. c \<noteq> CHR ''/'') (j @ CHR ''/'' # ident)"
    by simp
  moreover have "takeWhile (\<lambda>c. c \<noteq> CHR ''/'') (x @ CHR ''/'' # y) = x" if "CHR ''/'' \<notin> set x" for x y
    using that by (subst takeWhile_append2) auto
  ultimately show "a = b" using a b by simp
qed (simp add: BuildKey_def)

section \<open>Outcomes of starting and ending a session\<close>

lemma refresh_evict_fresh:
  assumes "set (g_derivedTopics s) \<subseteq> set D"
  shows "refresh_evict D s = s"
proof -
  have "filter (\<lambda>t. t \<in> set D) (g_derivedTopics s) = g_derivedTopics s"
    and "filter (\<lambda>u. u \<in> set D \<or> u \<in> set (g_explicitTopics s) \<or> u \<notin> set (g_derivedTopics s)) (g_roomTopics s)
      = g_roomTopics s"
    using assms by (auto simp: filter_id_conv)
  then show ?thesis by (simp add: refresh_evict_eq)
qed

lemma init_components_effect:
  assumes "g_derivedTopics s = []"
  shows "set (g_roomTopics s) \<subseteq> set (g_roomTopics (init_components P ssl a cs s))"
    and "set (live_handlers (g_proc (init_components P ssl a cs s))) \<subseteq> set (live_handlers (g_proc s)) \<union>
      set (EntityStore_DerivedJoinedTopics (the_entities (init_components P ssl a cs s)))"
    and "\<not> g_receivingDisabled (init_components P ssl a cs s)"
    and "g_tearingDown (init_components P ssl a cs s) = g_tearingDown s"
    and "g_apiDlInitialized (init_components P ssl a cs s) = g_apiDlInitialized s"
    and "g_sdkBootedHere (init_components P ssl a cs s) = g_sdkBootedHere s"
    and "g_inFlight (init_components P ssl a cs s) = g_inFlight s"
proof -
  let ?m = "production_messaging P ssl (world (g_proc s))"
  obtain p2 es where init: "init_components P ssl a cs s =
      RefreshDerivedJoins P (s\<lparr>g_session := Some (a, cs), g_receivingDisabled := False,
        g_messaging := Some ?m, g_proc := p2, g_entities := Some es\<rparr>)"
    and p2: "live_handlers p2 = live_handlers (g_proc s)"
  proof -
    obtain r p2 where reg: "CoreSession_RegisterNewElementCallback P cs kMessagesKeyCallbackPattern (g_proc s) = (r, p2)"
      by fastforce
    then have "live_handlers p2 = live_handlers (g_proc s)"
      by (auto simp: CoreSession_RegisterNewElementCallback_def GcsGlobalDb_RegisterNewElementCallback_def
          split: if_splits prod.splits)
    with reg that show thesis
      by (simp add: init_components_def Let_def case_prod_beta)
  qed
  let ?s = "s\<lparr>g_session := Some (a, cs), g_receivingDisabled := False, g_messaging := Some ?m, g_proc := p2,
     g_entities := Some es\<rparr>"
  let ?D = "EntityStore_DerivedJoinedTopics es"
  let ?f = "foldl (\<lambda>s t. refresh_join P t s) ?s ?D"
  note bounds = refresh_fold_bounds [of P ?s ?D]
  have "refresh_evict ?D ?f = ?f"
    using bounds assms by (intro refresh_evict_fresh) auto
  then have eq: "init_components P ssl a cs s = ?f"
    by (simp add: init RefreshDerivedJoins_def the_entities_def)
  have ent: "the_entities ?f = es" by (simp add: the_entities_def)
  show "set (g_roomTopics s) \<subseteq> set (g_roomTopics (init_components P ssl a cs s))"
    using bounds by (simp add: eq)
  show "set (live_handlers (g_proc (init_components P ssl a cs s))) \<subseteq> set (live_handlers (g_proc s)) \<union>
      set (EntityStore_DerivedJoinedTopics (the_entities (init_components P ssl a cs s)))"
    using bounds p2 unfolding eq ent by simp
qed (simp_all add: init_components_def Let_def case_prod_beta)

lemma join_smoke_handlers [simp]: "live_handlers (snd (join_smoke P cs ts p)) = live_handlers p"
  by (induction ts arbitrary: p) (simp_all add: case_prod_beta)

lemma Initialize_handlers:
  "gdb_ok (cs_db cs) \<Longrightarrow> live_handlers (snd (snd (CoreSession_Initialize P cs p))) = live_handlers p"
proof -
  assume ok: "gdb_ok (cs_db cs)"
  have "live_handlers (snd (snd (GcsGlobalDb_Initialize P (cs_db cs) p))) = live_handlers p"
    using Initialize_unfold [of P "cs_db cs" p]
  proof (elim disjE exE)
    fix ps net assume eq: "GcsGlobalDb_Initialize P (cs_db cs) p = GcsGlobalDb_Initialize_injected P ps net (cs_db cs) p"
    show ?thesis unfolding eq using Initialize_injected_cases [OF ok, of ps net P p] by auto
  qed simp
  then show ?thesis by (simp add: CoreSession_Initialize_def case_prod_beta)
qed

lemma gcs_init_existing:
  "g_session s = Some (a, cs) \<Longrightarrow> \<not> g_tearingDown s \<Longrightarrow>
   gcs_init P ssl b s = (Some a, s\<lparr>g_apiDlInitialized := True\<rparr>)"
  by (simp add: gcs_init_def Let_def)

text \<open>What a call without a session does, in terms of the steps it takes.\<close>

lemma gcs_init_new_cases:
  assumes "ffi_ok P ssl s" and "g_session s = None"
  obtains (refused) "gcs_init P ssl b s = (None, s)"
  | (invalid) "gcs_init P ssl b s = (None, s\<lparr>g_apiDlInitialized := True\<rparr>)"
  | (unbooted) p where "gcs_init P ssl b s = (None, s\<lparr>g_apiDlInitialized := True, g_proc := p\<rparr>)"
  | (booted) config bt h p where "\<not> g_tearingDown s" "gcs_init P ssl b s =
      init_session P ssl config (s\<lparr>g_apiDlInitialized := True, g_sdkBootedHere := bt, g_exitHookRegistered := h, g_proc := p\<rparr>)"
      "live_handlers p = live_handlers (g_proc s)"
proof -
  let ?s1 = "s\<lparr>g_apiDlInitialized := True\<rparr>"
  show thesis
  proof (cases "g_tearingDown s")
    case True
    with refused show thesis by (simp add: gcs_init_def)
  next
    case alive: False
    show thesis
    proof (cases "b = None \<or> b = Some [] \<or> length (the b) > int_max \<or> parse_config (proto P) (the b) = None
        \<or> cfg_codec (the (parse_config (proto P) (the b))) \<noteq> CODEC_PROTOBUF")
      case True
      with alive assms(2) have "gcs_init P ssl b s = (None, ?s1)"
        by (auto simp: gcs_init_def Let_def split: option.split)
      with invalid show thesis .
    next
      case False
      then obtain bs where bs: "b = Some bs" by (cases b) auto
      with False obtain config where cf: "parse_config (proto P) bs = Some config" by auto
      have b: "b = Some bs" "bs \<noteq> []" "\<not> length bs > int_max" "parse_config (proto P) bs = Some config"
        "cfg_codec config = CODEC_PROTOBUF" using False bs cf by simp_all
      with alive assms(2) have eq: "gcs_init P ssl b s = (case EnsureSdkBooted P config ?s1 of (False, s2) \<Rightarrow> (None, s2)
          | (True, s2) \<Rightarrow> init_session P ssl config s2)" by (simp add: gcs_init_def Let_def)
      have hand: "live_handlers (g_proc (snd (EnsureSdkBooted P config ?s1))) = live_handlers (g_proc s)"
        by (simp add: EnsureSdkBooted_def Let_def case_prod_beta)
      show thesis
      proof (cases rule: EnsureSdkBooted_cases [of P ?s1 config])
        case (reused node)
        have same: "s\<lparr>g_apiDlInitialized := True, g_sdkBootedHere := g_sdkBootedHere s,
            g_exitHookRegistered := g_exitHookRegistered s, g_proc := g_proc s\<rparr> = ?s1" by simp
        show thesis
          by (rule booted [where bt = "g_sdkBootedHere s" and h = "g_exitHookRegistered s" and p = "g_proc s" and config = config])
            (use alive eq reused same in simp_all)
      next
        case (failed p)
        with eq unbooted show thesis by simp
      next
        case (booted p h)
        show thesis
          by (rule that(4) [where bt = True and h = h and p = p and config = config])
            (use alive eq booted hand in simp_all)
      qed
    qed
  qed
qed

end
