(* ===== verification/FfiOutcomes.thy ===== *)
theory FfiOutcomes
  imports FfiEffects
begin

text \<open>
  The outcomes of the handlers at the C boundary (\<open>src/ffi/gcs_core_ffi.cpp\<close>) in the form the
  properties use: how commands report their failures, what a join and a start leave behind, how long the exit
  hook tries for the lock, the sizes of minted topics, and the count of operations in flight.
\<close>

section \<open>The exit hook\<close>

lemma exit_lock_loop_bound:
  assumes step: "\<And>i. now (Suc i) \<ge> now i + kExitLockRetryInterval_ms"
    and "deadline \<le> now i + 10 * int k"
  shows "\<exists>r n. exit_lock_loop try_lock now deadline i = Some (r, n) \<and> i \<le> n \<and> n \<le> i + k \<and> (r \<longleftrightarrow> try_lock n)
    \<and> (\<forall>j. i \<le> j \<longrightarrow> j < n \<longrightarrow> \<not> try_lock j)"
  using assms(2)
proof (induction k arbitrary: i)
  case 0
  then show ?case by (subst exit_lock_loop.simps) auto
next
  case (Suc k)
  have "deadline \<le> now (Suc i) + 10 * int k"
    using Suc.prems step [of i] by (simp add: kExitLockRetryInterval_ms_def)
  from Suc.IH [OF this] obtain r n where rec: "exit_lock_loop try_lock now deadline (Suc i) = Some (r, n)"
    "Suc i \<le> n" "n \<le> Suc i + k" "r \<longleftrightarrow> try_lock n" "\<forall>j. Suc i \<le> j \<longrightarrow> j < n \<longrightarrow> \<not> try_lock j" by blast
  show ?case
  proof (cases "try_lock i \<or> now i \<ge> deadline")
    case True
    then show ?thesis by (subst exit_lock_loop.simps) auto
  next
    case False
    with rec have "exit_lock_loop try_lock now deadline i = Some (r, n)"
      by (subst exit_lock_loop.simps) auto
    moreover have "\<forall>j. i \<le> j \<longrightarrow> j < n \<longrightarrow> \<not> try_lock j"
      using False rec(5) by (metis le_antisym not_less_eq_eq)
    ultimately show ?thesis using rec by (intro exI [of _ r] exI [of _ n]) auto
  qed
qed

section \<open>Names and minted topics\<close>

lemma create_space_status:
  "fst (publish_create_space P name pub auto s) = GCS_ERROR_INVALID_ARGUMENT \<longleftrightarrow> name_rejected name"
proof (cases "name_rejected name")
  case True
  with publish_create_space_invalid [of name P pub auto s] show ?thesis by auto
next
  case False
  obtain r es p where "EntityStore_CreateSpace P (the_session s) name pub auto (the_entities s) (g_proc s) = (r, es, p)"
    by (metis prod.collapse)
  from publish_create_space_valid [OF False this] False show ?thesis by (simp add: Let_def)
qed

lemma create_room_status:
  "fst (publish_create_room P name parent s) = GCS_ERROR_INVALID_ARGUMENT \<longleftrightarrow> room_rejected name parent s"
proof (cases "room_rejected name parent s")
  case True
  with publish_create_room_invalid [of name parent s P] show ?thesis by auto
next
  case False
  obtain r es p where "EntityStore_CreateRoom P (the_session s) name parent (the_entities s) (g_proc s) = (r, es, p)"
    by (metis prod.collapse)
  from publish_create_room_valid [OF False this] False show ?thesis by (simp add: Let_def)
qed

lemma update_space_status:
  "fst (publish_update_space P ident name pub auto s) = GCS_ERROR_INVALID_ARGUMENT \<longleftrightarrow> ident = [] \<or> name_rejected name"
proof (cases "ident = [] \<or> name_rejected name")
  case True
  with publish_update_space_invalid [of ident name P pub auto s] show ?thesis by auto
next
  case False
  obtain r es p where "EntityStore_UpdateSpace P (the_session s) (desired_space ident name pub auto) (the_entities s) (g_proc s) = (r, es, p)"
    by (metis prod.collapse)
  from publish_update_space_valid [OF False this] False show ?thesis by (simp add: Let_def)
qed

lemma encoded_name_rejected:
  assumes "list_all (\<lambda>cp. cp < 0x110000) cps"
  shows "name_rejected (concat (map utf8_encode cps)) \<longleftrightarrow> cps = [] \<or> length cps > 64"
proof -
  have "utf8_encode cp \<noteq> []" for cp by (simp add: utf8_encode_def)
  then have "concat (map utf8_encode cps) = [] \<longleftrightarrow> cps = []" by (cases cps) auto
  with code_points_concat [OF assms] show ?thesis
    by (simp add: name_rejected_def kMaxEntityNameLength_def)
qed

lemma length_show_nat: "n < 10 ^ Suc k \<Longrightarrow> length (show_nat n) \<le> Suc k"
proof (induction k arbitrary: n)
  case 0
  then show ?case by (subst show_nat.simps) simp
next
  case (Suc k)
  show ?case
  proof (cases "n < 10")
    case False
    have "n div 10 < 10 ^ Suc k" using Suc.prems by (simp add: less_mult_imp_div_less)
    with Suc.IH [of "n div 10"] False show ?thesis by (subst show_nat.simps) simp
  qed (subst show_nat.simps, simp)
qed

lemma length_show_word:
  "length (show_nat (unat (w :: 64 word))) \<le> 20" "length (show_nat (unat (v :: 32 word))) \<le> 10"
  "length (show_int (sint (t :: 64 word))) \<le> 21"
proof -
  have "unat w < 10 ^ Suc 19" using unsigned_less [of w, where ?'a = nat] by simp
  then show "length (show_nat (unat w)) \<le> 20" using length_show_nat [of "unat w" 19] by simp
  have "unat v < 10 ^ Suc 9" using unsigned_less [of v, where ?'a = nat] by simp
  then show "length (show_nat (unat v)) \<le> 10" using length_show_nat [of "unat v" 9] by simp
  have "- (2 ^ 63) \<le> sint t" "sint t < 2 ^ 63" using sint_greater_eq [of t] sint_less [of t] by simp_all
  then have "nat (sint t) < 10 ^ Suc 19" "nat (- sint t) < 10 ^ Suc 19" by auto
  then show "length (show_int (sint t)) \<le> 21"
    using length_show_nat [of "nat (sint t)" 19] length_show_nat [of "nat (- sint t)" 19]
    by (simp add: show_int_def)
qed

lemma draw_seed_length: "length (fst (draw_seed P p)) \<le> 32"
proof -
  obtain ms p1 where ms: "NowMs P p = (ms, p1)" by fastforce
  obtain tok w2 where tok: "random_device P (world p1) = (tok, w2)" by fastforce
  show ?thesis
    using length_show_word(3) [of ms] length_show_word(2) [of tok] by (simp add: draw_seed_def ms tok)
qed

text \<open>The seed of a process is one the generator has drawn.\<close>

definition seed_drawn :: "'w proc \<Rightarrow> bool" where
  "seed_drawn p \<longleftrightarrow> (case entity_seed p of None \<Rightarrow> True
     | Some seed \<Rightarrow> length seed \<le> 32 \<and> CHR ''/'' \<notin> set seed)"

lemma NextEntityId_seed_drawn: "seed_drawn p \<Longrightarrow> seed_drawn (snd (EntityStore_NextEntityId P pfx p))"
  using draw_seed_length [of P p] draw_seed_chars [of P p]
  by (cases "entity_seed p")
    (simp_all add: seed_drawn_def NextEntityId_seeded NextEntityId_unseeded case_prod_beta)

lemma minted_id_bound:
  assumes "seed_drawn p"
  shows "CHR ''/'' \<notin> set (fst (EntityStore_NextEntityId P kRoomIdPrefix p))"
    and "length (fst (EntityStore_NextEntityId P kRoomIdPrefix p)) \<le> 58"
    and "fst (EntityStore_NextEntityId P kRoomIdPrefix p) \<noteq> []"
proof -
  obtain seed where id: "fst (EntityStore_NextEntityId P kRoomIdPrefix p) =
      kRoomIdPrefix @ seed @ ''-'' @ show_nat (unat (entity_sequence p))"
    and "length seed \<le> 32" "CHR ''/'' \<notin> set seed"
  proof (cases "entity_seed p")
    case None
    with draw_seed_length [of P p] draw_seed_chars [of P p] that show thesis
      by (simp add: NextEntityId_unseeded case_prod_beta)
  next
    case (Some seed)
    with assms that show thesis by (simp add: NextEntityId_seeded seed_drawn_def)
  qed
  then show "CHR ''/'' \<notin> set (fst (EntityStore_NextEntityId P kRoomIdPrefix p))"
    "length (fst (EntityStore_NextEntityId P kRoomIdPrefix p)) \<le> 58"
    "fst (EntityStore_NextEntityId P kRoomIdPrefix p) \<noteq> []"
    using length_show_word(1) [of "entity_sequence p"] unfolding id by (simp_all add: kRoomIdPrefix_def)
qed

section \<open>Failure reports\<close>

text \<open>A failed command ends in an error notice, on the listener the command found.\<close>

definition noticed :: "'w platform \<Rightarrow> GcsStatus \<times> 'w ffi \<Rightarrow> 'w ffi \<Rightarrow> bool" where
  "noticed P r s \<longleftrightarrow> (\<exists>n t. snd r = Notice P n t \<and> same_listener (g_proc s) (g_proc t)
     \<and> (fst r = GCS_ERROR_INVALID_ARGUMENT \<and> t = s \<or> fst r = GCS_ERROR_GENERIC))"

definition reported :: "'w platform \<Rightarrow> GcsStatus \<times> 'w ffi \<Rightarrow> 'w ffi \<Rightarrow> bool" where
  "reported P r s \<longleftrightarrow> fst r = GCS_OK \<or> noticed P r s"

lemma reported_OK: "reported P (GCS_OK, t) s"
  by (simp add: reported_def)

lemma reported_invalid: "\<exists>n. r = (GCS_ERROR_INVALID_ARGUMENT, Notice P n s) \<Longrightarrow> reported P r s"
  by (auto simp: reported_def noticed_def intro: same_listener_refl)

lemma reported_notice: "reported P (GCS_ERROR_INVALID_ARGUMENT, Notice P n s) s"
  by (rule reported_invalid) blast

lemma reported_generic: "same_listener (g_proc s) (g_proc t) \<Longrightarrow> reported P (GCS_ERROR_GENERIC, Notice P n t) s"
  by (auto simp: reported_def noticed_def)

lemma SubscribeLive_failed:
  assumes "\<not> fst (SubscribeLive P t s)"
  obtains n u where "snd (SubscribeLive P t s) = Notice P n u" "same_listener (g_proc s) (g_proc u)"
proof -
  let ?s1 = "s\<lparr>g_inFlight := g_inFlight s + 1\<rparr>"
  let ?u = "s\<lparr>g_proc := snd (CoreSession_Subscribe P (the_session ?s1) t (g_proc s))\<rparr>"
  have "snd (SubscribeLive P t s) = Notice P (in_quotes ''live subscribe failed for room '' t) ?u"
    using assms by (simp add: SubscribeLive_def Let_def case_prod_beta Notice_def)
  moreover have "same_listener (g_proc s) (g_proc ?u)" by (simp add: same_listener_subscribe)
  ultimately show thesis by (rule that)
qed

lemma join_reported: "reported P (publish_join P t s) s"
proof (cases rule: publish_join_cases [of t P s])
  case (invalid n)
  then show ?thesis by (intro reported_invalid) blast
next
  case (unregistered p)
  then have "same_listener (g_proc s) p" using same_listener_register [of "g_proc s" P "the_session s" t] by simp
  with unregistered show ?thesis by (simp add: reported_generic)
next
  case (registered p)
  let ?s3 = "join_topics t (s\<lparr>g_proc := p\<rparr>)"
  let ?s5 = "PushMessageHistory P t (Post P (Ev_room_list (g_roomTopics ?s3)) ?s3)"
  have "same_listener (g_proc s) p"
    using same_listener_register [of "g_proc s" P "the_session s" t] registered by simp
  moreover have "same_listener p (g_proc ?s5)"
    using same_listener_PushMessageHistory [of "Post P (Ev_room_list (g_roomTopics ?s3)) ?s3" P t]
    by (simp add: same_listener_def frame_simps)
  ultimately have to5: "same_listener (g_proc s) (g_proc ?s5)" by (rule same_listener_trans)
  show ?thesis
  proof (cases "t \<in> set (g_roomTopics s) \<or> fst (SubscribeLive P t ?s5)")
    case True
    then show ?thesis by (auto simp: registered(3) Let_def case_prod_beta reported_def)
  next
    case False
    then obtain n u where "snd (SubscribeLive P t ?s5) = Notice P n u" "same_listener (g_proc ?s5) (g_proc u)"
      using SubscribeLive_failed by blast
    with False same_listener_trans [OF to5] show ?thesis
      by (simp add: registered(3) Let_def case_prod_beta reported_generic)
  qed
qed

lemma send_reported:
  assumes "m_sink (the_messaging s) = PostToDart P"
  shows "reported P (publish_send P t body s) s"
proof (cases "send_rejected t body s")
  case True
  then show ?thesis by (intro reported_invalid publish_send_invalid)
next
  case False
  obtain r m p where run: "Messaging_SendMessage P (the_session s) t body (the_messaging s) (g_proc s) = (r, m, p)"
    by (metis prod.collapse)
  have "same_listener (g_proc s) p"
    using same_listener_send [OF assms, of "g_proc s" "the_session s" t body] run by simp
  then show ?thesis
    by (simp add: publish_send_valid [OF False run] reported_OK reported_generic)
qed

lemma catalog_reported:
  "reported P (publish_create_space P name a b s) s"
  "reported P (publish_create_room P name parent s) s"
  "reported P (publish_update_space P ident name a b s) s"
proof -
  show "reported P (publish_create_space P name a b s) s"
  proof (cases "name_rejected name")
    case True
    then show ?thesis by (intro reported_invalid publish_create_space_invalid)
  next
    case False
    obtain r es p where run: "EntityStore_CreateSpace P (the_session s) name a b (the_entities s) (g_proc s) = (r, es, p)"
      by (metis prod.collapse)
    with same_listener_catalog(1) [of "g_proc s" P "the_session s" name a b "the_entities s"]
    have "same_listener (g_proc s) p" by simp
    then show ?thesis
      by (simp add: publish_create_space_valid [OF False run] Let_def reported_OK reported_generic)
  qed
  show "reported P (publish_create_room P name parent s) s"
  proof (cases "room_rejected name parent s")
    case True
    then show ?thesis by (intro reported_invalid publish_create_room_invalid)
  next
    case False
    obtain r es p where run: "EntityStore_CreateRoom P (the_session s) name parent (the_entities s) (g_proc s) = (r, es, p)"
      by (metis prod.collapse)
    with same_listener_catalog(2) [of "g_proc s" P "the_session s" name parent "the_entities s"]
    have "same_listener (g_proc s) p" by simp
    then show ?thesis
      by (simp add: publish_create_room_valid [OF False run] Let_def reported_OK reported_generic)
  qed
  show "reported P (publish_update_space P ident name a b s) s"
  proof (cases "ident = [] \<or> name_rejected name")
    case True
    then show ?thesis by (intro reported_invalid publish_update_space_invalid)
  next
    case False
    obtain r es p where run: "EntityStore_UpdateSpace P (the_session s) (desired_space ident name a b)
        (the_entities s) (g_proc s) = (r, es, p)" by (metis prod.collapse)
    with same_listener_catalog(3) [of "g_proc s" P "the_session s" "desired_space ident name a b" "the_entities s"]
    have "same_listener (g_proc s) p" by simp
    then show ?thesis
      by (simp add: publish_update_space_valid [OF False run] Let_def reported_OK reported_generic)
  qed
qed

lemma dispatch_reported:
  "m_sink (the_messaging s) = PostToDart P \<Longrightarrow> reported P (dispatch_command P c s) s"
  by (cases c) (auto simp: join_reported send_reported catalog_reported publish_not_set_def intro: reported_invalid)

text \<open>The gate of \<open>gcs_publish\<close>, open for a command.\<close>

lemma gcs_publish_open:
  assumes "ffi_ok P ssl s" and "handle_matches s h" and "payload \<noteq> []" and "length payload \<le> int_max"
  shows "gcs_publish P h (Some kCommandTopic) (Some payload) s =
    (case parse_command (proto P) payload of
       None \<Rightarrow> (GCS_ERROR_INVALID_ARGUMENT, Notice P ''GcsCommand parse failed'' s)
     | Some c \<Rightarrow> dispatch_command P c s)"
  using has_session [OF assms(1,2)] assms(2-4) by (auto simp: gcs_publish_def)

lemma wired_sink: "ffi_ok P ssl s \<Longrightarrow> g_session s \<noteq> None \<Longrightarrow> m_sink (the_messaging s) = PostToDart P"
  by (auto simp: the_messaging_def messaging_wired_def elim: ffi_okE)

section \<open>Joins and starts\<close>

lemma publish_join_result:
  assumes run: "publish_join P t s = (status, s')"
  shows "case status of
      GCS_OK \<Rightarrow> IsValidRoomTopicShape t \<and> length t \<le> kMaxTopicLength
        \<and> g_roomTopics s' = (if t \<in> set (g_roomTopics s) then g_roomTopics s else g_roomTopics s @ [t])
        \<and> t \<in> set (g_explicitTopics s') \<and> g_derivedTopics s' = g_derivedTopics s
        \<and> live_handlers (g_proc s') =
            (if t \<in> set (g_roomTopics s) then live_handlers (g_proc s) else live_handlers (g_proc s) @ [t])
    | GCS_ERROR_GENERIC \<Rightarrow> live_handlers (g_proc s') = live_handlers (g_proc s)
    | GCS_ERROR_INVALID_ARGUMENT \<Rightarrow> (\<not> IsValidRoomTopicShape t \<or> length t > kMaxTopicLength)
        \<and> g_roomTopics s' = g_roomTopics s
    | _ \<Rightarrow> False"
proof -
  have shape: "t = [] \<Longrightarrow> \<not> IsValidRoomTopicShape t" by (simp add: IsValidRoomTopicShape_def)
  show ?thesis
  proof (cases rule: publish_join_cases [of t P s])
    case (invalid n)
    with run shape show ?thesis by (auto simp: join_rejected_def)
  next
    case (unregistered p)
    with live_handlers_register [of P "the_session s" t "g_proc s"] run show ?thesis by (auto simp: frame_simps)
  next
    case (registered p)
    have live: "live_handlers p = live_handlers (g_proc s)"
      using live_handlers_register [of P "the_session s" t "g_proc s"] registered(2) by simp
    have valid: "IsValidRoomTopicShape t" "length t \<le> kMaxTopicLength" "t \<noteq> []"
      using registered(1) by (auto simp: join_rejected_def)
    show ?thesis
      using run valid unfolding registered(3)
      by (auto simp: Let_def case_prod_beta live_handlers_SubscribeLive live frame_simps add_topic_def join_topics_def
          split: if_splits)
  qed
qed

lemma gcs_init_result:
  assumes ok: "ffi_ok P ssl s" and "gcs_init P ssl configBytes s = (r, s')"
  shows "case r of
      None \<Rightarrow> g_session s' = g_session s \<and> g_roomTopics s' = g_roomTopics s
        \<and> (g_session s = None \<or> g_tearingDown s)
    | Some a \<Rightarrow> (\<exists>cs. g_session s' = Some (a, cs) \<and> CoreSession_IsRunning cs)
        \<and> (case g_session s of
             None \<Rightarrow> \<not> g_receivingDisabled s' \<and> {kSmokeTopicA, kSmokeTopicB} \<inter> set (g_roomTopics s') \<noteq> {}
           | Some (a0, _) \<Rightarrow> a = a0 \<and> s' = s\<lparr>g_apiDlInitialized := True\<rparr>)
        \<and> gcs_init P ssl otherBytes s' = (Some a, s')"
proof (cases "g_session s")
  case (Some x)
  obtain a0 cs where x: "x = (a0, cs)" by fastforce
  from ok Some x have run: "CoreSession_IsRunning cs" by (auto elim: ffi_okE)
  show ?thesis
  proof (cases "g_tearingDown s")
    case True
    with assms(2) Some show ?thesis by (auto simp: gcs_init_def)
  next
    case False
    with gcs_init_existing [of s a0 cs] Some x assms(2) run show ?thesis
      by (auto simp: gcs_init_existing)
  qed
next
  case None
  from ok None show ?thesis
  proof (cases rule: gcs_init_new_cases [where b = configBytes])
    case (booted config bt h p)
    let ?s1 = "s\<lparr>g_apiDlInitialized := True, g_sdkBootedHere := bt, g_exitHookRegistered := h, g_proc := p\<rparr>"
    have ok1: "ffi_ok P ssl ?s1" and none1: "g_session ?s1 = None" using ok None by simp_all
    from ok1 none1 show ?thesis
    proof (cases rule: init_session_cases [where config = config])
      case (running a cs joined q)
      let ?s2 = "?s1\<lparr>g_roomTopics := joined, g_proc := q\<rparr>"
      have r: "r = Some a" "s' = init_components P ssl a cs ?s2"
        using assms(2) booted(2) running(6) by simp_all
      have der: "g_derivedTopics ?s2 = []" using ffi_ok_no_session [OF ok None] by simp
      note eff = init_components_effect [OF der, of P ssl a cs]
      have "topics_ok ?s2" using ffi_ok_no_session [OF ok None] running(5) by (simp add: topics_ok_def)
      then have ses: "g_session s' = Some (a, cs)"
        using init_components_ok(2) [OF _ running(1,2)] r by blast
      moreover have "\<not> g_tearingDown s'" "g_apiDlInitialized s'" "\<not> g_receivingDisabled s'"
        "set joined \<subseteq> set (g_roomTopics s')"
        using eff booted(1) r by simp_all
      moreover have "s'\<lparr>g_apiDlInitialized := True\<rparr> = s'"
        using \<open>g_apiDlInitialized s'\<close> by (cases s') simp
      ultimately show ?thesis
        using gcs_init_existing [OF ses, of P ssl otherBytes] running(2-4) None r(1)
        by (cases joined) auto
    qed (use assms(2) booted(2) None in auto)
  qed (use assms(2) None in auto)
qed

text \<open>A start registers live handlers for derived topics only.\<close>

lemma init_live_handlers:
  assumes "ffi_ok P ssl s" and "g_session s = None" and "gcs_init P ssl b s = (Some a, s')"
  shows "set (live_handlers (g_proc s')) \<subseteq> set (live_handlers (g_proc s)) \<union>
    set (EntityStore_DerivedJoinedTopics (the_entities s'))"
  using assms(1,2)
proof (cases rule: gcs_init_new_cases [where b = b])
  case (booted config bt h p)
  let ?s1 = "s\<lparr>g_apiDlInitialized := True, g_sdkBootedHere := bt, g_exitHookRegistered := h, g_proc := p\<rparr>"
  obtain ad w1 where a: "new_address P (world p) = (ad, w1)" by fastforce
  obtain r cs p2 where i: "CoreSession_Initialize P (CoreSession_new (cfg_db_path config)) (p\<lparr>world := w1\<rparr>) = (r, cs, p2)"
    by (metis prod.collapse)
  obtain joined p3 where j: "join_smoke P cs [kSmokeTopicA, kSmokeTopicB] p2 = (joined, p3)" by fastforce
  have "gdb_ok (cs_db (CoreSession_new (cfg_db_path config)))" by (simp add: CoreSession_new_def)
  from Initialize_handlers [OF this, of P "p\<lparr>world := w1\<rparr>"] i booted(3)
  have p2: "live_handlers p2 = live_handlers (g_proc s)" by simp
  have p3: "live_handlers p3 = live_handlers p2" using join_smoke_handlers [of P cs "[kSmokeTopicA, kSmokeTopicB]" p2] j by simp
  have der: "g_derivedTopics ?s1 = []" using ffi_ok_no_session [OF assms(1,2)] by simp
  have "has_value r" "joined \<noteq> []" and s': "s' = init_components P ssl ad cs (?s1\<lparr>g_roomTopics := g_roomTopics ?s1 @ joined, g_proc := p3\<rparr>)"
    using assms(3) booted(2) a i j by (auto simp: init_session_def Let_def case_prod_beta split: if_splits)
  from der have "g_derivedTopics (?s1\<lparr>g_roomTopics := g_roomTopics ?s1 @ joined, g_proc := p3\<rparr>) = []" by simp
  from init_components_effect(2) [OF this, of P ssl ad cs] p2 p3 show ?thesis unfolding s' by simp
qed (use assms(3) in auto)

section \<open>Shutdown\<close>

text \<open>Everything a shutdown with nothing in flight does.\<close>

lemma gcs_shutdown_effect:
  assumes ok: "ffi_ok P ssl s" and "g_session s = Some (a, cs)" and "g_messaging s = Some m" and "g_inFlight s = 0"
  shows "\<exists>s'. gcs_shutdown P (Some a) s = Some s'
    \<and> g_session s' = None \<and> g_entities s' = None \<and> g_messaging s' = None \<and> g_roomTopics s' = []
    \<and> g_receivingDisabled s' \<and> \<not> g_tearingDown s' \<and> \<not> g_sdkBootedHere s'
    \<and> g_proc s' = (let p1 = (g_proc s)\<lparr>dart_port := 0\<rparr>;
          p2 = (if g_sdkBootedHere s then p1\<lparr>world := sdk_shutdown P (world p1)\<rparr> else p1);
          p3 = foldl (\<lambda>p (key, val). snd (CoreSession_Put P cs key val p)) p2 (m_archiveQueue m)
        in p3\<lparr>world := globaldb_shutdown_now P (the (m_db (cs_db cs))) (world p3)\<rparr>)
    \<and> live_bridge P t d s' = s' \<and> heal_bridge P k v s' = (True, s') \<and> gcs_shutdown P h s' = Some s'"
proof -
  from ok assms(2) have gdb: "gdb_ok (cs_db cs)" and run: "m_running (cs_db cs)"
    by (auto simp: CoreSession_IsRunning_def GcsGlobalDb_IsRunning_def elim: ffi_okE)
  from gdb_ok_running [OF gdb run] obtain hd where db: "m_db (cs_db cs) = Some hd" by blast
  have down: "CoreSession_Shutdown P cs p = (cs\<lparr>cs_db := GcsGlobalDb_new (m_dbPath (cs_db cs))\<rparr>,
      p\<lparr>world := globaldb_shutdown_now P hd (world p)\<rparr>)" for p
    using Shutdown_running [OF gdb run, of P p] run db
    by (simp add: CoreSession_Shutdown_def CoreSession_IsRunning_def GcsGlobalDb_IsRunning_def case_prod_beta)
  have destroy: "Messaging_destroy P cs m p = Some (m\<lparr>m_archiveStopped := True, m_archiveQueue := []\<rparr>,
      foldl (\<lambda>p (key, val). snd (CoreSession_Put P cs key val p)) p (m_archiveQueue m))" for p
    using ArchiveWorker_drains [of "m\<lparr>m_archiveStopped := True\<rparr>" P cs p]
    by (simp add: Messaging_destroy_def write_out_def)
  have stopped: "CoreSession_destroy P (cs\<lparr>cs_db := GcsGlobalDb_new path\<rparr>) p = p" for path p
    by (simp add: CoreSession_destroy_def CoreSession_IsRunning_def GcsGlobalDb_IsRunning_def)
  show ?thesis
    using assms(2-4)
    by (simp add: gcs_shutdown_def handle_matches_def TeardownSessionAndNode_def evict_globals_def destroy_evicted_def
        the_messaging_def down destroy stopped shutdown_sdk_def db live_bridge_def heal_bridge_def Let_def)
qed

section \<open>Operations in flight\<close>

text \<open>What an exception of the replicated delivery leaves behind.\<close>

lemma ffi_step_inFlight: "ffi_step P ssl s t \<Longrightarrow> g_inFlight t = g_inFlight s \<or> g_inFlight t = g_inFlight s + 1"
proof (induction rule: ffi_step.induct)
  case (init s b)
  have boot: "g_inFlight (snd (EnsureSdkBooted P c s)) = g_inFlight s" for c s
    using EnsureSdkBooted_shape [of P c s] by auto
  have ses: "g_inFlight (snd (init_session P ssl c s)) = g_inFlight s" for c s
    by (simp add: init_session_def init_components_def Let_def case_prod_beta)
  show ?case
    by (simp add: gcs_init_def Let_def case_prod_beta boot ses split: option.split bool.split)
next
  case (publish s h topic payload)
  have "g_inFlight (snd (dispatch_command P c s)) = g_inFlight s" for c
  proof (cases c)
    case (JoinTopic t)
    then show ?thesis by (cases rule: publish_join_cases [of t P s]) (simp_all add: Let_def case_prod_beta)
  next
    case (SendText t body)
    then show ?thesis by (simp add: publish_send_def Let_def case_prod_beta)
  qed (simp_all add: publish_create_space_def publish_create_room_def publish_update_space_def publish_not_set_def
      Let_def case_prod_beta)
  then show ?case by (simp add: gcs_publish_def split: option.split)
next
  case (subscribe s h topic port)
  then show ?case by (simp add: gcs_subscribe_def Let_def)
next
  case (shutdown h s t)
  then show ?case
    by (auto simp: gcs_shutdown_def TeardownSessionAndNode_def evict_globals_def Let_def case_prod_beta
        split: if_splits option.splits)
next
  case (exit lk st now s t)
  then show ?case
    by (auto simp: exit_hook_def TeardownSessionAndNode_def evict_globals_def Let_def case_prod_beta
        split: if_splits option.splits prod.splits)
next
  case (live s topic data)
  then show ?case by (simp add: live_bridge_def Let_def case_prod_beta split: option.split)
next
  case (heal s key val)
  then show ?case by (simp add: heal_bridge_def Let_def case_prod_beta split: option.split)
next
  case (archive s)
  then show ?case by (simp add: archive_turn_def split: option.split worker_turn.split)
qed simp

lemma steps_inFlight:
  "(ffi_step P ssl ^^ n) s t \<Longrightarrow> unat (g_inFlight s) + n < 2 ^ 32 \<Longrightarrow>
   unat (g_inFlight s) \<le> unat (g_inFlight t) \<and> unat (g_inFlight t) \<le> unat (g_inFlight s) + n"
proof (induction n arbitrary: t)
  case (Suc n)
  then obtain u where u: "(ffi_step P ssl ^^ n) s u" "ffi_step P ssl u t" by auto
  with Suc have IH: "unat (g_inFlight s) \<le> unat (g_inFlight u)" "unat (g_inFlight u) \<le> unat (g_inFlight s) + n" by auto
  with Suc.prems(2) have "unat (g_inFlight u + 1) = Suc (unat (g_inFlight u))"
    by (simp add: unat_word_ariths)
  with IH ffi_step_inFlight [OF u(2)] show ?case by auto
qed simp

end
