(* ===== verification/FfiProps.thy ===== *)
theory FfiProps
  imports FfiOutcomes MessagingProps
begin

text \<open>
  Properties of the C boundary (\<open>src/ffi/gcs_core_ffi.cpp\<close>, \<open>gcs_core.h\<close>): the invariant of all
  runs, the reporting of failures, joins and their subscriptions, derived joins, starting and ending
  a session, and the checks on names and topics. The witnesses start the library on the reference
  platform.
\<close>

section \<open>Reference states\<close>

definition ref_config :: bytes where
  "ref_config = enc_fields [''data/db'', ''1'', []]"

definition ref_ffi0 :: "ref_world ffi" where
  "ref_ffi0 = ffi_loaded (ref_proc ref_world0)"

definition ref_cs :: core_session where
  "ref_cs = \<lparr>cs_dbPath = ''data/db'', cs_db = \<lparr>m_dbPath = ''data/db'', m_io = True, m_scheduler = True,
     m_graphsyncNetwork = Some 3, m_generator = True, m_db = Some 1, m_pubsub = Some 2,
     m_ioThread = True, m_running = True\<rparr>\<rparr>"

definition ref_world1 :: ref_world where
  "ref_world1 = ref_world0\<lparr>rw_node := Some 9, rw_next := 5\<rparr>"

text \<open>The library started on the reference platform, without and with a listener.\<close>

definition ref_ffi1 :: "ref_world ffi" where
  "ref_ffi1 = \<lparr>g_session = Some (4, ref_cs), g_entities = Some EntityStore_new, g_messaging = Some ref_alice,
     g_roomTopics = [kSmokeTopicA, kSmokeTopicB], g_derivedTopics = [], g_explicitTopics = [],
     g_sdkBootedHere = True, g_exitHookRegistered = True, g_apiDlInitialized = True, g_inFlight = 0,
     g_receivingDisabled = False, g_tearingDown = False,
     g_proc = (ref_proc ref_world1)\<lparr>heal_handlers := [kMessagesKeyCallbackPattern]\<rparr>\<rparr>"

definition ref_ffi2 :: "ref_world ffi" where
  "ref_ffi2 = snd (gcs_subscribe ref_platform (Some 4) (Some ''events'') 5 ref_ffi1)"

lemma ref_cs_facts [simp]: "CoreSession_IsRunning ref_cs" "m_running (cs_db ref_cs)" "m_db (cs_db ref_cs) = Some 1"
  "m_pubsub (cs_db ref_cs) = Some 2" "gdb_ok (cs_db ref_cs)"
  by (simp_all add: ref_cs_def CoreSession_IsRunning_def GcsGlobalDb_IsRunning_def gdb_ok_def)

lemma ref_register [simp]: "m_running (cs_db cs) \<Longrightarrow> register_topic ref_platform cs t p = (True, p)"
  by (simp add: register_topic_def core_topic_defs with_db_def) (simp add: ref_platform_def)

lemma ref_production: "production_messaging ref_platform ref_ssl w = ref_alice"
  by (simp add: production_messaging_def ref_alice_def ref_seam_def) (simp add: ref_platform_def)

lemma ref_boot: "EnsureSdkBooted ref_platform config (ref_ffi0\<lparr>g_apiDlInitialized := True\<rparr>) =
    (True, ref_ffi0\<lparr>g_apiDlInitialized := True, g_sdkBootedHere := True, g_exitHookRegistered := True,
       g_proc := ref_proc (ref_world0\<lparr>rw_node := Some 9\<rparr>)\<rparr>)"
  by (simp add: EnsureSdkBooted_def ref_ffi0_def ffi_loaded_def ref_platform_def ref_proc_def ref_world0_def Let_def)

lemma ref_Initialize: "CoreSession_Initialize ref_platform (CoreSession_new ''data/db'') (ref_proc ref_world1) =
    (Inr (), ref_cs, ref_proc ref_world1)"
  by (simp add: CoreSession_Initialize_def CoreSession_new_def GcsGlobalDb_new_def GcsGlobalDb_Initialize_def
      GcsGlobalDb_Initialize_injected_def ref_platform_def ref_proc_def ref_world1_def ref_cs_def Let_def)

lemma ref_load: "EntityStore_LoadFromStore ref_platform ref_cs es ((ref_proc ref_world1)\<lparr>heal_handlers := x\<rparr>) =
    (Inr (), EntityStore_new)"
  by (simp add: EntityStore_LoadFromStore_def CoreSession_Get_def GcsGlobalDb_Get_def)
    (simp add: ref_platform_def ref_proc_def ref_world1_def ref_world0_def)

lemma ref_components: "init_components ref_platform ref_ssl 4 ref_cs (ref_ffi0\<lparr>g_apiDlInitialized := True,
      g_sdkBootedHere := True, g_exitHookRegistered := True, g_roomTopics := [kSmokeTopicA, kSmokeTopicB],
      g_proc := ref_proc ref_world1\<rparr>) = ref_ffi1"
proof -
  have "CoreSession_RegisterNewElementCallback ref_platform ref_cs kMessagesKeyCallbackPattern (ref_proc ref_world1) =
      (Inr (), (ref_proc ref_world1)\<lparr>heal_handlers := [kMessagesKeyCallbackPattern]\<rparr>)"
    by (simp add: CoreSession_RegisterNewElementCallback_def GcsGlobalDb_RegisterNewElementCallback_def)
      (simp add: ref_platform_def ref_proc_def)
  moreover have "EntityStore_DerivedJoinedTopics EntityStore_new = []"
    by (simp add: EntityStore_DerivedJoinedTopics_def EntityStore_Rooms_def EntityStore_new_def)
  ultimately show ?thesis
    by (simp add: init_components_def ref_production ref_load RefreshDerivedJoins_def refresh_evict_eq the_entities_def
        ref_ffi1_def ref_ffi0_def ffi_loaded_def Let_def)
qed

lemma ref_init: "gcs_init ref_platform ref_ssl (Some ref_config) ref_ffi0 = (Some 4, ref_ffi1)"
proof -
  let ?s = "ref_ffi0\<lparr>g_apiDlInitialized := True, g_sdkBootedHere := True, g_exitHookRegistered := True,
      g_proc := ref_proc (ref_world0\<lparr>rw_node := Some 9\<rparr>)\<rparr>"
  let ?cfg = "\<lparr>cfg_db_path = ''data/db'', cfg_codec = CODEC_PROTOBUF, cfg_mnemonic = []\<rparr>"
  have parse: "parse_config ref_codec ref_config = Some ?cfg"
    unfolding ref_config_def by (simp add: ref_codec_def parse_with_def config_of_fields_def)
  have small: "\<not> length ref_config > int_max" "ref_config \<noteq> []"
    by (simp_all add: ref_config_def enc_fields_def int_max_def)
  have addr: "new_address ref_platform (world (g_proc ?s)) = (4, ref_world1)"
    by (simp add: ref_platform_def ref_proc_def ref_world1_def ref_world0_def)
  have world: "(ref_proc (ref_world0\<lparr>rw_node := Some 9\<rparr>))\<lparr>world := ref_world1\<rparr> = ref_proc ref_world1"
    by (simp add: ref_proc_def)
  have "init_session ref_platform ref_ssl ?cfg ?s = (Some 4, ref_ffi1)"
    using addr world ref_Initialize ref_components
    by (simp add: init_session_def Let_def) (simp add: ref_ffi0_def ffi_loaded_def)
  then show ?thesis
    using parse small ref_boot by (simp add: gcs_init_def Let_def) (simp add: ref_ffi0_def ffi_loaded_def)
qed

lemma ref_reachable: "ffi_reachable ref_platform ref_ssl ref_ffi0" "ffi_reachable ref_platform ref_ssl ref_ffi1"
  "ffi_reachable ref_platform ref_ssl ref_ffi2"
proof -
  show r0: "ffi_reachable ref_platform ref_ssl ref_ffi0" unfolding ref_ffi0_def by (rule ffi_reachable.loaded)
  show r1: "ffi_reachable ref_platform ref_ssl ref_ffi1"
    using ffi_reachable.step [OF r0 ffi_step.init [of ref_platform ref_ssl ref_ffi0 "Some ref_config"]] by (simp add: ref_init)
  show "ffi_reachable ref_platform ref_ssl ref_ffi2"
    unfolding ref_ffi2_def by (rule ffi_reachable.step [OF r1 ffi_step.subscribe])
qed

lemma ref_ffi1_facts [simp]: "handle_matches ref_ffi1 (Some 4)" "g_session ref_ffi1 = Some (4, ref_cs)"
  "the_session ref_ffi1 = ref_cs" "g_roomTopics ref_ffi1 = [kSmokeTopicA, kSmokeTopicB]"
  "g_derivedTopics ref_ffi1 = []" "g_explicitTopics ref_ffi1 = []" "the_entities ref_ffi1 = EntityStore_new"
  "g_inFlight ref_ffi1 = 0" "\<not> g_receivingDisabled ref_ffi1" "\<not> g_tearingDown ref_ffi1"
  "g_messaging ref_ffi1 = Some ref_alice" "live_handlers (g_proc ref_ffi1) = []"
  by (simp_all add: ref_ffi1_def handle_matches_def the_session_def the_entities_def ref_proc_def)

lemma ref_ffi2_eq: "ref_ffi2 = ref_ffi1\<lparr>g_proc := g_proc ref_ffi2\<rparr>"
  by (simp add: ref_ffi2_def gcs_subscribe_def Let_def Post_def)

lemma ref_ffi2_facts [simp]: "handle_matches ref_ffi2 (Some 4)" "g_session ref_ffi2 = Some (4, ref_cs)"
  "the_session ref_ffi2 = ref_cs" "g_roomTopics ref_ffi2 = [kSmokeTopicA, kSmokeTopicB]"
  "g_messaging ref_ffi2 = Some ref_alice" "dart_attached (g_proc ref_ffi2)"
  "live_handlers (g_proc ref_ffi2) = []"
proof -
  show "handle_matches ref_ffi2 (Some 4)" "g_session ref_ffi2 = Some (4, ref_cs)"
    "the_session ref_ffi2 = ref_cs" "g_roomTopics ref_ffi2 = [kSmokeTopicA, kSmokeTopicB]"
    "g_messaging ref_ffi2 = Some ref_alice"
    by (subst ref_ffi2_eq, simp add: handle_matches_def the_session_def)+
  show "dart_attached (g_proc ref_ffi2)" "live_handlers (g_proc ref_ffi2) = []"
    by (simp_all add: ref_ffi2_def gcs_subscribe_def Let_def frame_simps)
      (simp add: dart_attached_def ref_ffi1_def ref_proc_def)
qed

lemma ref_ok: "ffi_ok ref_platform ref_ssl ref_ffi1" "ffi_ok ref_platform ref_ssl ref_ffi2"
  using ref_reachable ffi_reachable_inv by blast+

section \<open>Properties\<close>

text \<open>C4: in every state the library can reach, whatever calls, deliveries, archive turns, exits and remote changes came
  before, the joined topics are distinct and contain the derived and the explicitly joined ones; with no session
  nothing is joined and no component exists; with a session it runs, the catalog is well formed, and the messaging
  component posts to Dart and encrypts with the OpenSSL adapter.\<close>

theorem ffi_invariant:
  assumes "ffi_reachable P ssl s"
  shows "distinct (g_roomTopics s) \<and> distinct (g_derivedTopics s) \<and> distinct (g_explicitTopics s)
    \<and> set (g_derivedTopics s) \<subseteq> set (g_roomTopics s) \<and> set (g_explicitTopics s) \<subseteq> set (g_roomTopics s)
    \<and> (case g_session s of
         None \<Rightarrow> g_entities s = None \<and> g_messaging s = None \<and> g_roomTopics s = []
       | Some (_, cs) \<Rightarrow> CoreSession_IsRunning cs \<and> (\<exists>es. g_entities s = Some es \<and> es_ok es)
           \<and> (\<exists>m. g_messaging s = Some m \<and> m_sink m = PostToDart P \<and> m_encryptionEnabled m
                \<and> seam_encrypt (m_crypto m) = Some (EncryptPayload ssl)
                \<and> seam_decrypt (m_crypto m) = Some (DecryptPayload ssl) \<and> distinct (m_seenIds m)))"
proof -
  have "ffi_ok P ssl s" using assms by (rule ffi_reachable_inv)
  then show ?thesis
    by (auto simp: ffi_ok_def topics_ok_def components_ok_def messaging_wired_def messaging_ok_def split: option.split)
qed

theorem ffi_invariant_witness:
  "ffi_reachable ref_platform ref_ssl ref_ffi2 \<and> g_session ref_ffi2 = Some (4, ref_cs)
    \<and> distinct (g_roomTopics ref_ffi2) \<and> g_roomTopics ref_ffi2 \<noteq> []"
  using ref_reachable(3) ffi_invariant [OF ref_reachable(3)] by simp

text \<open>A subscription on a session registers the port and pushes to it the space tree, then the room list, then
  readiness, and does nothing else.\<close>

theorem gcs_subscribe_pushes:
  assumes "ffi_reachable P ssl s" and "handle_matches s h" and "port \<noteq> 0" and "dart_post_dl (g_proc s)"
  shows "gcs_subscribe P h (Some topic) port s =
    (GCS_OK, s\<lparr>g_proc := (g_proc s)\<lparr>dart_port := port, posted := posted (g_proc s) @
       [(port, SerializeGcsEvent P (Ev_space_tree (EntityStore_Spaces (the_entities s)) (EntityStore_Rooms (the_entities s)))),
        (port, SerializeGcsEvent P (Ev_room_list (g_roomTopics s))),
        (port, SerializeGcsEvent P (Ev_readiness True))]\<rparr>\<rparr>)"
proof -
  have ok: "ffi_ok P ssl s" using assms(1) by (rule ffi_reachable_inv)
  from has_session [OF ok assms(2)] have "CoreSession_IsRunning (the_session s)" by auto
  then show ?thesis
    using assms(2-4)
    by (simp add: gcs_subscribe_def Let_def Post_def BuildSpaceTreeEvent_def BuildRoomListEvent_def the_entities_def
        PostToDart_attached dart_attached_def)
qed

theorem gcs_subscribe_pushes_witness:
  "fst (gcs_subscribe ref_platform (Some 4) (Some ''events'') 5 ref_ffi1) = GCS_OK
    \<and> length (posted (g_proc (snd (gcs_subscribe ref_platform (Some 4) (Some ''events'') 5 ref_ffi1)))) = 3"
proof -
  have "dart_post_dl (g_proc ref_ffi1)" "posted (g_proc ref_ffi1) = []"
    by (simp_all add: ref_ffi1_def ref_proc_def)
  then show ?thesis
    using gcs_subscribe_pushes [OF ref_reachable(2), of "Some 4" 5 "''events''"] by simp
qed

text \<open>C34: at process exit the try-lock loop ends after at most 201 attempts ten milliseconds apart, with the first
  attempt that took the lock, or with none when its two second budget is spent.\<close>

theorem exit_lock_bounded:
  assumes "start \<le> now 0" and "\<And>i. now (Suc i) \<ge> now i + kExitLockRetryInterval_ms"
  shows "\<exists>acquired n. TryAcquireExitLockBounded try_lock start now = Some (acquired, n) \<and> n \<le> 200
    \<and> (acquired \<longleftrightarrow> try_lock n) \<and> (\<forall>j < n. \<not> try_lock j)"
  using exit_lock_loop_bound [of now "start + kExitTeardownDrainTimeout_ms" 0 200 try_lock, OF assms(2)] assms(1)
  by (auto simp: TryAcquireExitLockBounded_def kExitTeardownDrainTimeout_ms_def)

theorem exit_lock_bounded_witness:
  "\<exists>acquired n. TryAcquireExitLockBounded (\<lambda>i. i = 7) 0 (\<lambda>i. 10 * int i) = Some (acquired, n) \<and> n \<le> 200"
  using exit_lock_bounded [of 0 "\<lambda>i. 10 * int i" "\<lambda>i. i = 7"] by (simp add: kExitLockRetryInterval_ms_def) blast


lemma ref_accepts: "broadcasts_accepted ref_platform"
  by (simp add: broadcasts_accepted_def ref_platform_def)


text \<open>Names are bounded in code points: the three commands that take a name refuse exactly the empty one and those of
  more than 64 code points (and an update without a space id), however many bytes the encoding takes.\<close>

theorem name_limit_code_points:
  assumes "list_all (\<lambda>cp. cp < 0x110000) cps" and "name = concat (map utf8_encode cps)"
  shows "(fst (publish_create_space P name pub auto s) = GCS_ERROR_INVALID_ARGUMENT \<longleftrightarrow> cps = [] \<or> length cps > 64)
    \<and> (fst (publish_create_room P name [] s) = GCS_ERROR_INVALID_ARGUMENT \<longleftrightarrow> cps = [] \<or> length cps > 64)
    \<and> (fst (publish_update_space P ident name pub auto s) = GCS_ERROR_INVALID_ARGUMENT
         \<longleftrightarrow> ident = [] \<or> cps = [] \<or> length cps > 64)"
  using encoded_name_rejected [OF assms(1)]
  by (simp add: create_space_status create_room_status update_space_status room_rejected_def assms(2))

theorem name_limit_code_points_witness:
  "fst (publish_create_space ref_platform (concat (map utf8_encode (replicate 30 0x4E2D))) True False ref_ffi2)
      \<noteq> GCS_ERROR_INVALID_ARGUMENT
    \<and> length (concat (map utf8_encode (replicate 30 0x4E2D))) = 90"
proof -
  have "length (concat (map utf8_encode (replicate 30 0x4E2D))) = 90"
    by (simp add: utf8_encode_def length_concat sum_list_replicate)
  moreover have "list_all (\<lambda>cp. cp < 0x110000) (replicate 30 (0x4E2D :: nat))" by (simp add: list_all_iff)
  ultimately show ?thesis
    using name_limit_code_points [OF _ refl, where P = ref_platform and s = ref_ffi2 and pub = True and auto = False
      and cps = "replicate 30 0x4E2D"] by simp
qed

text \<open>The topic of a freshly minted room passes the checks of join and send: it has the one-segment shape and at most
  128 bytes; the generator stays in the state that guarantees it.\<close>

theorem minted_topics_accepted:
  assumes "seed_drawn p" and "EntityStore_NextEntityId P kRoomIdPrefix p = (ident, q)"
  shows "IsValidRoomTopicShape (kRoomTopicPrefix @ ident) \<and> length (kRoomTopicPrefix @ ident) \<le> kMaxTopicLength
    \<and> kRoomTopicPrefix = kRoomTopicNamespace \<and> seed_drawn q"
  using minted_id_bound [OF assms(1), of P] NextEntityId_seed_drawn [OF assms(1), of P kRoomIdPrefix] assms(2)
  by (simp add: IsValidRoomTopicShape_def kRoomTopicPrefix_def kRoomTopicNamespace_def kMaxTopicLength_def)

theorem minted_topics_accepted_witness:
  "\<exists>ident q. EntityStore_NextEntityId ref_platform kRoomIdPrefix (ref_proc ref_world0) = (ident, q)
    \<and> length (kRoomTopicPrefix @ ident) \<le> kMaxTopicLength"
proof -
  obtain ident q where run: "EntityStore_NextEntityId ref_platform kRoomIdPrefix (ref_proc ref_world0) = (ident, q)"
    by fastforce
  have "seed_drawn (ref_proc ref_world0)" by (simp add: seed_drawn_def ref_proc_def)
  from minted_topics_accepted [OF this run] run show ?thesis by blast
qed

text \<open>C28: for topics of the accepted shape the key prefix a history scan uses covers exactly the archive keys of its own
  room: no room's scan returns another room's records.\<close>

theorem archive_keys_unambiguous:
  assumes "IsValidRoomTopicShape a" and "IsValidRoomTopicShape b" and "CHR ''/'' \<notin> set ident"
  shows "prefix (kMessagesKeyPrefix @ a @ ''/'') (BuildKey b ident) \<longleftrightarrow> a = b"
  using assms by (rule scan_prefix_valid)

theorem archive_keys_unambiguous_witness:
  "\<not> prefix (kMessagesKeyPrefix @ kSmokeTopicA @ ''/'') (BuildKey kSmokeTopicB ''msg-1-2-3'')"
  using archive_keys_unambiguous [of kSmokeTopicA kSmokeTopicB "''msg-1-2-3''"]
  by (simp add: IsValidRoomTopicShape_def kSmokeTopicA_def kSmokeTopicB_def kRoomTopicNamespace_def)

text \<open>C26: a command that fails past the argument checks tells the listener: an invalid one changes nothing but one pushed
  error notice, and a failing one ends with an error notice as the last push; no other status occurs.\<close>

theorem publish_reports_failures:
  assumes "ffi_reachable P ssl s" and "handle_matches s h" and "payload \<noteq> []" and "length payload \<le> int_max"
    and "dart_attached (g_proc s)" and "gcs_publish P h (Some kCommandTopic) (Some payload) s = (status, s')"
  shows "status = GCS_OK
    \<or> (\<exists>n. status = GCS_ERROR_INVALID_ARGUMENT \<and> s' = Notice P n s)
    \<or> (\<exists>n before. status = GCS_ERROR_GENERIC
         \<and> posted (g_proc s') = before @ [(dart_port (g_proc s), SerializeGcsEvent P (Ev_error n))])"
proof -
  have ok: "ffi_ok P ssl s" using assms(1) by (rule ffi_reachable_inv)
  from has_session [OF ok assms(2)] have "g_session s \<noteq> None" by auto
  then have sink: "m_sink (the_messaging s) = PostToDart P" by (rule wired_sink [OF ok])
  have "reported P (gcs_publish P h (Some kCommandTopic) (Some payload) s) s"
    using dispatch_reported [OF sink]
    by (simp add: gcs_publish_open [OF ok assms(2-4)] reported_notice split: option.split)
  then have "status = GCS_OK \<or> noticed P (status, s') s" using assms(6) by (simp add: reported_def)
  then show ?thesis
  proof
    assume "noticed P (status, s') s"
    then obtain n t where t: "s' = Notice P n t" "same_listener (g_proc s) (g_proc t)"
      and st: "status = GCS_ERROR_INVALID_ARGUMENT \<and> t = s \<or> status = GCS_ERROR_GENERIC"
      by (auto simp: noticed_def)
    then have "dart_attached (g_proc t)" "dart_port (g_proc t) = dart_port (g_proc s)"
      using assms(5) by (simp_all add: same_listener_attached) (simp add: same_listener_def)
    with t st show ?thesis by (auto simp: PostErrorNotice_def PostToDart_attached)
  qed simp
qed

text \<open>C23: a join that succeeds lists its topic once, marks it explicit, and registers one live handler exactly when the
  topic was not yet listed; a failed join registers none; an invalid one is refused by shape or length only.\<close>

theorem join_effect:
  assumes "ffi_reachable P ssl s" and "handle_matches s h" and "payload \<noteq> []" and "length payload \<le> int_max"
    and "parse_command (proto P) payload = Some (JoinTopic t)"
    and "gcs_publish P h (Some kCommandTopic) (Some payload) s = (status, s')"
  shows "case status of
      GCS_OK \<Rightarrow> IsValidRoomTopicShape t \<and> length t \<le> kMaxTopicLength
        \<and> g_roomTopics s' = (if t \<in> set (g_roomTopics s) then g_roomTopics s else g_roomTopics s @ [t])
        \<and> t \<in> set (g_explicitTopics s') \<and> g_derivedTopics s' = g_derivedTopics s
        \<and> live_handlers (g_proc s') =
            (if t \<in> set (g_roomTopics s) then live_handlers (g_proc s) else live_handlers (g_proc s) @ [t])
    | GCS_ERROR_GENERIC \<Rightarrow> live_handlers (g_proc s') = live_handlers (g_proc s)
    | GCS_ERROR_INVALID_ARGUMENT \<Rightarrow> (\<not> IsValidRoomTopicShape t \<or> length t > kMaxTopicLength)
        \<and> g_roomTopics s' = g_roomTopics s
    | _ \<Rightarrow> False"
  using publish_join_result [of P t s status s'] assms(5,6)
  by (simp add: gcs_publish_open [OF ffi_reachable_inv [OF assms(1)] assms(2-4)])

definition ref_join :: "string \<Rightarrow> bytes" where
  "ref_join t = enc_fields [''join'', t]"

lemma ref_join_facts [simp]: "ref_join t \<noteq> []" "parse_command ref_codec (ref_join t) = Some (JoinTopic t)"
  "length (ref_join ''gcs/chat/x'') \<le> int_max"
  by (simp_all add: ref_join_def enc_fields_def int_max_def)
    (simp add: ref_codec_def parse_with_def command_of_fields_def flip: enc_fields_def [of "[''join'', t]", simplified])

lemma ref_subscribes: "m_running (cs_db (the_session s)) \<Longrightarrow> m_pubsub (cs_db (the_session s)) = Some ps \<Longrightarrow>
    fst (SubscribeLive ref_platform t s)"
proof -
  have "the_session (s\<lparr>g_inFlight := n\<rparr>) = the_session s" for n by (simp add: the_session_def)
  moreover assume "m_running (cs_db (the_session s))" "m_pubsub (cs_db (the_session s)) = Some ps"
  ultimately show ?thesis
    by (simp add: SubscribeLive_def Let_def case_prod_beta CoreSession_Subscribe_def GcsGlobalDb_Subscribe_def)
      (simp add: ref_platform_def)
qed

lemma ref_join_ok: "\<exists>s'. gcs_publish ref_platform (Some 4) (Some kCommandTopic) (Some (ref_join ''gcs/chat/x'')) ref_ffi2
    = (GCS_OK, s')"
proof -
  have reg: "register_topic ref_platform (the_session ref_ffi2) ''gcs/chat/x'' (g_proc ref_ffi2) = (True, g_proc ref_ffi2)"
    by simp
  have valid: "\<not> join_rejected ''gcs/chat/x''"
    by (simp add: join_rejected_def kMaxTopicLength_def IsValidRoomTopicShape_def kRoomTopicNamespace_def)
  have sub: "fst (SubscribeLive ref_platform ''gcs/chat/x'' s)" if "g_session s = Some (4, ref_cs)" for s
    using ref_subscribes [of s 2] that by (simp add: the_session_def)
  have "fst (publish_join ref_platform ''gcs/chat/x'' ref_ffi2) = GCS_OK"
    using sub by (simp add: publish_join_registered [OF valid reg] Let_def case_prod_beta)
  then show ?thesis
    using gcs_publish_open [OF ref_ok(2), of "Some 4" "ref_join ''gcs/chat/x''"]
    by (cases "publish_join ref_platform ''gcs/chat/x'' ref_ffi2") simp
qed

theorem join_effect_witness:
  "\<exists>s'. gcs_publish ref_platform (Some 4) (Some kCommandTopic) (Some (ref_join ''gcs/chat/x'')) ref_ffi2 = (GCS_OK, s')
    \<and> g_roomTopics s' = [kSmokeTopicA, kSmokeTopicB, ''gcs/chat/x''] \<and> live_handlers (g_proc s') = [''gcs/chat/x'']"
proof -
  obtain s' where run: "gcs_publish ref_platform (Some 4) (Some kCommandTopic) (Some (ref_join ''gcs/chat/x'')) ref_ffi2
      = (GCS_OK, s')" using ref_join_ok by blast
  have "''gcs/chat/x'' \<notin> {kSmokeTopicA, kSmokeTopicB}" by (simp add: kSmokeTopicA_def kSmokeTopicB_def)
  then show ?thesis
    using join_effect [OF ref_reachable(3), of "Some 4" "ref_join ''gcs/chat/x''" "''gcs/chat/x''"] run by auto
qed

theorem publish_reports_failures_witness:
  "\<exists>n s'. gcs_publish ref_platform (Some 4) (Some kCommandTopic) (Some (enc_fields [''join'', ''elsewhere''])) ref_ffi2
      = (GCS_ERROR_INVALID_ARGUMENT, s') \<and> s' = Notice ref_platform n ref_ffi2"
proof -
  let ?b = "enc_fields [''join'', ''elsewhere'']"
  have b: "?b \<noteq> []" "length ?b \<le> int_max" by (simp_all add: enc_fields_def int_max_def)
  have "parse_command ref_codec ?b = Some (JoinTopic ''elsewhere'')"
    unfolding ref_codec_def by (simp add: parse_with_def command_of_fields_def)
  moreover have "join_rejected ''elsewhere''"
    by (simp add: join_rejected_def IsValidRoomTopicShape_def kRoomTopicNamespace_def)
  ultimately obtain s' where run: "gcs_publish ref_platform (Some 4) (Some kCommandTopic) (Some ?b) ref_ffi2
      = (GCS_ERROR_INVALID_ARGUMENT, s')"
    using gcs_publish_open [OF ref_ok(2), of "Some 4" ?b] b publish_join_invalid [of "''elsewhere''" ref_platform ref_ffi2]
    by auto
  show ?thesis
    using publish_reports_failures [OF ref_reachable(3) _ b _ run] run by auto
qed

text \<open>A start either fails, leaving session and topics alone, or returns the handle of a running session; a new session
  has receive intake open and a smoke topic joined, an existing one is handed out again; the next start returns
  the same handle and ignores its configuration.\<close>

theorem init_outcomes:
  assumes "ffi_reachable P ssl s" and "gcs_init P ssl configBytes s = (r, s')"
  shows "case r of
      None \<Rightarrow> g_session s' = g_session s \<and> g_roomTopics s' = g_roomTopics s
        \<and> (g_session s = None \<or> g_tearingDown s)
    | Some a \<Rightarrow> (\<exists>cs. g_session s' = Some (a, cs) \<and> CoreSession_IsRunning cs)
        \<and> (case g_session s of
             None \<Rightarrow> \<not> g_receivingDisabled s' \<and> {kSmokeTopicA, kSmokeTopicB} \<inter> set (g_roomTopics s') \<noteq> {}
           | Some (a0, _) \<Rightarrow> a = a0 \<and> s' = s\<lparr>g_apiDlInitialized := True\<rparr>)
        \<and> gcs_init P ssl otherBytes s' = (Some a, s')"
  using ffi_reachable_inv [OF assms(1)] assms(2) by (rule gcs_init_result)

theorem init_outcomes_witness:
  "gcs_init ref_platform ref_ssl (Some ref_config) ref_ffi0 = (Some 4, ref_ffi1)
    \<and> gcs_init ref_platform ref_ssl None ref_ffi1 = (Some 4, ref_ffi1)"
proof -
  have "g_session ref_ffi0 = None" by (simp add: ref_ffi0_def ffi_loaded_def)
  with init_outcomes [OF ref_reachable(1) ref_init, of None] ref_init show ?thesis by simp
qed


lemma ref_rejoin: "gcs_publish ref_platform (Some 4) (Some kCommandTopic) (Some (ref_join kSmokeTopicA)) ref_ffi1
    = (GCS_OK, snd (gcs_publish ref_platform (Some 4) (Some kCommandTopic) (Some (ref_join kSmokeTopicA)) ref_ffi1))"
proof -
  have "length (ref_join kSmokeTopicA) \<le> int_max" by (simp add: ref_join_def enc_fields_def int_max_def kSmokeTopicA_def)
  moreover have reg: "register_topic ref_platform (the_session ref_ffi1) kSmokeTopicA (g_proc ref_ffi1) = (True, g_proc ref_ffi1)"
    by simp
  have valid: "\<not> join_rejected kSmokeTopicA"
    by (simp add: join_rejected_def kMaxTopicLength_def IsValidRoomTopicShape_def kRoomTopicNamespace_def kSmokeTopicA_def)
  have "fst (publish_join ref_platform kSmokeTopicA ref_ffi1) = GCS_OK"
    by (simp add: publish_join_registered [OF valid reg] Let_def)
  ultimately show ?thesis
    using gcs_publish_open [OF ref_ok(1), of "Some 4" "ref_join kSmokeTopicA"]
    by (cases "publish_join ref_platform kSmokeTopicA ref_ffi1") simp
qed


text \<open>Shutting a session down.\<close>



text \<open>C31: a replicated delivery whose key makes the topic recovery throw leaves the count of operations in flight raised
  for good: whatever runs next, up to the width of the counter, a shutdown waits forever.\<close>

theorem heal_exception_blocks_shutdown:
  assumes "g_messaging s = Some m" and "\<not> g_receivingDisabled s" and "RoomTopicFromKey key = None"
    and "g_inFlight s = 0" and "heal_bridge P key val s = (returned, s1)"
    and "(ffi_step P ssl ^^ n) s1 t" and "n < 2 ^ 32 - 1" and "handle_matches t h"
  shows "\<not> returned \<and> gcs_shutdown P h t = None"
proof -
  have s1: "\<not> returned" "s1 = s\<lparr>g_inFlight := 1\<rparr>"
    using assms(1-5) by (auto simp: heal_bridge_def OnMessageArrived_def)
  then have "unat (g_inFlight s1) = 1" by simp
  with steps_inFlight [OF assms(6)] assms(7) have "g_inFlight t \<noteq> 0" by auto
  with assms(8) s1(1) show ?thesis by (simp add: gcs_shutdown_def)
qed

theorem heal_exception_blocks_shutdown_witness:
  "\<not> fst (heal_bridge ref_platform ''/gcs/messages/v'' [] ref_ffi1)
    \<and> gcs_shutdown ref_platform (Some 4) (snd (heal_bridge ref_platform ''/gcs/messages/v'' [] ref_ffi1)) = None"
proof -
  have key: "RoomTopicFromKey ''/gcs/messages/v'' = None"
    by (simp add: RoomTopicFromKey_throws kMessagesKeyPrefix_def)
  have "handle_matches (snd (heal_bridge ref_platform ''/gcs/messages/v'' [] ref_ffi1)) (Some 4)"
    using key by (simp add: heal_bridge_def OnMessageArrived_def Let_def) (simp add: handle_matches_def)
  then show ?thesis
    using heal_exception_blocks_shutdown [where s = ref_ffi1 and m = ref_alice and n = 0 and ssl = ref_ssl and val = "[]"
        and P = ref_platform and h = "Some 4" and t = "snd (heal_bridge ref_platform ''/gcs/messages/v'' [] ref_ffi1)",
        OF _ _ key _ surjective_pairing] by simp
qed

text \<open>The two ways a start fails after the node is up.\<close>


text \<open>The reference platform with a store that takes no room topic.\<close>

definition ref_nosmoke :: "ref_world platform" where
  "ref_nosmoke = ref_platform\<lparr>globaldb_add_broadcast := \<lambda>h t w. (t = kReputationTopic, w)\<rparr>"

definition ref_ffi_booted :: "ref_world ffi" where
  "ref_ffi_booted = ref_ffi0\<lparr>g_apiDlInitialized := True, g_sdkBootedHere := True, g_exitHookRegistered := True,
     g_proc := ref_proc (ref_world0\<lparr>rw_node := Some 9\<rparr>)\<rparr>"

lemma ref_nosmoke_boot: "EnsureSdkBooted ref_nosmoke config (ref_ffi0\<lparr>g_apiDlInitialized := True\<rparr>) = (True, ref_ffi_booted)"
  by (simp add: EnsureSdkBooted_def ref_ffi_booted_def ref_ffi0_def ffi_loaded_def ref_nosmoke_def ref_platform_def
      ref_proc_def ref_world0_def Let_def)

lemma ref_nosmoke_Initialize: "CoreSession_Initialize ref_nosmoke (CoreSession_new ''data/db'') (ref_proc ref_world1) =
    (Inr (), ref_cs, ref_proc ref_world1)"
  by (simp add: CoreSession_Initialize_def CoreSession_new_def GcsGlobalDb_new_def GcsGlobalDb_Initialize_def
      GcsGlobalDb_Initialize_injected_def ref_nosmoke_def ref_platform_def ref_proc_def ref_world1_def ref_cs_def Let_def)

lemma ref_nosmoke_register: "t \<noteq> kReputationTopic \<Longrightarrow> fst (register_topic ref_nosmoke ref_cs t p) = False"
  by (simp add: register_topic_def core_topic_defs with_db_def case_prod_beta) (simp add: ref_nosmoke_def)

lemma ref_nosmoke_init: "\<exists>s'. gcs_init ref_nosmoke ref_ssl (Some ref_config) ref_ffi0 = (None, s')"
proof -
  let ?cfg = "\<lparr>cfg_db_path = ''data/db'', cfg_codec = CODEC_PROTOBUF, cfg_mnemonic = []\<rparr>"
  have parse: "parse_config (proto ref_nosmoke) ref_config = Some ?cfg"
    unfolding ref_config_def by (simp add: ref_nosmoke_def ref_codec_def parse_with_def config_of_fields_def)
  have small: "\<not> length ref_config > int_max" "ref_config \<noteq> []"
    by (simp_all add: ref_config_def enc_fields_def int_max_def)
  have addr: "new_address ref_nosmoke (world (g_proc ref_ffi_booted)) = (4, ref_world1)"
    "(g_proc ref_ffi_booted)\<lparr>world := ref_world1\<rparr> = ref_proc ref_world1"
    by (simp_all add: ref_nosmoke_def ref_platform_def ref_ffi_booted_def ref_proc_def ref_world1_def ref_world0_def)
  have "kSmokeTopicA \<noteq> kReputationTopic" "kSmokeTopicB \<noteq> kReputationTopic"
    by (simp_all add: kSmokeTopicA_def kSmokeTopicB_def kReputationTopic_def)
  then have "fst (join_smoke ref_nosmoke ref_cs [kSmokeTopicA, kSmokeTopicB] p) = []" for p
    by (simp add: case_prod_beta ref_nosmoke_register)
  then have "fst (init_session ref_nosmoke ref_ssl ?cfg ref_ffi_booted) = None"
    using addr ref_nosmoke_Initialize by (simp add: init_session_def Let_def case_prod_beta)
  then show ?thesis
    using parse small ref_nosmoke_boot [of ?cfg]
    by (cases "init_session ref_nosmoke ref_ssl ?cfg ref_ffi_booted")
      (simp add: gcs_init_def Let_def ref_ffi0_def ffi_loaded_def)
qed


end
