(* ===== verification/StoreContract.thy ===== *)
theory StoreContract
  imports StoreProps
begin

text \<open>
  What \<open>gcs_global_db.hpp\<close> promises of a store object, as an abstract machine with two states, and
  the proof that the detailed object (nine members, nullable handles, partial initialisations)
  implements it. The abstract operations say of each call what its documentation says: it is
  refused on a stopped object, it reaches the store or the pubsub otherwise, and a failure of theirs
  is the database error. They dereference nothing, so the refinement also shows that the code never
  follows a null handle.
\<close>

section \<open>The abstract store\<close>

text \<open>A serving store has its database, its pubsub and the borrowed network.\<close>

datatype store_view = Stopped | Serving handle handle handle

definition store_view_of :: "gcs_db \<Rightarrow> store_view" where
  "store_view_of d =
     (if m_running d
      then case (m_db d, m_pubsub d, m_graphsyncNetwork d) of
             (Some h, Some ps, Some net) \<Rightarrow> Serving h ps net
           | _ \<Rightarrow> Stopped
      else Stopped)"

text \<open>Success, or the database error when not running or when the underlying call fails.\<close>

definition serving ::
  "store_view \<Rightarrow> (handle \<Rightarrow> handle \<Rightarrow> 'w \<Rightarrow> bool \<times> 'w) \<Rightarrow> 'w proc \<Rightarrow> unit result \<times> 'w proc" where
  "serving v call p =
     (case v of
        Stopped \<Rightarrow> (Inl GcsDbError, p)
      | Serving h ps net \<Rightarrow>
          (case call h ps (world p) of (ok, w) \<Rightarrow> (if ok then Inr () else Inl GcsDbError, p\<lparr>world := w\<rparr>)))"

definition reading :: "store_view \<Rightarrow> (handle \<Rightarrow> 'a option) \<Rightarrow> 'a result" where
  "reading v call =
     (case v of
        Stopped \<Rightarrow> Inl GcsDbError
      | Serving h ps net \<Rightarrow> (case call h of None \<Rightarrow> Inl GcsDbError | Some x \<Rightarrow> Inr x))"

definition store_IsRunning :: "store_view \<Rightarrow> bool" where
  "store_IsRunning v \<longleftrightarrow> v \<noteq> Stopped"

definition store_GraphsyncNetwork :: "store_view \<Rightarrow> handle option" where
  "store_GraphsyncNetwork v = (case v of Stopped \<Rightarrow> None | Serving h ps net \<Rightarrow> Some net)"

definition store_AddBroadcastTopic ::
  "'w platform \<Rightarrow> store_view \<Rightarrow> string \<Rightarrow> 'w proc \<Rightarrow> unit result \<times> 'w proc" where
  "store_AddBroadcastTopic P v topic = serving v (\<lambda>h ps. globaldb_add_broadcast P h topic)"

definition store_AddListenTopic ::
  "'w platform \<Rightarrow> store_view \<Rightarrow> string \<Rightarrow> 'w proc \<Rightarrow> unit result \<times> 'w proc" where
  "store_AddListenTopic P v topic = serving v (\<lambda>h ps w. (True, globaldb_add_listen P h topic w))"

definition store_Put :: "'w platform \<Rightarrow> store_view \<Rightarrow> string \<Rightarrow> bytes \<Rightarrow> 'w proc \<Rightarrow> unit result \<times> 'w proc" where
  "store_Put P v key val = serving v (\<lambda>h ps. globaldb_put P h key val {})"

definition store_Put_topics ::
  "'w platform \<Rightarrow> store_view \<Rightarrow> string \<Rightarrow> bytes \<Rightarrow> string set \<Rightarrow> 'w proc \<Rightarrow> unit result \<times> 'w proc" where
  "store_Put_topics P v key val topics = serving v (\<lambda>h ps. globaldb_put P h key val topics)"

definition store_PutLocal ::
  "'w platform \<Rightarrow> store_view \<Rightarrow> string \<Rightarrow> bytes \<Rightarrow> string \<Rightarrow> 'w proc \<Rightarrow> unit result \<times> 'w proc" where
  "store_PutLocal P v key val ident = serving v (\<lambda>h ps. globaldb_put_local P h key val ident)"

definition store_Get :: "'w platform \<Rightarrow> store_view \<Rightarrow> string \<Rightarrow> 'w proc \<Rightarrow> bytes result" where
  "store_Get P v key p = reading v (\<lambda>h. globaldb_get P h key (world p))"

definition store_QueryKeyValues ::
  "'w platform \<Rightarrow> store_view \<Rightarrow> string \<Rightarrow> 'w proc \<Rightarrow> (string \<times> bytes) list result" where
  "store_QueryKeyValues P v keyPrefix p = reading v (\<lambda>h. globaldb_query P h keyPrefix (world p))"

text \<open>A registration that succeeds leaves its callback behind; one that fails leaves none.\<close>

definition store_RegisterNewElementCallback ::
  "'w platform \<Rightarrow> store_view \<Rightarrow> string \<Rightarrow> 'w proc \<Rightarrow> unit result \<times> 'w proc" where
  "store_RegisterNewElementCallback P v pat p =
     (case serving v (\<lambda>h ps. globaldb_register P h pat) p of
        (r, p1) \<Rightarrow> (r, if has_value r then p1\<lparr>heal_handlers := heal_handlers p1 @ [pat]\<rparr> else p1))"

definition store_Publish ::
  "'w platform \<Rightarrow> store_view \<Rightarrow> string \<Rightarrow> bytes \<Rightarrow> 'w proc \<Rightarrow> unit result \<times> 'w proc" where
  "store_Publish P v topic payload = serving v (\<lambda>h ps. pubsub_publish P ps topic payload)"

definition store_Subscribe :: "'w platform \<Rightarrow> store_view \<Rightarrow> string \<Rightarrow> 'w proc \<Rightarrow> unit result \<times> 'w proc" where
  "store_Subscribe P v topic p =
     (case serving v (\<lambda>h ps. pubsub_subscribe P ps topic) p of
        (r, p1) \<Rightarrow> (r, if has_value r then p1\<lparr>live_handlers := live_handlers p1 @ [topic]\<rparr> else p1))"

section \<open>The abstract lifecycle\<close>

text \<open>
  The fallible part of the init chain: create the database on the given collaborators, start it,
  listen on and broadcast the reputation topic. What fails half way is closed again.
\<close>

definition open_store :: "'w platform \<Rightarrow> string \<Rightarrow> handle \<Rightarrow> handle \<Rightarrow> 'w \<Rightarrow> handle option \<times> 'w" where
  "open_store P path ps net w =
     (case globaldb_new P path ps net w of
        (Inl ec, w1) \<Rightarrow> (None, w1)
      | (Inr h, w1) \<Rightarrow>
          (case globaldb_add_broadcast P h kReputationTopic
                  (globaldb_add_listen P h kReputationTopic (globaldb_start P h w1)) of
             (True, w2) \<Rightarrow> (Some h, w2)
           | (False, w2) \<Rightarrow> (None, globaldb_shutdown_now P h w2)))"

definition store_Initialize_injected ::
  "'w platform \<Rightarrow> string \<Rightarrow> handle option \<Rightarrow> handle option \<Rightarrow> store_view \<Rightarrow> 'w proc
     \<Rightarrow> unit result \<times> store_view \<times> 'w proc" where
  "store_Initialize_injected P path pubsub network v p =
     (case (v, pubsub, network) of
        (Stopped, Some ps, Some net) \<Rightarrow>
          (case open_store P path ps net (world p) of
             (Some h, w) \<Rightarrow> (Inr (), Serving h ps net, p\<lparr>world := w\<rparr>)
           | (None, w) \<Rightarrow> (Inl GcsDbError, Stopped, p\<lparr>world := w\<rparr>))
      | _ \<Rightarrow> (Inl GcsDbError, v, p))"

text \<open>The production form takes pubsub and network from the node; without them the SDK is not up.\<close>

definition store_Initialize ::
  "'w platform \<Rightarrow> string \<Rightarrow> store_view \<Rightarrow> 'w proc \<Rightarrow> unit result \<times> store_view \<times> 'w proc" where
  "store_Initialize P path v p =
     (let w = world p;
          pubsub = Option.bind (sdk_get_node P w) (\<lambda>node. node_pubsub P node w);
          network = Option.bind (sdk_get_node P w) (\<lambda>node. node_graphsync P node w)
      in if pubsub = None \<or> network = None then (Inl SdkNotInitialized, v, p)
         else store_Initialize_injected P path pubsub network v p)"

definition store_Shutdown :: "'w platform \<Rightarrow> store_view \<Rightarrow> 'w proc \<Rightarrow> store_view \<times> 'w proc" where
  "store_Shutdown P v p =
     (case v of
        Stopped \<Rightarrow> (Stopped, p)
      | Serving h ps net \<Rightarrow> (Stopped, p\<lparr>world := globaldb_shutdown_now P h (world p)\<rparr>))"

section \<open>The detailed object implements it\<close>

lemma view_cases:
  assumes "gdb_ok d"
  obtains (stopped) "\<not> m_running d" "store_view_of d = Stopped" "m_graphsyncNetwork d = None"
  | (serving) h ps net where "m_running d" "m_db d = Some h" "m_pubsub d = Some ps"
      "m_graphsyncNetwork d = Some net" "store_view_of d = Serving h ps net"
proof (cases "m_running d")
  case True
  with assms obtain h ps net where "m_db d = Some h" "m_pubsub d = Some ps" "m_graphsyncNetwork d = Some net"
    by (auto simp: gdb_ok_def)
  with True show ?thesis by (intro serving) (simp_all add: store_view_of_def)
next
  case False
  then have "m_graphsyncNetwork d = None"
    using gdb_ok_stopped [OF assms False] by (metis GcsGlobalDb_new_def gcs_db.select_convs(4))
  with False show ?thesis by (intro stopped) (simp_all add: store_view_of_def)
qed

lemmas gdb_op_defs = GcsGlobalDb_AddBroadcastTopic_def GcsGlobalDb_AddListenTopic_def GcsGlobalDb_Put_def
  GcsGlobalDb_Put_topics_def GcsGlobalDb_PutLocal_def GcsGlobalDb_RegisterNewElementCallback_def
  GcsGlobalDb_Publish_def GcsGlobalDb_Subscribe_def GcsGlobalDb_Get_def GcsGlobalDb_QueryKeyValues_def
  GcsGlobalDb_IsRunning_def GcsGlobalDb_GraphsyncNetwork_def with_db_def

lemmas store_op_defs = store_AddBroadcastTopic_def store_AddListenTopic_def store_Put_def store_Put_topics_def
  store_PutLocal_def store_RegisterNewElementCallback_def store_Publish_def store_Subscribe_def store_Get_def
  store_QueryKeyValues_def store_IsRunning_def store_GraphsyncNetwork_def serving_def reading_def

definition operations_agree :: "'w platform \<Rightarrow> gcs_db \<Rightarrow> store_view \<Rightarrow> 'w proc \<Rightarrow> bool" where
  "operations_agree P d v p \<longleftrightarrow>
     (\<forall>t. GcsGlobalDb_AddBroadcastTopic P d t p = store_AddBroadcastTopic P v t p) \<and>
     (\<forall>t. GcsGlobalDb_AddListenTopic P d t p = store_AddListenTopic P v t p) \<and>
     (\<forall>k b. GcsGlobalDb_Put P d k b p = store_Put P v k b p) \<and>
     (\<forall>k b T. GcsGlobalDb_Put_topics P d k b T p = store_Put_topics P v k b T p) \<and>
     (\<forall>k b i. GcsGlobalDb_PutLocal P d k b i p = store_PutLocal P v k b i p) \<and>
     (\<forall>k. GcsGlobalDb_Get P d k p = store_Get P v k p) \<and>
     (\<forall>k. GcsGlobalDb_QueryKeyValues P d k p = store_QueryKeyValues P v k p) \<and>
     (\<forall>k. GcsGlobalDb_RegisterNewElementCallback P d k p = store_RegisterNewElementCallback P v k p) \<and>
     (\<forall>t b. GcsGlobalDb_Publish P d t b p = store_Publish P v t b p) \<and>
     (\<forall>t. GcsGlobalDb_Subscribe P d t p = store_Subscribe P v t p) \<and>
     GcsGlobalDb_IsRunning d = store_IsRunning v \<and> GcsGlobalDb_GraphsyncNetwork d = store_GraphsyncNetwork v"

lemma map_entries [simp]: "map (\<lambda>(k, v). (k, v)) xs = xs"
  by (simp add: case_prod_beta)

lemma stopped_agree: "\<not> m_running d \<Longrightarrow> m_graphsyncNetwork d = None \<Longrightarrow> operations_agree P d Stopped p"
  by (simp add: operations_agree_def gdb_op_defs store_op_defs)

lemma serving_agree:
  "m_running d \<Longrightarrow> m_db d = Some h \<Longrightarrow> m_pubsub d = Some ps \<Longrightarrow> m_graphsyncNetwork d = Some net \<Longrightarrow>
   operations_agree P d (Serving h ps net) p"
  by (simp add: operations_agree_def gdb_op_defs store_op_defs case_prod_beta split: option.split)

lemma reachable_view: "gdb_reachable P (d, q) \<Longrightarrow> gdb_ok d"
  using gdb_reachable_ok by fastforce

lemma view_of_new [simp]: "store_view_of (GcsGlobalDb_new path) = Stopped"
  by (simp add: store_view_of_def GcsGlobalDb_new_def)

lemma MapGlobalDbError_db [simp]: "MapGlobalDbError e = GcsDbError"
  by (cases e) simp_all

lemma Initialize_injected_refines:
  assumes "gdb_ok d" and "GcsGlobalDb_Initialize_injected P ps net d p = (r, d', p')"
  shows "store_Initialize_injected P (m_dbPath d) ps net (store_view_of d) p = (r, store_view_of d', p')
     \<and> m_dbPath d' = m_dbPath d"
  using assms(1)
proof (cases rule: view_cases)
  case serving
  with assms(2) show ?thesis
    by (auto simp: GcsGlobalDb_Initialize_injected_def store_Initialize_injected_def)
next
  case stopped
  have d: "d = GcsGlobalDb_new (m_dbPath d)" by (rule gdb_ok_stopped [OF assms(1) stopped(1)])
  obtain path where path: "d = GcsGlobalDb_new path" using d by blast
  show ?thesis
    using assms(2) unfolding path
    by (auto simp: GcsGlobalDb_Initialize_injected_def store_Initialize_injected_def open_store_def
        GcsGlobalDb_new_def store_view_of_def reset_members_def Let_def
        split: option.splits sum.splits prod.splits if_splits bool.splits)
qed

lemma Initialize_refines:
  assumes "gdb_ok d" and "GcsGlobalDb_Initialize P d p = (r, d', p')"
  shows "store_Initialize P (m_dbPath d) (store_view_of d) p = (r, store_view_of d', p') \<and> m_dbPath d' = m_dbPath d"
  using assms(2) Initialize_injected_refines [OF assms(1), of P]
  by (auto simp: GcsGlobalDb_Initialize_def store_Initialize_def Let_def split: option.splits)

lemma Shutdown_refines:
  assumes "gdb_ok d" and "GcsGlobalDb_Shutdown P d p = (d', p')"
  shows "store_Shutdown P (store_view_of d) p = (store_view_of d', p') \<and> d' = GcsGlobalDb_new (m_dbPath d)"
  using assms(1)
proof (cases rule: view_cases)
  case stopped
  with assms gdb_ok_stopped [OF assms(1)] show ?thesis by (simp add: store_Shutdown_def)
next
  case serving
  with assms show ?thesis by (simp add: Shutdown_running store_Shutdown_def) auto
qed

section \<open>Properties\<close>

text \<open>C18: Every store operation of a store object, at any point of its life, does exactly what the
  documented two-state store does: it is refused with the database error and without effect when
  stopped, and otherwise reaches the database or the pubsub exactly once, without ever following a
  null handle.\<close>

theorem store_operations_refine:
  assumes "gdb_reachable P (d, q)"
  shows "(\<forall>t. GcsGlobalDb_AddBroadcastTopic P d t p = store_AddBroadcastTopic P (store_view_of d) t p)
    \<and> (\<forall>t. GcsGlobalDb_AddListenTopic P d t p = store_AddListenTopic P (store_view_of d) t p)
    \<and> (\<forall>k b. GcsGlobalDb_Put P d k b p = store_Put P (store_view_of d) k b p)
    \<and> (\<forall>k b T. GcsGlobalDb_Put_topics P d k b T p = store_Put_topics P (store_view_of d) k b T p)
    \<and> (\<forall>k b i. GcsGlobalDb_PutLocal P d k b i p = store_PutLocal P (store_view_of d) k b i p)
    \<and> (\<forall>k. GcsGlobalDb_Get P d k p = store_Get P (store_view_of d) k p)
    \<and> (\<forall>k. GcsGlobalDb_QueryKeyValues P d k p = store_QueryKeyValues P (store_view_of d) k p)
    \<and> (\<forall>k. GcsGlobalDb_RegisterNewElementCallback P d k p
             = store_RegisterNewElementCallback P (store_view_of d) k p)
    \<and> (\<forall>t b. GcsGlobalDb_Publish P d t b p = store_Publish P (store_view_of d) t b p)
    \<and> (\<forall>t. GcsGlobalDb_Subscribe P d t p = store_Subscribe P (store_view_of d) t p)
    \<and> GcsGlobalDb_IsRunning d = store_IsRunning (store_view_of d)
    \<and> GcsGlobalDb_GraphsyncNetwork d = store_GraphsyncNetwork (store_view_of d)"
  using reachable_view [OF assms] unfolding operations_agree_def [symmetric]
proof (cases rule: view_cases)
  case stopped
  from stopped_agree [OF stopped(1,3)] show "operations_agree P d (store_view_of d) p" unfolding stopped(2) .
next
  case serving
  from serving_agree [OF serving(1-4)] show "operations_agree P d (store_view_of d) p" unfolding serving(5) .
qed

theorem store_operations_refine_witness:
  "GcsGlobalDb_Put ref_platform ref_db ''k'' ''v'' ref_booted
     = (Inr (), ref_booted\<lparr>world := ref_put ''k'' ''v'' (world ref_booted)\<rparr>)"
proof -
  obtain q where q: "gdb_reachable ref_platform (ref_db, q)" using ref_db_reachable by blast
  have "GcsGlobalDb_Put ref_platform ref_db ''k'' ''v'' ref_booted
      = store_Put ref_platform (store_view_of ref_db) ''k'' ''v'' ref_booted"
    using store_operations_refine [OF q, of ref_booted] by blast
  then show ?thesis by (simp add: ref_db_eq store_view_of_def store_Put_def serving_def ref_platform_def)
qed

text \<open>C19: Every lifecycle call does exactly what the documented two-state store does: an initialisation
  goes from stopped to serving with the collaborators it was given or fails and leaves the object
  as constructed, whatever half of the init chain failed, a second one is refused, and a shutdown
  ends in the constructed state, closing an open database once.\<close>

theorem store_lifecycle_refines:
  assumes "gdb_reachable P (d, q)"
  shows "(case GcsGlobalDb_Initialize_injected P ps net d p of (r, d', p') \<Rightarrow>
        store_Initialize_injected P (m_dbPath d) ps net (store_view_of d) p = (r, store_view_of d', p') \<and>
        m_dbPath d' = m_dbPath d)
    \<and> (case GcsGlobalDb_Initialize P d p of (r, d', p') \<Rightarrow>
        store_Initialize P (m_dbPath d) (store_view_of d) p = (r, store_view_of d', p') \<and>
        m_dbPath d' = m_dbPath d)
    \<and> (case GcsGlobalDb_Shutdown P d p of (d', p') \<Rightarrow>
        store_Shutdown P (store_view_of d) p = (store_view_of d', p') \<and> d' = GcsGlobalDb_new (m_dbPath d))"
  using Initialize_injected_refines [OF reachable_view [OF assms]]
    Initialize_refines [OF reachable_view [OF assms]] Shutdown_refines [OF reachable_view [OF assms]]
  by (simp split: prod.split) blast

theorem store_lifecycle_refines_witness:
  "store_Initialize ref_platform ''db'' Stopped ref_booted
     = (Inr (), Serving 1 2 3, snd (snd (GcsGlobalDb_Initialize ref_platform (GcsGlobalDb_new ''db'') ref_booted)))"
proof -
  have new: "m_dbPath (GcsGlobalDb_new ''db'') = ''db''" by (simp add: GcsGlobalDb_new_def)
  obtain r d' p' where run: "GcsGlobalDb_Initialize ref_platform (GcsGlobalDb_new ''db'') ref_booted = (r, d', p')"
    by (metis prod.collapse)
  have "d' = ref_db" using run by (simp add: ref_db_def)
  moreover have "r = Inr ()" using run
    by (simp add: GcsGlobalDb_Initialize_def GcsGlobalDb_Initialize_injected_def ref_platform_def
      ref_booted_def ref_proc_def ref_world0_def GcsGlobalDb_new_def Let_def)
  ultimately show ?thesis
    using store_lifecycle_refines [OF gdb_reachable.constructed [of ref_platform "''db''" ref_booted],
      of None None ref_booted] run
    by (simp add: new ref_db_eq store_view_of_def)
qed

end
