(* ===== verification/CatalogContract.thy ===== *)
theory CatalogContract
  imports StoreProps
begin

text \<open>
  What \<open>gcs_entity_store.hpp\<close> promises of the entity catalog, over an abstract catalog of two partial
  maps, and the proof that the operations of \<open>gcs_entity_store.cpp\<close> keep it. A mutator's promise is a
  relation between the catalog and store before, the result, and the catalog and store after; a
  query's promise fixes its answer.
\<close>

section \<open>The abstract catalog\<close>

record catalog =
  cat_spaces :: "string \<Rightarrow> SpaceRecord option"
  cat_rooms :: "string \<Rightarrow> RoomRecord option"

definition catalog_of :: "entity_store \<Rightarrow> catalog" where
  "catalog_of es = \<lparr>cat_spaces = map_of (es_spaces es), cat_rooms = map_of (es_rooms es)\<rparr>"

text \<open>What a restart would find.\<close>

definition stored_catalog :: "'w platform \<Rightarrow> core_session \<Rightarrow> 'w proc \<Rightarrow> catalog" where
  "stored_catalog P s p = \<lparr>cat_spaces = stored_space P s p, cat_rooms = stored_room P s p\<rparr>"

definition live_space :: "catalog \<Rightarrow> string \<Rightarrow> bool" where
  "live_space c ident = (case cat_spaces c ident of None \<Rightarrow> False | Some r \<Rightarrow> \<not> sp_deleted r)"

section \<open>Promises\<close>

text \<open>
  A new space has a minted id, the given name and flags, one stamp for creation and update and no
  tombstone; it is filed in memory and stored. A failure leaves the catalog as it was.
\<close>

definition create_space_promise ::
  "'w platform \<Rightarrow> core_session \<Rightarrow> string \<Rightarrow> bool \<Rightarrow> bool \<Rightarrow> catalog \<Rightarrow> SpaceRecord result \<Rightarrow> catalog \<Rightarrow> 'w proc
     \<Rightarrow> bool" where
  "create_space_promise P s name isPublic autoJoinRooms c r c' p' \<longleftrightarrow>
     (case r of
        Inl e \<Rightarrow> c' = c
      | Inr space \<Rightarrow>
          prefix kSpaceIdPrefix (sp_id space) \<and> cat_spaces c (sp_id space) = None \<and>
          space = \<lparr>sp_id = sp_id space, sp_name = name, sp_is_public = isPublic,
                   sp_auto_join_rooms = autoJoinRooms, sp_created_at_ms = sp_created_at_ms space,
                   sp_updated_at_ms = sp_created_at_ms space, sp_deleted = False, sp_deleted_at_ms = 0\<rparr> \<and>
          c' = c\<lparr>cat_spaces := (cat_spaces c)(sp_id space \<mapsto> space)\<rparr> \<and> stored_catalog P s p' = c')"

text \<open>A room may be standalone; a named parent must be live, else nothing is written.\<close>

definition create_room_promise ::
  "'w platform \<Rightarrow> core_session \<Rightarrow> string \<Rightarrow> string \<Rightarrow> catalog \<Rightarrow> 'w proc \<Rightarrow> RoomRecord result \<Rightarrow> catalog
     \<Rightarrow> 'w proc \<Rightarrow> bool" where
  "create_room_promise P s name parentSpaceId c p r c' p' \<longleftrightarrow>
     (if parentSpaceId \<noteq> [] \<and> \<not> live_space c parentSpaceId
      then \<not> has_value r \<and> c' = c \<and> p' = p
      else case r of
        Inl e \<Rightarrow> c' = c
      | Inr room \<Rightarrow>
          prefix kRoomIdPrefix (rm_id room) \<and> cat_rooms c (rm_id room) = None \<and>
          room = \<lparr>rm_id = rm_id room, rm_name = name, rm_parent_space_id = parentSpaceId,
                  rm_created_at_ms = rm_created_at_ms room, rm_updated_at_ms = rm_created_at_ms room,
                  rm_deleted = False, rm_deleted_at_ms = 0\<rparr> \<and>
          c' = c\<lparr>cat_rooms := (cat_rooms c)(rm_id room \<mapsto> room)\<rparr> \<and> stored_catalog P s p' = c')"

text \<open>An update replaces the whole record, but id, creation stamp and tombstone stay as stored.\<close>

definition update_space_promise ::
  "'w platform \<Rightarrow> core_session \<Rightarrow> SpaceRecord \<Rightarrow> catalog \<Rightarrow> 'w proc \<Rightarrow> SpaceRecord result \<Rightarrow> catalog
     \<Rightarrow> 'w proc \<Rightarrow> bool" where
  "update_space_promise P s desired c p r c' p' \<longleftrightarrow>
     (if \<not> live_space c (sp_id desired)
      then \<not> has_value r \<and> c' = c \<and> p' = p
      else case r of
        Inl e \<Rightarrow> c' = c
      | Inr space \<Rightarrow>
          (\<exists>old. cat_spaces c (sp_id desired) = Some old \<and>
             space = \<lparr>sp_id = sp_id desired, sp_name = sp_name desired, sp_is_public = sp_is_public desired,
                      sp_auto_join_rooms = sp_auto_join_rooms desired, sp_created_at_ms = sp_created_at_ms old,
                      sp_updated_at_ms = fst (NowMs P p), sp_deleted = sp_deleted old,
                      sp_deleted_at_ms = sp_deleted_at_ms old\<rparr>) \<and>
          c' = c\<lparr>cat_spaces := (cat_spaces c)(sp_id desired \<mapsto> space)\<rparr> \<and> stored_catalog P s p' = c')"

text \<open>
  A replay holds the records it could read and parse of the ids the manifest lists, each under its
  own id, tombstoned ones included; it never fails, and no manifest is an empty catalog.
\<close>

definition load_promise ::
  "'w platform \<Rightarrow> core_session \<Rightarrow> 'w proc \<Rightarrow> unit result \<Rightarrow> catalog \<Rightarrow> bool" where
  "load_promise P s p r c' \<longleftrightarrow>
     has_value r \<and>
     (\<forall>k space. cat_spaces c' k = Some space \<longrightarrow>
        sp_id space = k \<and> (\<exists>i \<in> set (mf_space_id (read_manifest P s p)). read_space P s p i = Some space)) \<and>
     (\<forall>k room. cat_rooms c' k = Some room \<longrightarrow>
        rm_id room = k \<and> (\<exists>i \<in> set (mf_room_id (read_manifest P s p)). read_room P s p i = Some room)) \<and>
     (\<forall>i \<in> set (mf_space_id (read_manifest P s p)). \<forall>space.
        read_space P s p i = Some space \<longrightarrow> cat_spaces c' (sp_id space) \<noteq> None) \<and>
     (\<forall>i \<in> set (mf_room_id (read_manifest P s p)). \<forall>room.
        read_room P s p i = Some room \<longrightarrow> cat_rooms c' (rm_id room) \<noteq> None)"

definition spaces_promise :: "catalog \<Rightarrow> SpaceRecord list \<Rightarrow> bool" where
  "spaces_promise c xs \<longleftrightarrow> sorted_wrt (<) (map sp_id xs) \<and>
     (\<forall>r. r \<in> set xs \<longleftrightarrow> cat_spaces c (sp_id r) = Some r \<and> \<not> sp_deleted r)"

definition rooms_promise :: "catalog \<Rightarrow> RoomRecord list \<Rightarrow> bool" where
  "rooms_promise c xs \<longleftrightarrow> sorted_wrt (<) (map rm_id xs) \<and>
     (\<forall>r. r \<in> set xs \<longleftrightarrow> cat_rooms c (rm_id r) = Some r \<and> \<not> rm_deleted r)"

text \<open>The derived topics: of the listed rooms, in their order, those whose parent is live and joins.\<close>

definition derived_promise :: "catalog \<Rightarrow> string list \<Rightarrow> bool" where
  "derived_promise c topics \<longleftrightarrow>
     (\<exists>rooms. rooms_promise c rooms \<and>
        topics = map (\<lambda>r. kRoomTopicPrefix @ rm_id r)
          (filter (\<lambda>r. rm_parent_space_id r \<noteq> [] \<and>
             (case cat_spaces c (rm_parent_space_id r) of
                None \<Rightarrow> False | Some parent \<Rightarrow> \<not> sp_deleted parent \<and> sp_auto_join_rooms parent)) rooms))"

section \<open>The operations keep them\<close>

lemma catalog_of_sel [simp]:
  "cat_spaces (catalog_of es) = map_of (es_spaces es)" "cat_rooms (catalog_of es) = map_of (es_rooms es)"
  by (simp_all add: catalog_of_def)

lemma live_space_of [simp]: "live_space (catalog_of es) i = EntityStore_IsValidParentSpace es i"
  by (simp add: live_space_def EntityStore_IsValidParentSpace_def)

lemma synced_stored: "catalog_synced P s es p \<Longrightarrow> stored_catalog P s p = catalog_of es"
  by (simp add: catalog_synced_def stored_catalog_def catalog_of_def)

text \<open>One operation in a catalog that mirrors the store and whose generator is ahead of its ids.\<close>

definition catalog_ready :: "'w platform \<Rightarrow> core_session \<Rightarrow> entity_store \<Rightarrow> 'w proc \<Rightarrow> bool" where
  "catalog_ready P s es p \<longleftrightarrow> store_ok P \<and> protobuf_ok (proto P) \<and> catalog_synced P s es p \<and> ids_fresh es p \<and>
     unat (entity_sequence p) < 2 ^ 64 - 1"

lemma ready_applied:
  assumes "catalog_ready P s es p" and "op_utf8 op" and "catalog_apply P s op es p = (True, es', p')"
  shows "stored_catalog P s p' = catalog_of es'"
  using assms catalog_apply_synced [of P s es p op es' p'] by (intro synced_stored) (auto simp: catalog_ready_def)

lemma minted_prefix: "prefix pfx (fst (EntityStore_NextEntityId P pfx p))"
  using NextEntityId_form [of P pfx p] by auto

lemma CreateSpace_promise:
  assumes ready: "catalog_ready P s es p" and "valid_utf8 name"
    and run: "EntityStore_CreateSpace P s name pub auto es p = (r, es', p')"
  shows "create_space_promise P s name pub auto (catalog_of es) r (catalog_of es') p'"
proof (cases r)
  case (Inl e)
  with run have "es' = es" by (auto simp: EntityStore_CreateSpace_def Let_def case_prod_beta split: sum.splits)
  with Inl show ?thesis by (simp add: create_space_promise_def)
next
  case (Inr space)
  note run' = run [unfolded Inr]
  have id: "sp_id space = fst (EntityStore_NextEntityId P kSpaceIdPrefix p)"
    and es': "es' = es\<lparr>es_spaces := smap_emplace (sp_id space) space (es_spaces es)\<rparr>"
    and fields: "sp_name space = name" "sp_is_public space = pub" "sp_auto_join_rooms space = auto"
      "\<not> sp_deleted space" "sp_deleted_at_ms space = 0" "sp_created_at_ms space = sp_updated_at_ms space"
    using run' by (auto elim: CreateSpace_InrE)
  have maps: "smap_ok (es_spaces es)" and fresh: "ids_fresh es p"
    using ready by (simp_all add: catalog_ready_def catalog_synced_def es_ok_def)
  have new: "map_of (es_spaces es) (sp_id space) = None"
    using NextEntityId_fresh [OF fresh, of P kSpaceIdPrefix] catalog_ids_look(1) by (fastforce simp: id)
  have "catalog_apply P s (Op_create_space name pub auto) es p = (True, es', p')" using run' by simp
  with ready_applied [OF ready _ this] assms(2) have "stored_catalog P s p' = catalog_of es'" by simp
  moreover have "catalog_of es' = (catalog_of es)\<lparr>cat_spaces := (map_of (es_spaces es))(sp_id space \<mapsto> space)\<rparr>"
    using maps new by (simp add: es' catalog_of_def smap_look_emplace)
  moreover have "prefix kSpaceIdPrefix (sp_id space)" unfolding id by (rule minted_prefix)
  ultimately show ?thesis
    using new fields by (simp add: create_space_promise_def Inr)
qed

lemma CreateRoom_promise:
  assumes ready: "catalog_ready P s es p" and "valid_utf8 name" and "valid_utf8 parent"
    and run: "EntityStore_CreateRoom P s name parent es p = (r, es', p')"
  shows "create_room_promise P s name parent (catalog_of es) p r (catalog_of es') p'"
proof (cases "parent \<noteq> [] \<and> \<not> EntityStore_IsValidParentSpace es parent")
  case True
  with run show ?thesis by (auto simp: EntityStore_CreateRoom_def create_room_promise_def)
next
  case parent: False
  show ?thesis
  proof (cases r)
    case (Inl e)
    with run have "es' = es"
      by (auto simp: EntityStore_CreateRoom_def Let_def case_prod_beta split: sum.splits if_splits)
    with Inl parent show ?thesis by (auto simp: create_room_promise_def)
  next
    case (Inr room)
    note run' = run [unfolded Inr]
    have id: "rm_id room = fst (EntityStore_NextEntityId P kRoomIdPrefix p)"
      and es': "es' = es\<lparr>es_rooms := smap_emplace (rm_id room) room (es_rooms es)\<rparr>"
      and fields: "rm_name room = name" "rm_parent_space_id room = parent"
        "\<not> rm_deleted room" "rm_deleted_at_ms room = 0" "rm_created_at_ms room = rm_updated_at_ms room"
      using run' by (auto elim: CreateRoom_InrE)
    have maps: "smap_ok (es_rooms es)" and fresh: "ids_fresh es p"
      using ready by (simp_all add: catalog_ready_def catalog_synced_def es_ok_def)
    have new: "map_of (es_rooms es) (rm_id room) = None"
      using NextEntityId_fresh [OF fresh, of P kRoomIdPrefix] catalog_ids_look(2) by (fastforce simp: id)
    have "catalog_apply P s (Op_create_room name parent) es p = (True, es', p')" using run' by simp
    with ready_applied [OF ready _ this] assms(2,3) have "stored_catalog P s p' = catalog_of es'" by simp
    moreover have "catalog_of es' = (catalog_of es)\<lparr>cat_rooms := (map_of (es_rooms es))(rm_id room \<mapsto> room)\<rparr>"
      using maps new by (simp add: es' catalog_of_def smap_look_emplace)
    moreover have "prefix kRoomIdPrefix (rm_id room)" unfolding id by (rule minted_prefix)
    ultimately show ?thesis
      using new fields parent by (auto simp: create_room_promise_def Inr)
  qed
qed

lemma UpdateSpace_promise:
  assumes ready: "catalog_ready P s es p" and "utf8_space desired"
    and run: "EntityStore_UpdateSpace P s desired es p = (r, es', p')"
  shows "update_space_promise P s desired (catalog_of es) p r (catalog_of es') p'"
proof (cases "EntityStore_IsValidParentSpace es (sp_id desired)")
  case False
  with run show ?thesis
    by (auto simp: EntityStore_UpdateSpace_def update_space_promise_def EntityStore_IsValidParentSpace_def
        split: option.splits if_splits)
next
  case alive: True
  show ?thesis
  proof (cases r)
    case (Inl e)
    with run have "es' = es"
      by (auto simp: EntityStore_UpdateSpace_def Let_def case_prod_beta split: sum.splits option.splits if_splits)
    with Inl alive show ?thesis by (simp add: update_space_promise_def)
  next
    case (Inr space)
    note run' = run [unfolded Inr]
    from run' obtain old where old: "map_of (es_spaces es) (sp_id desired) = Some old"
      and sp: "space = desired\<lparr>sp_created_at_ms := sp_created_at_ms old, sp_deleted := sp_deleted old,
         sp_deleted_at_ms := sp_deleted_at_ms old, sp_updated_at_ms := fst (NowMs P p)\<rparr>"
      and es': "es' = es\<lparr>es_spaces := smap_assign (sp_id space) space (es_spaces es)\<rparr>"
      by (elim UpdateSpace_InrE) blast
    have "catalog_apply P s (Op_update_space desired) es p = (True, es', p')" using run' by simp
    with ready_applied [OF ready _ this] assms(2) have "stored_catalog P s p' = catalog_of es'" by simp
    moreover have "catalog_of es' = (catalog_of es)\<lparr>cat_spaces := (map_of (es_spaces es))(sp_id desired \<mapsto> space)\<rparr>"
      by (simp add: es' catalog_of_def smap_look_assign sp)
    ultimately show ?thesis
      using old sp alive by (simp add: update_space_promise_def Inr)
  qed
qed

lemma load_spaces_source:
  "smap_ok m \<Longrightarrow> map_of (load_spaces rd is m) k = Some r \<Longrightarrow>
   map_of m k = Some r \<or> sp_id r = k \<and> (\<exists>i \<in> set is. rd i = Some r)"
proof (induction "is" arbitrary: m)
  case (Cons i "is")
  show ?case
  proof (cases "rd i")
    case None
    with Cons show ?thesis by auto
  next
    case (Some q)
    with Cons.prems Cons.IH [of "smap_emplace (sp_id q) q m"] show ?thesis
      by (auto simp: smap_look_emplace split: option.splits if_splits)
  qed
qed simp

lemma load_rooms_source:
  "smap_ok m \<Longrightarrow> map_of (load_rooms rd is m) k = Some r \<Longrightarrow>
   map_of m k = Some r \<or> rm_id r = k \<and> (\<exists>i \<in> set is. rd i = Some r)"
proof (induction "is" arbitrary: m)
  case (Cons i "is")
  show ?case
  proof (cases "rd i")
    case None
    with Cons show ?thesis by auto
  next
    case (Some q)
    with Cons.prems Cons.IH [of "smap_emplace (rm_id q) q m"] show ?thesis
      by (auto simp: smap_look_emplace split: option.splits if_splits)
  qed
qed simp

lemma load_spaces_keeps: "smap_ok m \<Longrightarrow> map_of m k \<noteq> None \<Longrightarrow> map_of (load_spaces rd is m) k \<noteq> None"
proof (induction "is" arbitrary: m)
  case (Cons i "is")
  then show ?case by (cases "rd i") (simp_all add: smap_look_emplace split: option.split)
qed simp

lemma load_rooms_keeps: "smap_ok m \<Longrightarrow> map_of m k \<noteq> None \<Longrightarrow> map_of (load_rooms rd is m) k \<noteq> None"
proof (induction "is" arbitrary: m)
  case (Cons i "is")
  then show ?case by (cases "rd i") (simp_all add: smap_look_emplace split: option.split)
qed simp

lemma load_spaces_finds:
  "smap_ok m \<Longrightarrow> i \<in> set is \<Longrightarrow> rd i = Some r \<Longrightarrow> map_of (load_spaces rd is m) (sp_id r) \<noteq> None"
proof (induction "is" arbitrary: m)
  case (Cons j "is")
  have here: "map_of (smap_emplace (sp_id r) r m) (sp_id r) \<noteq> None"
    using Cons.prems(1) by (simp add: smap_look_emplace split: option.split)
  show ?case
    using Cons load_spaces_keeps [OF _ here, of rd "is"] by (cases "i = j") (auto split: option.split)
qed simp

lemma load_rooms_finds:
  "smap_ok m \<Longrightarrow> i \<in> set is \<Longrightarrow> rd i = Some r \<Longrightarrow> map_of (load_rooms rd is m) (rm_id r) \<noteq> None"
proof (induction "is" arbitrary: m)
  case (Cons j "is")
  have here: "map_of (smap_emplace (rm_id r) r m) (rm_id r) \<noteq> None"
    using Cons.prems(1) by (simp add: smap_look_emplace split: option.split)
  show ?case
    using Cons load_rooms_keeps [OF _ here, of rd "is"] by (cases "i = j") (auto split: option.split)
qed simp

lemma LoadFromStore_promise:
  "EntityStore_LoadFromStore P s es p = (r, es') \<Longrightarrow> load_promise P s p r (catalog_of es')"
  using load_spaces_source [of "[]" "read_space P s p"] load_rooms_source [of "[]" "read_room P s p"]
    load_spaces_finds [of "[]" _ _ "read_space P s p"] load_rooms_finds [of "[]" _ _ "read_room P s p"]
  unfolding LoadFromStore_eq load_promise_def by auto

lemma derived_list:
  "concat (map (\<lambda>room.
        if rm_parent_space_id room = [] then []
        else case map_of (es_spaces es) (rm_parent_space_id room) of
               None \<Rightarrow> []
             | Some parent \<Rightarrow>
                 if sp_deleted parent \<or> \<not> sp_auto_join_rooms parent then []
                 else [kRoomTopicPrefix @ rm_id room]) rooms) =
   map (\<lambda>r. kRoomTopicPrefix @ rm_id r)
      (filter (\<lambda>r. rm_parent_space_id r \<noteq> [] \<and>
         (case cat_spaces (catalog_of es) (rm_parent_space_id r) of
            None \<Rightarrow> False | Some parent \<Rightarrow> \<not> sp_deleted parent \<and> sp_auto_join_rooms parent)) rooms)"
  by (induction rooms) (auto split: option.splits)

lemma DerivedJoinedTopics_promise:
  assumes "es_ok es"
  shows "derived_promise (catalog_of es) (EntityStore_DerivedJoinedTopics es)"
  unfolding derived_promise_def
proof (intro exI conjI)
  show "rooms_promise (catalog_of es) (EntityStore_Rooms es)"
    using Rooms_listing [OF assms] by (simp add: rooms_promise_def)
  show "EntityStore_DerivedJoinedTopics es = map (\<lambda>r. kRoomTopicPrefix @ rm_id r)
      (filter (\<lambda>r. rm_parent_space_id r \<noteq> [] \<and>
         (case cat_spaces (catalog_of es) (rm_parent_space_id r) of
            None \<Rightarrow> False | Some parent \<Rightarrow> \<not> sp_deleted parent \<and> sp_auto_join_rooms parent)) (EntityStore_Rooms es))"
    unfolding EntityStore_DerivedJoinedTopics_def by (rule derived_list)
qed

section \<open>Properties\<close>



text \<open>C21: Every query of the catalog keeps its documented promise: the listings are the live records in
  increasing id order, the derived topics are those of the listed rooms whose parent is live and
  joins, in that order, a valid parent is a live space, and a replay never fails and holds exactly
  the readable records of the listed ids, each under its own id.\<close>

theorem catalog_queries_promise:
  assumes "es_ok es"
  shows "spaces_promise (catalog_of es) (EntityStore_Spaces es)
    \<and> rooms_promise (catalog_of es) (EntityStore_Rooms es)
    \<and> derived_promise (catalog_of es) (EntityStore_DerivedJoinedTopics es)
    \<and> EntityStore_IsValidParentSpace es i = live_space (catalog_of es) i
    \<and> (case EntityStore_LoadFromStore P s es p of (r, es') \<Rightarrow> load_promise P s p r (catalog_of es') \<and> es_ok es')"
  using Spaces_listing [OF assms] Rooms_listing [OF assms] DerivedJoinedTopics_promise [OF assms]
    LoadFromStore_promise [of P s es p] LoadFromStore_ok [of P s es p]
  by (cases "EntityStore_LoadFromStore P s es p") (simp add: spaces_promise_def rooms_promise_def)

theorem catalog_queries_promise_witness:
  "spaces_promise (catalog_of ref_catalog) [ref_space] \<and> derived_promise (catalog_of ref_catalog) [''gcs/chat/r1'']"
  using catalog_queries_promise [OF ref_catalog_ok, of "''s1''" ref_platform ref_session ref_booted]
  by (simp add: EntityStore_Spaces_def EntityStore_DerivedJoinedTopics_def EntityStore_Rooms_def ref_catalog_def
      ref_space_def ref_room_def empty_space_def empty_room_def kRoomTopicPrefix_def)

end
