(* ===== verification/FfiThreads.thy ===== *)
theory FfiThreads
  imports Ffi
begin

text \<open>
  The interleavings of the C boundary (\<open>src/ffi/gcs_core_ffi.cpp\<close>): threads that share the mutex, the
  globals it guards, the count of operations in flight and the two teardown gates. A step of a
  thread is what it does between two points where another thread can get in: a locked region, or
  one unlocked phase. What a locked region does besides is the subject of the other theories.

  A session is a numbered object with the address it was allocated at; the entity catalog and the
  messaging component are stored and evicted with it and share its number. A condition variable's
  wait is modelled by its specification: the waiter has released the mutex and may take it again,
  woken or spuriously, when its predicate holds.
\<close>

section \<open>Threads\<close>

text \<open>
  Where a thread is. \<open>Cmd\<close>: \<open>gcs_publish\<close> and the tail of \<open>gcs_init\<close>, which hold the mutex except in
  the counted windows around \<open>SendMessage\<close> and \<open>Subscribe\<close>; \<open>Br\<close>: the two receive bridges; \<open>In\<close>:
  \<open>gcs_init\<close> before the session is stored; \<open>Sh\<close>: \<open>gcs_shutdown\<close> with the teardown body; \<open>Ex\<close>: the
  exit hook with the same body.
\<close>

datatype pc = Idle
  | Cmd_lock handle | Cmd_held nat | Cmd_window nat | Cmd_relock nat
  | Br_lock | Br_window nat | Br_relock nat
  | In_lock handle
  | Sh_lock handle | Sh_wait | Sh_held | Sh_destroy "nat option" | Sh_relock
  | Ex_lock | Ex_wait | Ex_held | Ex_destroy "nat option"

record threads =
  t_mutex :: "nat option"
  t_session :: "(nat \<times> handle) option"
  t_next :: nat
  t_destroyed :: "nat list"
  t_inFlight :: uint32
  t_receivingDisabled :: bool
  t_tearingDown :: bool
  t_pc :: "nat \<Rightarrow> pc"

definition threads_loaded :: threads where
  "threads_loaded = \<lparr>t_mutex = None, t_session = None, t_next = 0, t_destroyed = [], t_inFlight = 0,
     t_receivingDisabled = False, t_tearingDown = False, t_pc = (\<lambda>_. Idle)\<rparr>"

text \<open>What a thread does next: calls made by an idle one, and the choices of a running one.\<close>

datatype act = Call_publish handle | Call_bridge | Call_init handle | Call_shutdown handle | Call_exit
  | Step | Window | Return | Timeout

definition goto :: "nat \<Rightarrow> pc \<Rightarrow> threads \<Rightarrow> threads" where
  "goto t l s = s\<lparr>t_pc := (t_pc s)(t := l)\<rparr>"

text \<open>Eviction: the session leaves the globals, and the mutex is released.\<close>

definition evict :: "threads \<Rightarrow> nat option \<times> threads" where
  "evict s = (map_option fst (t_session s), s\<lparr>t_session := None, t_mutex := None\<rparr>)"

definition destroy :: "nat option \<Rightarrow> threads \<Rightarrow> threads" where
  "destroy x s = (case x of None \<Rightarrow> s | Some n \<Rightarrow> s\<lparr>t_destroyed := n # t_destroyed s\<rparr>)"

section \<open>Steps\<close>

definition idle_act :: "nat \<Rightarrow> act \<Rightarrow> threads \<Rightarrow> threads option" where
  "idle_act t a s =
     (case a of
        Call_publish h \<Rightarrow> Some (goto t (Cmd_lock h) s)
      | Call_bridge \<Rightarrow> Some (if t_receivingDisabled s then s else goto t Br_lock s)
      | Call_init address \<Rightarrow> Some (goto t (In_lock address) s)
      | Call_shutdown h \<Rightarrow> Some (goto t (Sh_lock h) s)
      | Call_exit \<Rightarrow> Some (goto t Ex_lock (s\<lparr>t_receivingDisabled := True, t_tearingDown := True\<rparr>))
      | _ \<Rightarrow> None)"

text \<open>A command: take the mutex, check the handle; hold it, open counted windows, return.\<close>

definition command_act :: "nat \<Rightarrow> act \<Rightarrow> pc \<Rightarrow> threads \<Rightarrow> threads option" where
  "command_act t a l s =
     (case l of
        Cmd_lock h \<Rightarrow>
          if a = Step \<and> t_mutex s = None
          then Some (case t_session s of
                 None \<Rightarrow> goto t Idle s
               | Some (n, address) \<Rightarrow>
                   if address = h then goto t (Cmd_held n) (s\<lparr>t_mutex := Some t\<rparr>) else goto t Idle s)
          else None
      | Cmd_held n \<Rightarrow>
          if a = Window
          then Some (goto t (Cmd_window n) (s\<lparr>t_inFlight := t_inFlight s + 1, t_mutex := None\<rparr>))
          else if a = Return then Some (goto t Idle (s\<lparr>t_mutex := None\<rparr>))
          else None
      | Cmd_window n \<Rightarrow> if a = Step then Some (goto t (Cmd_relock n) s) else None
      | Cmd_relock n \<Rightarrow>
          if a = Step \<and> t_mutex s = None
          then Some (goto t (Cmd_held n) (s\<lparr>t_mutex := Some t, t_inFlight := t_inFlight s - 1\<rparr>))
          else None
      | _ \<Rightarrow> None)"

text \<open>A bridge past its gate: copy the pointer and count, use it unlocked, count back.\<close>

definition bridge_act :: "nat \<Rightarrow> act \<Rightarrow> pc \<Rightarrow> threads \<Rightarrow> threads option" where
  "bridge_act t a l s =
     (case l of
        Br_lock \<Rightarrow>
          if a = Step \<and> t_mutex s = None
          then Some (case t_session s of
                 None \<Rightarrow> goto t Idle s
               | Some (n, _) \<Rightarrow> goto t (Br_window n) (s\<lparr>t_inFlight := t_inFlight s + 1\<rparr>))
          else None
      | Br_window n \<Rightarrow> if a = Step then Some (goto t (Br_relock n) s) else None
      | Br_relock n \<Rightarrow>
          if a = Step \<and> t_mutex s = None
          then Some (goto t Idle (s\<lparr>t_inFlight := t_inFlight s - 1\<rparr>))
          else None
      | _ \<Rightarrow> None)"

text \<open>
  A start: refused during a teardown, idempotent with a session, failing (\<open>Return\<close>), or storing a new
  session and going on under the mutex.
\<close>

definition init_act :: "nat \<Rightarrow> act \<Rightarrow> pc \<Rightarrow> threads \<Rightarrow> threads option" where
  "init_act t a l s =
     (case l of
        In_lock address \<Rightarrow>
          if t_mutex s \<noteq> None then None
          else if a = Return then Some (goto t Idle s)
          else if a = Step
          then Some (if t_tearingDown s \<or> t_session s \<noteq> None then goto t Idle s
                     else goto t (Cmd_held (t_next s))
                            (s\<lparr>t_session := Some (t_next s, address), t_next := Suc (t_next s),
                               t_receivingDisabled := False, t_mutex := Some t\<rparr>))
          else None
      | _ \<Rightarrow> None)"

text \<open>A shutdown: check the handle, close the intake, drain, evict, destroy unlocked, open the gate.\<close>

definition shutdown_act :: "nat \<Rightarrow> act \<Rightarrow> pc \<Rightarrow> threads \<Rightarrow> threads option" where
  "shutdown_act t a l s =
     (if a \<noteq> Step then None
      else case l of
        Sh_lock h \<Rightarrow>
          if t_mutex s = None
          then Some (case t_session s of
                 None \<Rightarrow> goto t Idle s
               | Some (n, address) \<Rightarrow>
                   if address \<noteq> h then goto t Idle s
                   else let s1 = s\<lparr>t_receivingDisabled := True\<rparr>
                        in if t_inFlight s1 = 0 then goto t Sh_held (s1\<lparr>t_mutex := Some t\<rparr>)
                           else goto t Sh_wait s1)
          else None
      | Sh_wait \<Rightarrow>
          if t_mutex s = None \<and> t_inFlight s = 0 then Some (goto t Sh_held (s\<lparr>t_mutex := Some t\<rparr>)) else None
      | Sh_held \<Rightarrow>
          (case evict (s\<lparr>t_receivingDisabled := True, t_tearingDown := True\<rparr>) of
             (x, s1) \<Rightarrow> Some (goto t (Sh_destroy x) s1))
      | Sh_destroy x \<Rightarrow> Some (goto t Sh_relock (destroy x s))
      | Sh_relock \<Rightarrow> if t_mutex s = None then Some (goto t Idle (s\<lparr>t_tearingDown := False\<rparr>)) else None
      | _ \<Rightarrow> None)"

text \<open>
  The exit hook past its gates: bounded lock (\<open>Timeout\<close> abandons), bounded drain (\<open>Timeout\<close> goes on
  with operations in flight), evict, destroy unlocked; the teardown gate stays closed.
\<close>

definition exit_act :: "nat \<Rightarrow> act \<Rightarrow> pc \<Rightarrow> threads \<Rightarrow> threads option" where
  "exit_act t a l s =
     (case l of
        Ex_lock \<Rightarrow>
          if a = Timeout then Some (goto t Idle s)
          else if a = Step \<and> t_mutex s = None
          then Some (if t_inFlight s = 0 then goto t Ex_held (s\<lparr>t_mutex := Some t\<rparr>) else goto t Ex_wait s)
          else None
      | Ex_wait \<Rightarrow>
          if t_mutex s = None \<and> (a = Step \<and> t_inFlight s = 0 \<or> a = Timeout)
          then Some (goto t Ex_held (s\<lparr>t_mutex := Some t\<rparr>)) else None
      | Ex_held \<Rightarrow>
          if a = Step then (case evict s of (x, s1) \<Rightarrow> Some (goto t (Ex_destroy x) s1)) else None
      | Ex_destroy x \<Rightarrow> if a = Step then Some (goto t Idle (destroy x s)) else None
      | _ \<Rightarrow> None)"

definition thread_act :: "nat \<Rightarrow> act \<Rightarrow> threads \<Rightarrow> threads option" where
  "thread_act t a s =
     (case t_pc s t of
        Idle \<Rightarrow> idle_act t a s
      | Cmd_lock h \<Rightarrow> command_act t a (Cmd_lock h) s
      | Cmd_held n \<Rightarrow> command_act t a (Cmd_held n) s
      | Cmd_window n \<Rightarrow> command_act t a (Cmd_window n) s
      | Cmd_relock n \<Rightarrow> command_act t a (Cmd_relock n) s
      | In_lock address \<Rightarrow> init_act t a (In_lock address) s
      | Br_lock \<Rightarrow> bridge_act t a Br_lock s
      | Br_window n \<Rightarrow> bridge_act t a (Br_window n) s
      | Br_relock n \<Rightarrow> bridge_act t a (Br_relock n) s
      | Sh_lock h \<Rightarrow> shutdown_act t a (Sh_lock h) s
      | Sh_wait \<Rightarrow> shutdown_act t a Sh_wait s
      | Sh_held \<Rightarrow> shutdown_act t a Sh_held s
      | Sh_destroy x \<Rightarrow> shutdown_act t a (Sh_destroy x) s
      | Sh_relock \<Rightarrow> shutdown_act t a Sh_relock s
      | Ex_lock \<Rightarrow> exit_act t a Ex_lock s
      | Ex_wait \<Rightarrow> exit_act t a Ex_wait s
      | Ex_held \<Rightarrow> exit_act t a Ex_held s
      | Ex_destroy x \<Rightarrow> exit_act t a (Ex_destroy x) s)"

lemmas act_defs = thread_act_def idle_act_def command_act_def bridge_act_def init_act_def shutdown_act_def
  exit_act_def evict_def destroy_def goto_def

text \<open>Runs in which every step is one a discipline \<open>may\<close> allows.\<close>

inductive threads_reachable :: "(nat \<Rightarrow> act \<Rightarrow> bool) \<Rightarrow> threads \<Rightarrow> bool"
  for may :: "nat \<Rightarrow> act \<Rightarrow> bool" where
  loaded: "threads_reachable may threads_loaded"
| act: "threads_reachable may s \<Longrightarrow> may t a \<Longrightarrow> thread_act t a s = Some s' \<Longrightarrow> threads_reachable may s'"

text \<open>A run given by its actions.\<close>

fun run_acts :: "(nat \<times> act) list \<Rightarrow> threads \<Rightarrow> threads option" where
  "run_acts [] s = Some s"
| "run_acts ((t, a) # as) s = (case thread_act t a s of None \<Rightarrow> None | Some s' \<Rightarrow> run_acts as s')"

lemma run_acts_reachable:
  "threads_reachable may s \<Longrightarrow> list_all (\<lambda>(t, a). may t a) as \<Longrightarrow> run_acts as s = Some s' \<Longrightarrow>
   threads_reachable may s'"
  by (induction as s rule: run_acts.induct) (auto intro: threads_reachable.act split: option.splits)

end
