(* ===== verification/FfiThreadInv.thy ===== *)
theory FfiThreadInv
  imports FfiThreads
begin

text \<open>
  The invariant of the interleavings of \<open>FfiThreads\<close> and what one step does to the parts of the state it
  is about. The invariant ties the mutex to its holder, the count of operations in flight to the
  threads in a counted window, every reference to the stored session, and says of the numbered
  sessions that the stored one, those being destroyed and those destroyed are different ones. The
  last section is about the teardown gate.
\<close>

section \<open>Classes of positions\<close>

text \<open>Positions that own the mutex, that are counted, the session a thread uses, and the one it destroys.\<close>

fun holds :: "pc \<Rightarrow> bool" where
  "holds (Cmd_held n) = True" | "holds Sh_held = True" | "holds Ex_held = True" | "holds _ = False"

fun counted :: "pc \<Rightarrow> bool" where
  "counted (Cmd_window n) = True" | "counted (Cmd_relock n) = True" | "counted (Br_window n) = True"
| "counted (Br_relock n) = True" | "counted _ = False"

fun refers :: "pc \<Rightarrow> nat option" where
  "refers (Cmd_held n) = Some n" | "refers (Cmd_window n) = Some n" | "refers (Cmd_relock n) = Some n"
| "refers (Br_window n) = Some n" | "refers (Br_relock n) = Some n" | "refers _ = None"

fun dying :: "pc \<Rightarrow> nat option" where
  "dying (Sh_destroy x) = x" | "dying (Ex_destroy x) = x" | "dying _ = None"

section \<open>The invariant\<close>

definition live :: "threads \<Rightarrow> nat option" where
  "live s = map_option fst (t_session s)"

lemma live_upd [simp]:
  "live (s\<lparr>t_mutex := m\<rparr>) = live s" "live (s\<lparr>t_pc := f\<rparr>) = live s" "live (s\<lparr>t_next := k\<rparr>) = live s"
  "live (s\<lparr>t_inFlight := w\<rparr>) = live s" "live (s\<lparr>t_receivingDisabled := b\<rparr>) = live s"
  "live (s\<lparr>t_tearingDown := b\<rparr>) = live s" "live (s\<lparr>t_destroyed := d\<rparr>) = live s"
  "live (s\<lparr>t_session := v\<rparr>) = map_option fst v"
  by (simp_all add: live_def)

definition threads_ok :: "nat \<Rightarrow> threads \<Rightarrow> bool" where
  "threads_ok N s \<longleftrightarrow>
     (\<forall>t. t_pc s t \<noteq> Idle \<longrightarrow> t < N) \<and>
     (\<forall>t. t_mutex s = Some t \<longleftrightarrow> holds (t_pc s t)) \<and>
     unat (t_inFlight s) = card {t. counted (t_pc s t)} \<and>
     (\<forall>t n. refers (t_pc s t) = Some n \<longrightarrow> live s = Some n) \<and>
     (\<forall>t. t_pc s t = Sh_held \<or> t_pc s t = Ex_held \<longrightarrow> t_inFlight s = 0) \<and>
     (\<forall>n. live s = Some n \<longrightarrow> n < t_next s \<and> n \<notin> set (t_destroyed s)) \<and>
     (\<forall>t n. dying (t_pc s t) = Some n \<longrightarrow> n < t_next s \<and> live s \<noteq> Some n \<and> n \<notin> set (t_destroyed s)) \<and>
     (\<forall>n \<in> set (t_destroyed s). n < t_next s) \<and>
     (\<forall>t u n. dying (t_pc s t) = Some n \<longrightarrow> dying (t_pc s u) = Some n \<longrightarrow> t = u) \<and> distinct (t_destroyed s)"

section \<open>Counting\<close>

lemma counted_finite: "\<forall>t :: nat. f t \<noteq> Idle \<longrightarrow> t < N \<Longrightarrow> finite {t. counted (f t)} \<and> card {t. counted (f t)} \<le> N"
proof -
  assume a: "\<forall>t. f t \<noteq> Idle \<longrightarrow> t < N"
  have sub: "{t. counted (f t)} \<subseteq> {..<N}" using a by (force)
  then show ?thesis using card_mono [OF _ sub] finite_subset [OF sub] by simp
qed

lemma counted_upd:
  assumes "\<forall>u :: nat. f u \<noteq> Idle \<longrightarrow> u < N"
  shows "card {u. counted ((f(t := l)) u)} =
    (if counted l then (if counted (f t) then card {u. counted (f u)} else Suc (card {u. counted (f u)}))
     else (if counted (f t) then card {u. counted (f u)} - 1 else card {u. counted (f u)}))"
proof -
  have fin: "finite {u. counted (f u)}" using counted_finite [OF assms(1)] by simp
  have eq: "{u. counted ((f(t := l)) u)} = (if counted l then insert t {u. counted (f u)} else {u. counted (f u)} - {t})"
    by auto
  show ?thesis unfolding eq using fin by (auto simp: card_insert_if insert_absorb)
qed

lemma unat_suc: "unat (w :: 32 word) < 2 ^ 32 - 1 \<Longrightarrow> unat (w + 1) = Suc (unat w)"
  by (simp add: unat_word_ariths)

lemma unat_pred: "0 < unat (w :: 32 word) \<Longrightarrow> unat (w - 1) = unat w - 1"
  using unat_minus_one [of w] by (cases "w = 0") auto

text \<open>What one step does to the parts of the state the invariant is about.\<close>

section \<open>The effect of a step\<close>

definition session_effect :: "nat \<Rightarrow> pc \<Rightarrow> threads \<Rightarrow> threads \<Rightarrow> bool" where
  "session_effect t l s s' \<longleftrightarrow>
     t_session s' = t_session s \<and> t_next s' = t_next s \<and> dying l = None
         \<and> (refers l = None \<or> refers l = refers (t_pc s t) \<or> refers l = live s)
       \<or> t_session s' = None \<and> t_next s' = t_next s \<and> (t_pc s t = Sh_held \<or> t_pc s t = Ex_held)
         \<and> refers l = None \<and> dying l = live s
       \<or> t_session s = None \<and> t_next s' = Suc (t_next s) \<and> live s' = Some (t_next s)
         \<and> dying l = None \<and> refers l = Some (t_next s)"

definition effect :: "nat \<Rightarrow> pc \<Rightarrow> threads \<Rightarrow> threads \<Rightarrow> bool" where
  "effect t l s s' \<longleftrightarrow> t_pc s' = (t_pc s)(t := l)
    \<and> t_mutex s' = (if holds l then Some t else if holds (t_pc s t) then None else t_mutex s)
    \<and> (holds l \<longrightarrow> t_mutex s = None)
    \<and> (counted l \<noteq> counted (t_pc s t) \<longrightarrow> t_mutex s = None \<or> holds (t_pc s t))
    \<and> t_inFlight s' = (if counted l = counted (t_pc s t) then t_inFlight s
         else if counted l then t_inFlight s + 1 else t_inFlight s - 1)
    \<and> session_effect t l s s'
    \<and> t_destroyed s' = (case dying (t_pc s t) of None \<Rightarrow> t_destroyed s | Some n \<Rightarrow> n # t_destroyed s)
    \<and> (l = Sh_held \<or> l = Ex_held \<longrightarrow> t_inFlight s' = 0)"

lemma idle_cases:
  "idle_act t a s = Some s' \<Longrightarrow>
   s' = s \<or> (\<exists>h. s' = goto t (Cmd_lock h) s \<or> s' = goto t (In_lock h) s \<or> s' = goto t (Sh_lock h) s) \<or>
   s' = goto t Br_lock s \<or> s' = goto t Ex_lock (s\<lparr>t_receivingDisabled := True, t_tearingDown := True\<rparr>)"
  by (cases a) (auto simp: idle_act_def split: if_splits)

lemma idle_effect:
  assumes "t_pc s t = Idle" and "idle_act t a s = Some s'"
  shows "effect t (t_pc s' t) s s'"
  using idle_cases [OF assms(2)] assms(1)
  by (elim disjE exE) (simp_all add: effect_def session_effect_def goto_def fun_upd_idem)

lemma command_lock_cases:
  "command_act t a (Cmd_lock h) s = Some s' \<Longrightarrow>
   t_mutex s = None \<and> (s' = goto t Idle s
     \<or> (\<exists>n. live s = Some n \<and> s' = goto t (Cmd_held n) (s\<lparr>t_mutex := Some t\<rparr>)))"
  by (auto simp: command_act_def live_def split: if_splits option.splits)

lemma command_lock_effect:
  "t_pc s t = Cmd_lock h \<Longrightarrow> command_act t a (Cmd_lock h) s = Some s' \<Longrightarrow> effect t (t_pc s' t) s s'"
  by (drule command_lock_cases, elim conjE disjE exE)
    (simp_all add: effect_def session_effect_def goto_def)

lemma command_held_cases:
  "command_act t a (Cmd_held n) s = Some s' \<Longrightarrow>
   s' = goto t (Cmd_window n) (s\<lparr>t_inFlight := t_inFlight s + 1, t_mutex := None\<rparr>)
     \<or> s' = goto t Idle (s\<lparr>t_mutex := None\<rparr>)"
  by (auto simp: command_act_def split: if_splits)

lemma command_held_effect:
  "t_pc s t = Cmd_held n \<Longrightarrow> command_act t a (Cmd_held n) s = Some s' \<Longrightarrow> effect t (t_pc s' t) s s'"
  by (drule command_held_cases, elim disjE) (simp_all add: effect_def session_effect_def goto_def live_def)

lemma command_window_effect:
  "t_pc s t = Cmd_window n \<Longrightarrow> command_act t a (Cmd_window n) s = Some s' \<Longrightarrow> effect t (t_pc s' t) s s'"
  by (clarsimp simp: command_act_def goto_def effect_def session_effect_def live_def split: if_splits)

lemma command_relock_effect:
  "t_pc s t = Cmd_relock n \<Longrightarrow> command_act t a (Cmd_relock n) s = Some s' \<Longrightarrow> effect t (t_pc s' t) s s'"
  by (clarsimp simp: command_act_def goto_def effect_def session_effect_def live_def split: if_splits)

lemma bridge_lock_effect:
  "t_pc s t = Br_lock \<Longrightarrow> bridge_act t a Br_lock s = Some s' \<Longrightarrow> effect t (t_pc s' t) s s'"
  by (clarsimp simp: bridge_act_def goto_def effect_def session_effect_def live_def split: if_splits option.splits)

lemma bridge_window_effect:
  "t_pc s t = Br_window n \<Longrightarrow> bridge_act t a (Br_window n) s = Some s' \<Longrightarrow> effect t (t_pc s' t) s s'"
  by (clarsimp simp: bridge_act_def goto_def effect_def session_effect_def live_def split: if_splits)

lemma bridge_relock_effect:
  "t_pc s t = Br_relock n \<Longrightarrow> bridge_act t a (Br_relock n) s = Some s' \<Longrightarrow> effect t (t_pc s' t) s s'"
  by (clarsimp simp: bridge_act_def goto_def effect_def session_effect_def live_def split: if_splits)

lemma init_lock_cases:
  "init_act t a (In_lock h) s = Some s' \<Longrightarrow>
   t_mutex s = None \<and> (s' = goto t Idle s \<or> t_session s = None \<and>
     s' = goto t (Cmd_held (t_next s)) (s\<lparr>t_session := Some (t_next s, h), t_next := Suc (t_next s),
                               t_receivingDisabled := False, t_mutex := Some t\<rparr>))"
  by (auto simp: init_act_def split: if_splits)

lemma init_effect:
  "t_pc s t = In_lock h \<Longrightarrow> init_act t a (In_lock h) s = Some s' \<Longrightarrow> effect t (t_pc s' t) s s'"
  by (drule init_lock_cases, elim conjE disjE)
    (simp_all add: effect_def session_effect_def goto_def live_def)

lemma shutdown_lock_cases:
  "shutdown_act t a (Sh_lock h) s = Some s' \<Longrightarrow>
   t_mutex s = None \<and> (s' = goto t Idle s \<or>
     t_inFlight s = 0 \<and> s' = goto t Sh_held (s\<lparr>t_receivingDisabled := True, t_mutex := Some t\<rparr>) \<or>
     s' = goto t Sh_wait (s\<lparr>t_receivingDisabled := True\<rparr>))"
  by (auto simp: shutdown_act_def Let_def split: if_splits option.splits)

lemma shutdown_lock_effect:
  "t_pc s t = Sh_lock h \<Longrightarrow> shutdown_act t a (Sh_lock h) s = Some s' \<Longrightarrow> effect t (t_pc s' t) s s'"
  by (drule shutdown_lock_cases, elim conjE disjE) (simp_all add: goto_def effect_def session_effect_def live_def)

lemma shutdown_wait_effect:
  "t_pc s t = Sh_wait \<Longrightarrow> shutdown_act t a Sh_wait s = Some s' \<Longrightarrow> effect t (t_pc s' t) s s'"
  by (clarsimp simp: shutdown_act_def goto_def effect_def session_effect_def live_def split: if_splits)

lemma shutdown_held_effect:
  "t_pc s t = Sh_held \<Longrightarrow> shutdown_act t a Sh_held s = Some s' \<Longrightarrow> effect t (t_pc s' t) s s'"
  by (clarsimp simp: shutdown_act_def goto_def effect_def session_effect_def live_def evict_def split: if_splits)

lemma shutdown_destroy_effect:
  "t_pc s t = Sh_destroy x \<Longrightarrow> shutdown_act t a (Sh_destroy x) s = Some s' \<Longrightarrow> effect t (t_pc s' t) s s'"
  by (cases x) (clarsimp simp: shutdown_act_def goto_def effect_def session_effect_def live_def destroy_def split: if_splits)+

lemma shutdown_relock_effect:
  "t_pc s t = Sh_relock \<Longrightarrow> shutdown_act t a Sh_relock s = Some s' \<Longrightarrow> effect t (t_pc s' t) s s'"
  by (clarsimp simp: shutdown_act_def goto_def effect_def session_effect_def live_def split: if_splits)

lemma exit_lock_cases:
  "exit_act t a Ex_lock s = Some s' \<Longrightarrow> a \<noteq> Timeout \<Longrightarrow>
   t_mutex s = None \<and> (t_inFlight s = 0 \<and> s' = goto t Ex_held (s\<lparr>t_mutex := Some t\<rparr>)
     \<or> s' = goto t Ex_wait s)"
  by (auto simp: exit_act_def split: if_splits)

lemma exit_lock_effect:
  "t_pc s t = Ex_lock \<Longrightarrow> a \<noteq> Timeout \<Longrightarrow> exit_act t a Ex_lock s = Some s' \<Longrightarrow> effect t (t_pc s' t) s s'"
  by (drule (1) exit_lock_cases, elim conjE disjE) (simp_all add: goto_def effect_def session_effect_def live_def)

lemma exit_wait_cases:
  "exit_act t a Ex_wait s = Some s' \<Longrightarrow> a \<noteq> Timeout \<Longrightarrow>
   t_mutex s = None \<and> t_inFlight s = 0 \<and> s' = goto t Ex_held (s\<lparr>t_mutex := Some t\<rparr>)"
  by (auto simp: exit_act_def split: if_splits)

lemma exit_wait_effect:
  "t_pc s t = Ex_wait \<Longrightarrow> a \<noteq> Timeout \<Longrightarrow> exit_act t a Ex_wait s = Some s' \<Longrightarrow> effect t (t_pc s' t) s s'"
  by (drule (1) exit_wait_cases, elim conjE) (simp add: goto_def effect_def session_effect_def live_def)

lemma exit_held_effect:
  "t_pc s t = Ex_held \<Longrightarrow> exit_act t a Ex_held s = Some s' \<Longrightarrow> effect t (t_pc s' t) s s'"
  by (clarsimp simp: exit_act_def goto_def effect_def session_effect_def live_def evict_def split: if_splits)

lemma exit_destroy_effect:
  "t_pc s t = Ex_destroy x \<Longrightarrow> exit_act t a (Ex_destroy x) s = Some s' \<Longrightarrow> effect t (t_pc s' t) s s'"
  by (cases x) (clarsimp simp: exit_act_def goto_def effect_def session_effect_def live_def destroy_def
    split: if_splits)+

lemma thread_act_effect:
  assumes step: "thread_act t a s = Some s'" and a: "a \<noteq> Timeout"
  shows "effect t (t_pc s' t) s s'"
proof (cases "t_pc s t")
  case Idle with step a show ?thesis by (auto simp: thread_act_def intro: idle_effect [OF Idle])
next
  case Cmd_lock with step a show ?thesis by (auto simp: thread_act_def intro: command_lock_effect [OF Cmd_lock])
next
  case Cmd_held with step a show ?thesis by (auto simp: thread_act_def intro: command_held_effect [OF Cmd_held])
next
  case Cmd_window with step a show ?thesis by (auto simp: thread_act_def intro: command_window_effect [OF Cmd_window])
next
  case Cmd_relock with step a show ?thesis by (auto simp: thread_act_def intro: command_relock_effect [OF Cmd_relock])
next
  case Br_lock with step a show ?thesis by (auto simp: thread_act_def intro: bridge_lock_effect [OF Br_lock])
next
  case Br_window with step a show ?thesis by (auto simp: thread_act_def intro: bridge_window_effect [OF Br_window])
next
  case Br_relock with step a show ?thesis by (auto simp: thread_act_def intro: bridge_relock_effect [OF Br_relock])
next
  case In_lock with step a show ?thesis by (auto simp: thread_act_def intro: init_effect [OF In_lock])
next
  case Sh_lock with step a show ?thesis by (auto simp: thread_act_def intro: shutdown_lock_effect [OF Sh_lock])
next
  case Sh_wait with step a show ?thesis by (auto simp: thread_act_def intro: shutdown_wait_effect [OF Sh_wait])
next
  case Sh_held with step a show ?thesis by (auto simp: thread_act_def intro: shutdown_held_effect [OF Sh_held])
next
  case Sh_destroy with step a show ?thesis by (auto simp: thread_act_def intro: shutdown_destroy_effect [OF Sh_destroy])
next
  case Sh_relock with step a show ?thesis by (auto simp: thread_act_def intro: shutdown_relock_effect [OF Sh_relock])
next
  case Ex_lock with step a show ?thesis by (auto simp: thread_act_def intro: exit_lock_effect [OF Ex_lock])
next
  case Ex_wait with step a show ?thesis by (auto simp: thread_act_def intro: exit_wait_effect [OF Ex_wait])
next
  case Ex_held with step a show ?thesis by (auto simp: thread_act_def intro: exit_held_effect [OF Ex_held])
next
  case Ex_destroy with step a show ?thesis by (auto simp: thread_act_def intro: exit_destroy_effect [OF Ex_destroy])
qed

lemma inv_init: "threads_ok N threads_loaded"
  by (simp add: threads_ok_def threads_loaded_def live_def)

lemma counted_step:
  assumes cnt: "unat w = card {u. counted (f u)}" and idle: "\<forall>u :: nat. f u \<noteq> Idle \<longrightarrow> u < N"
    and N: "N < 2 ^ 32"
    and w': "w' = (if counted l = counted (f t) then w else if counted l then w + 1 else w - 1)"
    and t: "t < N"
  shows "unat (w' :: 32 word) = card {u. counted ((f(t := l)) u)}"
proof (cases "counted l = counted (f t)")
  case True then show ?thesis using w' cnt counted_upd [OF idle, of t l] by (simp split: if_splits)
next
  case diff: False
  show ?thesis
  proof (cases "counted l")
    case True
    with diff have "{u. counted (f u)} \<subseteq> {..<N} - {t}" using idle by force
    from card_mono [OF _ this] have "card {u. counted (f u)} < N" using t by simp
    then have "unat w < 2 ^ 32 - 1" using cnt N by simp
    from unat_suc [OF this] show ?thesis using w' diff True cnt counted_upd [OF idle, of t l] by simp
  next
    case False
    with diff have "t \<in> {u. counted (f u)}" by simp
    then have "0 < card {u. counted (f u)}" using counted_finite [OF idle] by (auto simp: card_gt_0_iff)
    with unat_pred [of w] cnt w' False diff counted_upd [OF idle, of t l] show ?thesis by simp
  qed
qed

lemma ok_refers: "threads_ok N s \<Longrightarrow> refers (t_pc s u) = Some n \<Longrightarrow> live s = Some n"
  and ok_drained: "threads_ok N s \<Longrightarrow> t_pc s u = Sh_held \<or> t_pc s u = Ex_held \<Longrightarrow> t_inFlight s = 0"
  and ok_live: "threads_ok N s \<Longrightarrow> live s = Some n \<Longrightarrow> n < t_next s \<and> n \<notin> set (t_destroyed s)"
  and ok_dying: "threads_ok N s \<Longrightarrow> dying (t_pc s u) = Some n \<Longrightarrow> n < t_next s \<and> live s \<noteq> Some n \<and> n \<notin> set (t_destroyed s)"
  and ok_dying_unique: "threads_ok N s \<Longrightarrow> dying (t_pc s u) = Some n \<Longrightarrow> dying (t_pc s v) = Some n \<Longrightarrow> u = v"
  and ok_distinct: "threads_ok N s \<Longrightarrow> distinct (t_destroyed s)"
  and ok_destroyed: "threads_ok N s \<Longrightarrow> n \<in> set (t_destroyed s) \<Longrightarrow> n < t_next s"
  and ok_mutex: "threads_ok N s \<Longrightarrow> t_mutex s = Some u \<longleftrightarrow> holds (t_pc s u)"
  and ok_idle: "threads_ok N s \<Longrightarrow> t_pc s u \<noteq> Idle \<Longrightarrow> u < N"
  and ok_count: "threads_ok N s \<Longrightarrow> unat (t_inFlight s) = card {u. counted (t_pc s u)}"
  unfolding threads_ok_def by blast+

lemma refers_counted: "refers l = Some n \<Longrightarrow> counted l \<or> holds l"
  by (cases l) auto

lemma holder_drained: "t_pc s t = Sh_held \<or> t_pc s t = Ex_held \<Longrightarrow> holds (t_pc s t) \<and> refers (t_pc s t) = None"
  by auto

text \<open>While a teardown holds the drained mutex nobody refers to the session.\<close>

lemma drained_no_refers:
  assumes ok: "threads_ok N s" and td: "t_pc s t = Sh_held \<or> t_pc s t = Ex_held"
  shows "refers (t_pc s u) = None"
proof (rule ccontr)
  assume "refers (t_pc s u) \<noteq> None"
  then obtain n where n: "refers (t_pc s u) = Some n" by blast
  have "{u. counted (t_pc s u)} = {}"
    using ok_count [OF ok] ok_drained [OF ok td] counted_finite [of "t_pc s" N] ok_idle [OF ok] by simp
  then have "holds (t_pc s u)" using refers_counted [OF n] by blast
  then have "u = t" using ok_mutex [OF ok, of u] ok_mutex [OF ok, of t] holder_drained [OF td] by simp
  with n holder_drained [OF td] show False by simp
qed

lemma no_session_no_refers: "threads_ok N s \<Longrightarrow> t_session s = None \<Longrightarrow> refers (t_pc s u) = None"
  using ok_refers [of N s u] by (cases "refers (t_pc s u)") (auto simp: live_def)

lemma threads_ok_step:
  assumes ok: "threads_ok N s" and e: "effect t l s s'" and t: "t < N" and N: "N < 2 ^ 32"
  shows "threads_ok N s'"
proof -
  have pc': "t_pc s' = (t_pc s)(t := l)" using e by (simp add: effect_def)
  have em: "t_mutex s' = (if holds l then Some t else if holds (t_pc s t) then None else t_mutex s)"
    and eh: "holds l \<Longrightarrow> t_mutex s = None"
    and ei: "t_inFlight s' = (if counted l = counted (t_pc s t) then t_inFlight s
       else if counted l then t_inFlight s + 1 else t_inFlight s - 1)"
    and ez: "l = Sh_held \<or> l = Ex_held \<Longrightarrow> t_inFlight s' = 0"
    and ed: "t_destroyed s' = (case dying (t_pc s t) of None \<Rightarrow> t_destroyed s | Some n \<Rightarrow> n # t_destroyed s)"
    and ec: "counted l \<noteq> counted (t_pc s t) \<Longrightarrow> t_mutex s = None \<or> holds (t_pc s t)"
    using e unfolding effect_def by blast+
  have "session_effect t l s s'" using e unfolding effect_def by blast
  then consider (same) "live s' = live s" "t_next s' = t_next s" "dying l = None"
      "refers l = None \<or> refers l = refers (t_pc s t) \<or> refers l = live s"
    | (evicted) "live s' = None" "t_next s' = t_next s" "t_pc s t = Sh_held \<or> t_pc s t = Ex_held"
      "refers l = None" "dying l = live s"
    | (stored) "t_session s = None" "t_next s' = Suc (t_next s)" "live s' = Some (t_next s)"
      "dying l = None" "refers l = Some (t_next s)"
    unfolding session_effect_def live_def by (elim disjE conjE) simp_all
  note es = this
  have mut: "(t_mutex s' = Some u) = holds (t_pc s' u)" for u
    using ok_mutex [OF ok, of u] ok_mutex [OF ok, of t] em eh unfolding pc'
    by (cases "u = t"; cases "holds l"; cases "holds (t_pc s t)") simp_all
  have ref: "refers (t_pc s' u) = Some n \<Longrightarrow> live s' = Some n" for u n
  proof (cases rule: es)
    case same
    then show "refers (t_pc s' u) = Some n \<Longrightarrow> ?thesis"
      using ok_refers [OF ok, of u n] ok_refers [OF ok, of t n] unfolding pc' by (cases "u = t") auto
  next
    case evicted
    then show "refers (t_pc s' u) = Some n \<Longrightarrow> ?thesis"
      using drained_no_refers [OF ok evicted(3), of u] unfolding pc' by (cases "u = t") auto
  next
    case stored
    then show "refers (t_pc s' u) = Some n \<Longrightarrow> ?thesis"
      using no_session_no_refers [OF ok stored(1), of u] unfolding pc' by (cases "u = t") auto
  qed
  have drained: "t_pc s' u = Sh_held \<or> t_pc s' u = Ex_held \<Longrightarrow> t_inFlight s' = 0" for u
  proof (cases "u = t")
    case True then show "t_pc s' u = Sh_held \<or> t_pc s' u = Ex_held \<Longrightarrow> ?thesis" using ez unfolding pc' by simp
  next
    case False
    assume "t_pc s' u = Sh_held \<or> t_pc s' u = Ex_held"
    with False have td: "t_pc s u = Sh_held \<or> t_pc s u = Ex_held" unfolding pc' by simp
    then have "t_mutex s = Some u" using ok_mutex [OF ok, of u] holder_drained [OF td] by simp
    with ec False ok_mutex [OF ok, of t] have "counted l = counted (t_pc s t)" by auto
    then show ?thesis using ei ok_drained [OF ok td] by simp
  qed
  have destroyed: "n \<in> set (t_destroyed s') \<longleftrightarrow> n \<in> set (t_destroyed s) \<or> dying (t_pc s t) = Some n" for n
    unfolding ed by (cases "dying (t_pc s t)") auto
  have lives: "live s' = Some n \<Longrightarrow> n < t_next s' \<and> n \<notin> set (t_destroyed s')" for n
    using ok_live [OF ok, of n] ok_dying [OF ok, of t n] destroyed [of n] ok_destroyed [OF ok, of n]
    by (cases rule: es) auto
  have new: "dying l = Some n \<Longrightarrow> live s = Some n \<and> live s' = None \<and> t_next s' = t_next s" for n
    by (cases rule: es) auto
  have one: "dying (t_pc s' u) = Some n \<Longrightarrow> dying (t_pc s' v) = Some n \<Longrightarrow> u = v" for u v n
    using ok_dying_unique [OF ok, of u n v] new [of n] ok_dying [OF ok, of u n] ok_dying [OF ok, of v n]
    unfolding pc' by (cases "u = t"; cases "v = t") auto
  have dyin: "dying (t_pc s' u) = Some n \<Longrightarrow> n < t_next s' \<and> live s' \<noteq> Some n \<and> n \<notin> set (t_destroyed s')" for u n
  proof (cases "u = t")
    case True
    assume "dying (t_pc s' u) = Some n"
    with True have "dying l = Some n" unfolding pc' by simp
    with new [of n] ok_live [OF ok, of n] destroyed [of n] ok_dying [OF ok, of t n] show ?thesis by auto
  next
    case False
    assume "dying (t_pc s' u) = Some n"
    with False have "dying (t_pc s u) = Some n" unfolding pc' by simp
    with False ok_dying [OF ok, of u n] ok_dying_unique [OF ok, of u n t] destroyed [of n] show ?thesis
      by (cases rule: es) auto
  qed
  have dest: "n \<in> set (t_destroyed s') \<Longrightarrow> n < t_next s'" for n
    using destroyed [of n] ok_destroyed [OF ok, of n] ok_dying [OF ok, of t n] by (cases rule: es) auto
  have dist: "distinct (t_destroyed s')"
    unfolding ed using ok_distinct [OF ok] ok_dying [OF ok, of t] by (cases "dying (t_pc s t)") auto
  have "unat (t_inFlight s') = card {u. counted (t_pc s' u)}"
    unfolding pc' by (rule counted_step [OF ok_count [OF ok] _ N ei t]) (use ok_idle [OF ok] in blast)
  moreover have "\<forall>u. t_pc s' u \<noteq> Idle \<longrightarrow> u < N" using ok_idle [OF ok] t pc' by simp
  ultimately show ?thesis unfolding threads_ok_def using mut ref drained lives dyin dest one dist by blast
qed

text \<open>A discipline: at most \<open>N\<close> threads, and no exit hook that runs out of its budget.\<close>

definition bounded_calls :: "nat \<Rightarrow> (nat \<Rightarrow> act \<Rightarrow> bool) \<Rightarrow> bool" where
  "bounded_calls N may \<longleftrightarrow> N < 2 ^ 32 \<and> (\<forall>t a. may t a \<longrightarrow> t < N \<and> a \<noteq> Timeout)"

lemma reachable_ok:
  "threads_reachable may s \<Longrightarrow> bounded_calls N may \<Longrightarrow> threads_ok N s"
proof (induction rule: threads_reachable.induct)
  case loaded show ?case by (rule inv_init)
next
  case (act s t a s')
  then have "t < N" "a \<noteq> Timeout" "N < 2 ^ 32" by (auto simp: bounded_calls_def)
  with act thread_act_effect [of t a s s'] threads_ok_step [of N s t _ s'] show ?case by blast
qed

lemma bounded_acts:
  "threads_ok N s \<Longrightarrow> thread_act t a s = Some s' \<Longrightarrow> a \<in> {Step, Return} \<Longrightarrow> N < 2 ^ 32 \<Longrightarrow> t < N \<and> threads_ok N s'"
proof -
  assume ok: "threads_ok N s" and act: "thread_act t a s = Some s'" and a: "a \<in> {Step, Return}" and N: "N < 2 ^ 32"
  have "t_pc s t \<noteq> Idle" using act a by (auto simp: thread_act_def idle_act_def)
  then have t: "t < N" by (rule ok_idle [OF ok])
  have "a \<noteq> Timeout" using a by auto
  from t threads_ok_step [OF ok thread_act_effect [OF act this] t N] show ?thesis by simp
qed

section \<open>Progress\<close>

lemma mutex_free_enabled:
  assumes "t_mutex s = None" and "t_pc s t \<noteq> Idle" and "t_pc s t \<notin> {Sh_wait, Ex_wait} \<or> t_inFlight s = 0"
  shows "\<exists>s'. thread_act t Step s = Some s' \<or> thread_act t Return s = Some s'"
  using assms by (cases "t_pc s t") (auto simp: act_defs Let_def split: option.splits)

lemma holder_enabled:
  "holds (t_pc s u) \<Longrightarrow> \<exists>s'. thread_act u Step s = Some s' \<or> thread_act u Return s = Some s'"
  by (cases "t_pc s u") (auto simp: act_defs)

lemma busy_enabled:
  assumes ok: "threads_ok N s" and busy: "t_pc s t \<noteq> Idle"
  shows "\<exists>u s'. thread_act u Step s = Some s' \<or> thread_act u Return s = Some s'"
proof (cases "t_mutex s")
  case (Some u)
  with ok_mutex [OF ok, of u] holder_enabled [of s u] show ?thesis by blast
next
  case None
  show ?thesis
  proof (cases "t_inFlight s = 0")
    case True
    with mutex_free_enabled [OF None busy] show ?thesis by blast
  next
    case False
    then have "card {u. counted (t_pc s u)} \<noteq> 0" using ok_count [OF ok] unat_eq_zero by metis
    then have "{u. counted (t_pc s u)} \<noteq> {}" by fastforce
    then obtain u where u: "counted (t_pc s u)" by blast
    then have "t_pc s u \<noteq> Idle" "t_pc s u \<notin> {Sh_wait, Ex_wait}" by (cases "t_pc s u"; simp)+
    with mutex_free_enabled [OF None] show ?thesis by blast
  qed
qed

text \<open>How far a thread is from the end of its call.\<close>

fun rank :: "pc \<Rightarrow> nat" where
  "rank Idle = 0" | "rank (Cmd_lock h) = 2" | "rank (Cmd_held n) = 1" | "rank (Cmd_window n) = 3"
| "rank (Cmd_relock n) = 2" | "rank Br_lock = 3" | "rank (Br_window n) = 2" | "rank (Br_relock n) = 1"
| "rank (In_lock h) = 2" | "rank (Sh_lock h) = 5" | "rank Sh_wait = 4" | "rank Sh_held = 3"
| "rank (Sh_destroy x) = 2" | "rank Sh_relock = 1" | "rank Ex_lock = 4" | "rank Ex_wait = 3"
| "rank Ex_held = 2" | "rank (Ex_destroy x) = 1"

lemma rank_le: "rank l \<le> 5"
  by (cases l) auto

lemma act_rank:
  "thread_act t a s = Some s' \<Longrightarrow> a \<in> {Step, Return} \<Longrightarrow>
   rank (t_pc s' t) < rank (t_pc s t) \<and> (\<forall>u. u \<noteq> t \<longrightarrow> t_pc s' u = t_pc s u)"
  by (cases "t_pc s t"; auto simp: act_defs Let_def split: option.splits if_splits)

definition work :: "nat \<Rightarrow> threads \<Rightarrow> nat" where
  "work N s = (\<Sum>t<N. rank (t_pc s t))"

lemma work_le: "work N s \<le> 5 * N"
  unfolding work_def using sum_mono [of "{..<N}" "\<lambda>t. rank (t_pc s t)" "\<lambda>_. 5"] rank_le by simp

lemma work_decreases:
  assumes act: "thread_act t a s = Some s'" and a: "a \<in> {Step, Return}" and t: "t < N"
  shows "work N s' < work N s"
proof -
  have "(\<Sum>u\<in>{..<N} - {t}. rank (t_pc s' u)) = (\<Sum>u\<in>{..<N} - {t}. rank (t_pc s u))"
    using act_rank [OF act a] by (intro sum.cong) auto
  with act_rank [OF act a] t show ?thesis
    unfolding work_def by (simp add: sum.remove [of "{..<N}" t])
qed

lemma run_acts_work:
  "threads_ok N s \<Longrightarrow> N < 2 ^ 32 \<Longrightarrow> run_acts as s = Some s' \<Longrightarrow> list_all (\<lambda>(t, a). a \<in> {Step, Return}) as \<Longrightarrow>
   length as + work N s' \<le> work N s \<and> threads_ok N s'"
proof (induction as s rule: run_acts.induct)
  case (2 t a as s)
  then obtain s1 where s1: "thread_act t a s = Some s1" and run: "run_acts as s1 = Some s'"
    by (auto split: option.splits)
  have a: "a \<in> {Step, Return}" using 2 by simp
  from bounded_acts [OF 2(2) s1 a 2(3)] have t: "t < N" and ok: "threads_ok N s1" by simp_all
  have "length as + work N s' \<le> work N s1 \<and> threads_ok N s'"
    using 2(1) [OF s1 ok 2(3) run] 2(5) by simp
  with work_decreases [OF s1 a t] show ?case by simp
qed simp

section \<open>The teardown gate\<close>

definition one_shutdown :: "nat \<Rightarrow> (nat \<Rightarrow> act \<Rightarrow> bool) \<Rightarrow> bool" where
  "one_shutdown T may \<longleftrightarrow> (\<forall>t a. may t a \<longrightarrow> a \<noteq> Call_exit \<and> (\<forall>h. a = Call_shutdown h \<longrightarrow> t = T))"

fun shutting :: "pc \<Rightarrow> bool" where
  "shutting (Sh_lock h) = True" | "shutting Sh_wait = True" | "shutting Sh_held = True"
| "shutting (Sh_destroy x) = True" | "shutting Sh_relock = True" | "shutting _ = False"

fun exiting :: "pc \<Rightarrow> bool" where
  "exiting Ex_lock = True" | "exiting Ex_wait = True" | "exiting Ex_held = True"
| "exiting (Ex_destroy x) = True" | "exiting _ = False"

fun unlocked_teardown :: "pc \<Rightarrow> bool" where
  "unlocked_teardown (Sh_destroy x) = True" | "unlocked_teardown Sh_relock = True" | "unlocked_teardown _ = False"

definition gate_ok :: "nat \<Rightarrow> threads \<Rightarrow> bool" where
  "gate_ok T s \<longleftrightarrow> (\<forall>t. \<not> exiting (t_pc s t)) \<and> (\<forall>t. shutting (t_pc s t) \<longrightarrow> t = T) \<and>
     (unlocked_teardown (t_pc s T) \<longrightarrow> t_tearingDown s \<and> t_session s = None)"

lemma act_exiting:
  "thread_act t a s = Some s' \<Longrightarrow> exiting (t_pc s' t) \<Longrightarrow> exiting (t_pc s t) \<or> a = Call_exit"
  by (cases "t_pc s t"; clarsimp simp: act_defs Let_def split: option.splits if_splits act.splits)

lemma act_shutting:
  "thread_act t a s = Some s' \<Longrightarrow> shutting (t_pc s' t) \<Longrightarrow> shutting (t_pc s t) \<or> (\<exists>h. a = Call_shutdown h)"
  by (cases "t_pc s t"; clarsimp simp: act_defs Let_def split: option.splits if_splits act.splits)

lemma act_unlocked:
  "thread_act t a s = Some s' \<Longrightarrow> unlocked_teardown (t_pc s' t) \<Longrightarrow> \<not> unlocked_teardown (t_pc s t) \<Longrightarrow>
   t_tearingDown s' \<and> t_session s' = None"
  by (cases "t_pc s t"; clarsimp simp: act_defs Let_def split: option.splits if_splits act.splits)

lemma act_gate_kept:
  "thread_act t a s = Some s' \<Longrightarrow> t_tearingDown s \<Longrightarrow> t_session s = None \<Longrightarrow> \<not> shutting (t_pc s t) \<or> t_pc s t \<noteq> Sh_relock \<Longrightarrow>
   t_tearingDown s' \<and> t_session s' = None"
  by (cases "t_pc s t"; clarsimp simp: act_defs Let_def split: option.splits if_splits act.splits)

lemma act_others: "thread_act t a s = Some s' \<Longrightarrow> u \<noteq> t \<Longrightarrow> t_pc s' u = t_pc s u"
  by (cases "t_pc s t"; clarsimp simp: act_defs Let_def split: option.splits if_splits act.splits)

lemma gate_step:
  assumes g: "gate_ok T s" and act: "thread_act t a s = Some s'"
    and a: "a \<noteq> Call_exit" "\<And>h. a = Call_shutdown h \<Longrightarrow> t = T"
  shows "gate_ok T s'"
proof -
  have ex: "\<not> exiting (t_pc s' u)" for u
    using g act_exiting [OF act] act_others [OF act, of u] a(1) by (cases "u = t") (auto simp: gate_ok_def)
  have sh: "shutting (t_pc s' u) \<Longrightarrow> u = T" for u
    using g act_shutting [OF act] act_others [OF act, of u] a(2) by (cases "u = t") (auto simp: gate_ok_def)
  have "t_tearingDown s' \<and> t_session s' = None" if td: "unlocked_teardown (t_pc s' T)"
  proof (cases "unlocked_teardown (t_pc s T)")
    case True
    then have closed: "t_tearingDown s" "t_session s = None" using g by (simp_all add: gate_ok_def)
    have "t \<noteq> T \<or> t_pc s T \<noteq> Sh_relock"
      using act td by (auto simp: act_defs split: if_splits)
    then have "\<not> shutting (t_pc s t) \<or> t_pc s t \<noteq> Sh_relock" using g by (auto simp: gate_ok_def)
    from act_gate_kept [OF act closed this] show ?thesis .
  next
    case False
    then have "t = T" using td act_others [OF act, of T] by metis
    with act_unlocked [OF act] td False show ?thesis by simp
  qed
  with ex sh show ?thesis by (simp add: gate_ok_def)
qed

lemma reachable_gate: "threads_reachable may s \<Longrightarrow> one_shutdown T may \<Longrightarrow> gate_ok T s"
proof (induction rule: threads_reachable.induct)
  case loaded show ?case by (simp add: gate_ok_def threads_loaded_def)
next
  case (act s t a s')
  from gate_step [OF act.IH [OF act.prems] act.hyps(3)] act.hyps(2) act.prems show ?case
    unfolding one_shutdown_def by blast
qed

end
