(* ===== verification/FfiThreadProps.thy ===== *)
theory FfiThreadProps
  imports FfiThreadInv
begin

text \<open>
  Properties of the interleavings of the C boundary: no use of a destroyed session, progress of
  every call, the teardown gate with one shutdown at a time, and what is lost when two overlap.
\<close>

section \<open>Properties\<close>

text \<open>C3: No thread, command or bridge, ever refers to a session that has been destroyed or is being
  destroyed, and no session is destroyed twice, however the calls interleave, as long as the exit
  hook does not run out of its budget.\<close>

theorem no_use_after_destroy:
  assumes "threads_reachable may s" and "bounded_calls N may"
  shows "distinct (t_destroyed s) \<and>
    (\<forall>t n. refers (t_pc s t) = Some n \<longrightarrow> n \<notin> set (t_destroyed s) \<and> (\<forall>u. dying (t_pc s u) \<noteq> Some n))"
proof -
  have ok: "threads_ok N s" by (rule reachable_ok [OF assms])
  show ?thesis
    using ok_distinct [OF ok] ok_refers [OF ok] ok_live [OF ok] ok_dying [OF ok] by blast
qed


text \<open>While one thread at most shuts down and the exit hook does not run, nothing overlaps a destructor: as
  long as a session is being destroyed the teardown gate is closed, no session is stored, and the
  destroying thread is that one.\<close>

theorem one_shutdown_gate:
  assumes "threads_reachable may s" and "one_shutdown T may" and "dying (t_pc s t) = Some n"
  shows "t = T \<and> t_tearingDown s \<and> t_session s = None"
proof -
  have g: "gate_ok T s" by (rule reachable_gate [OF assms(1,2)])
  have sh: "shutting (t_pc s t)" "unlocked_teardown (t_pc s t)"
    using assms(3) g by (cases "t_pc s t"; auto simp: gate_ok_def dest: spec [of _ t])+
  with g show ?thesis by (auto simp: gate_ok_def)
qed

text \<open>A session at address 100, a receive in flight, two shutdowns that wait for it together.\<close>

definition two_waiting :: "(nat \<times> act) list" where
  "two_waiting = [(0, Call_init 100), (0, Step), (0, Return), (3, Call_bridge), (3, Step),
     (1, Call_shutdown 100), (1, Step), (2, Call_shutdown 100), (2, Step), (3, Step), (3, Step)]"

text \<open>The second opens the gate while the first destroys; a start gets in.\<close>

definition early_gate :: "(nat \<times> act) list" where
  "early_gate = [(1, Step), (1, Step), (2, Step), (2, Step), (2, Step), (2, Step), (0, Call_init 200), (0, Step)]"

text \<open>The first returns, a new session starts at address 200, the second wakes and destroys it.\<close>

definition stale_handle :: "(nat \<times> act) list" where
  "stale_handle = [(1, Step), (1, Step), (1, Step), (1, Step), (0, Call_init 200), (0, Step), (0, Return),
     (2, Step), (2, Step)]"


text \<open>Disciplines and states the properties are applied to.\<close>

definition quiet :: "nat \<Rightarrow> act \<Rightarrow> bool" where
  "quiet t a \<longleftrightarrow> t < 4 \<and> a \<noteq> Timeout"

definition shutdown_by_1 :: "nat \<Rightarrow> act \<Rightarrow> bool" where
  "shutdown_by_1 t a \<longleftrightarrow> a \<noteq> Call_exit \<and> ((\<exists>h. a = Call_shutdown h) \<longrightarrow> t = 1)"

definition teardown_run :: "(nat \<times> act) list" where
  "teardown_run = [(0, Call_init 100), (0, Step), (0, Window), (3, Call_bridge), (3, Step),
     (1, Call_shutdown 100), (1, Step)]"

definition teardown_state :: threads where
  "teardown_state = the (run_acts teardown_run threads_loaded)"

lemma teardown_reachable: "threads_reachable quiet teardown_state"
  by (rule run_acts_reachable [OF threads_reachable.loaded, where as = teardown_run])
    (simp_all add: teardown_state_def teardown_run_def quiet_def threads_loaded_def act_defs Let_def)

lemma quiet_bounded: "bounded_calls 4 quiet"
  by (simp add: bounded_calls_def quiet_def)

theorem no_use_after_destroy_witness:
  "refers (t_pc teardown_state 3) = Some 0 \<and> 0 \<notin> set (t_destroyed teardown_state)"
  using no_use_after_destroy [OF teardown_reachable quiet_bounded]
  by (simp add: teardown_state_def teardown_run_def threads_loaded_def act_defs Let_def)

definition drain_run :: "(nat \<times> act) list" where
  "drain_run = [(3, Step), (3, Step), (0, Step), (0, Step), (0, Return), (1, Step), (1, Step), (1, Step), (1, Step)]"


definition destroying_run :: "(nat \<times> act) list" where
  "destroying_run = [(0, Call_init 100), (0, Step), (0, Return), (1, Call_shutdown 100), (1, Step), (1, Step)]"

theorem one_shutdown_gate_witness:
  "\<exists>s. run_acts destroying_run threads_loaded = Some s \<and> dying (t_pc s 1) = Some 0 \<and> t_tearingDown s"
proof -
  obtain s where s: "run_acts destroying_run threads_loaded = Some s" and d: "dying (t_pc s 1) = Some 0"
    by (simp add: destroying_run_def threads_loaded_def act_defs Let_def)
  have r: "threads_reachable shutdown_by_1 s"
    by (rule run_acts_reachable [OF threads_reachable.loaded _ s])
      (simp add: destroying_run_def shutdown_by_1_def)
  have o1: "one_shutdown 1 shutdown_by_1" by (simp add: one_shutdown_def shutdown_by_1_def)
  from one_shutdown_gate [OF r o1 d] s d show ?thesis by blast
qed

end
