(* ===== verification/FfiSimulation.thy ===== *)
theory FfiSimulation
  imports FfiProps FfiThreadInv
begin

text \<open>
  The handlers as single steps (\<open>Ffi\<close>, \<open>FfiCommands\<close>, \<open>FfiLifecycle\<close>) against the interleavings of
  \<open>FfiThreads\<close>: what a handler does to the session, the count of operations in flight and the two gates is
  a run of one thread that enters the library, does its steps and leaves it. Two states match when they agree
  on these and no thread is in the library, but for receive bridges that an exception took out of it.
\<close>

section \<open>The common view\<close>

type_synonym gates_view = "handle option \<times> uint32 \<times> bool \<times> bool"

definition ffi_gates :: "'w ffi \<Rightarrow> gates_view" where
  "ffi_gates s = (map_option fst (g_session s), g_inFlight s, g_receivingDisabled s, g_tearingDown s)"

definition thread_gates :: "threads \<Rightarrow> gates_view" where
  "thread_gates T = (map_option snd (t_session T), t_inFlight T, t_receivingDisabled T, t_tearingDown T)"

definition resting :: "threads \<Rightarrow> bool" where
  "resting T \<longleftrightarrow> t_mutex T = None \<and> finite {u. t_pc T u \<noteq> Idle} \<and>
     (\<forall>u. t_pc T u = Idle \<or> (\<exists>n. t_pc T u = Br_window n))"

definition matches :: "'w ffi \<Rightarrow> threads \<Rightarrow> bool" where
  "matches s T \<longleftrightarrow> resting T \<and> ffi_gates s = thread_gates T"

text \<open>A run of thread \<open>u\<close> alone.\<close>

definition runs_to :: "nat \<Rightarrow> act list \<Rightarrow> threads \<Rightarrow> threads \<Rightarrow> bool" where
  "runs_to u as T T' \<longleftrightarrow> run_acts (map (Pair u) as) T = Some T'"

lemma gates_upd [simp]:
  "ffi_gates (s\<lparr>g_proc := p\<rparr>) = ffi_gates s" "ffi_gates (s\<lparr>g_entities := es\<rparr>) = ffi_gates s"
  "ffi_gates (s\<lparr>g_messaging := m\<rparr>) = ffi_gates s" "ffi_gates (s\<lparr>g_roomTopics := r\<rparr>) = ffi_gates s"
  "ffi_gates (s\<lparr>g_derivedTopics := d\<rparr>) = ffi_gates s" "ffi_gates (s\<lparr>g_explicitTopics := e\<rparr>) = ffi_gates s"
  "ffi_gates (s\<lparr>g_sdkBootedHere := b\<rparr>) = ffi_gates s" "ffi_gates (s\<lparr>g_exitHookRegistered := b\<rparr>) = ffi_gates s"
  "ffi_gates (s\<lparr>g_apiDlInitialized := b\<rparr>) = ffi_gates s"
  by (simp_all add: ffi_gates_def)

section \<open>What the handlers do to it\<close>

lemma gates_helpers [simp]:
  "ffi_gates (Post P e s) = ffi_gates s" "ffi_gates (Notice P n s) = ffi_gates s"
  "ffi_gates (PushMessageHistory P t s) = ffi_gates s" "ffi_gates (snd (SubscribeLive P t s)) = ffi_gates s"
  "ffi_gates (RefreshDerivedJoins P s) = ffi_gates s" "ffi_gates (refresh_and_post P s) = ffi_gates s"
  by (simp_all add: ffi_gates_def)

lemma gates_dispatch: "ffi_gates (snd (dispatch_command P c s)) = ffi_gates s"
proof (cases c)
  case (JoinTopic t)
  have "ffi_gates (join_topics t (s\<lparr>g_proc := p\<rparr>)) = ffi_gates s" for p by (simp add: ffi_gates_def)
  with JoinTopic show ?thesis by (cases rule: publish_join_cases [of t P s]) (simp_all add: Let_def case_prod_beta)
next
  case (SendText t body)
  then show ?thesis by (simp add: publish_send_def ffi_gates_def Let_def case_prod_beta)
qed (simp_all add: publish_create_space_def publish_create_room_def publish_update_space_def publish_not_set_def
    Let_def case_prod_beta)

lemma gates_publish: "ffi_gates (snd (gcs_publish P h topic payload s)) = ffi_gates s"
  by (simp add: gcs_publish_def gates_dispatch split: option.split)

lemma gates_subscribe: "ffi_gates (snd (gcs_subscribe P h topic port s)) = ffi_gates s"
  by (simp add: gcs_subscribe_def Let_def)

lemma gates_live: "ffi_gates (live_bridge P topic data s) = ffi_gates s"
  by (simp add: live_bridge_def ffi_gates_def Let_def case_prod_beta split: option.split)

lemma gates_heal: "fst (heal_bridge P key val s) \<Longrightarrow> ffi_gates (snd (heal_bridge P key val s)) = ffi_gates s"
  by (auto simp: heal_bridge_def ffi_gates_def Let_def case_prod_beta split: option.splits if_splits)

lemma gates_archive: "ffi_gates (archive_turn P s) = ffi_gates s"
  by (simp add: archive_turn_def split: option.split worker_turn.split)

lemma gates_shutdown:
  assumes "gcs_shutdown P h s = Some s'"
  shows "ffi_gates s' = (if handle_matches s h then (None, 0, True, False) else ffi_gates s)"
    and "handle_matches s h \<Longrightarrow> g_inFlight s = 0"
  using assms
  by (auto simp: gcs_shutdown_def TeardownSessionAndNode_def evict_globals_def ffi_gates_def handle_matches_def
      Let_def case_prod_beta split: if_splits option.splits)

lemma gates_exit:
  assumes "exit_hook P lk st now s = Some s'"
  obtains (abandoned) "ffi_gates s' = (map_option fst (g_session s), g_inFlight s, True, True)"
  | (torn_down) "ffi_gates s' = (None, g_inFlight s, True, True)"
  using assms
  by (auto simp: exit_hook_def TeardownSessionAndNode_def evict_globals_def ffi_gates_def Let_def case_prod_beta
      split: if_splits option.splits prod.splits)

lemma gates_init:
  assumes ok: "ffi_ok P ssl s" and init: "gcs_init P ssl b s = (r, s')"
  obtains (same) "ffi_gates s' = ffi_gates s"
  | (started) a where "g_session s = None" "\<not> g_tearingDown s" "ffi_gates s' = (Some a, g_inFlight s, False, False)"
proof (cases "g_session s")
  case (Some x)
  obtain a cs where x: "x = (a, cs)" by fastforce
  have "ffi_gates s' = ffi_gates s"
    using init gcs_init_existing [of s a cs P ssl b] Some x by (cases "g_tearingDown s") (auto simp: gcs_init_def)
  then show thesis by (rule same)
next
  case None
  from ok None show thesis
  proof (cases rule: gcs_init_new_cases [where b = b])
    case (booted config bt h p)
    let ?s1 = "s\<lparr>g_apiDlInitialized := True, g_sdkBootedHere := bt, g_exitHookRegistered := h, g_proc := p\<rparr>"
    have ok1: "ffi_ok P ssl ?s1" and none1: "g_session ?s1 = None" using ok None by simp_all
    from ok1 none1 show thesis
    proof (cases rule: init_session_cases [where config = config])
      case (running a cs joined q)
      have "ffi_gates s' = (Some a, g_inFlight s, False, False)"
        using init booted(1,2) running(6)
        by (auto simp: init_components_def Let_def case_prod_beta) (simp add: ffi_gates_def)
      with started None booted(1) show thesis by blast
    qed (use init booted(2) same in auto)
  qed (use init same in auto)
qed

section \<open>The runs\<close>

lemma resting_upd [simp]:
  "resting (T\<lparr>t_session := x\<rparr>) = resting T" "resting (T\<lparr>t_next := k\<rparr>) = resting T"
  "resting (T\<lparr>t_inFlight := i\<rparr>) = resting T" "resting (T\<lparr>t_receivingDisabled := b\<rparr>) = resting T"
  "resting (T\<lparr>t_tearingDown := b\<rparr>) = resting T" "resting (T\<lparr>t_destroyed := d\<rparr>) = resting T"
  by (simp_all add: resting_def)

lemma resting_unlocked: "resting T \<Longrightarrow> t_mutex T = None" "resting T \<Longrightarrow> T\<lparr>t_mutex := None\<rparr> = T"
  by (simp_all add: resting_def)

lemma resting_stuck:
  assumes "resting T" and "t_pc T u = Idle"
  shows "resting (goto u (Br_window n) T)"
proof -
  have "{v. t_pc (goto u (Br_window n) T) v \<noteq> Idle} = insert u {v. t_pc T v \<noteq> Idle}" by (auto simp: goto_def)
  with assms show ?thesis by (simp add: resting_def goto_def)
qed

lemma idle_thread:
  assumes "resting T"
  obtains u where "t_pc T u = Idle"
proof -
  have "finite {u. t_pc T u \<noteq> Idle}" using assms by (simp add: resting_def)
  then have "{u. t_pc T u \<noteq> Idle} \<noteq> UNIV" using infinite_UNIV_nat by metis
  with that show thesis by auto
qed

lemmas run_defs = runs_to_def act_defs resting_unlocked fun_upd_idem thread_gates_def

lemma command_run:
  assumes "resting T" and "t_pc T u = Idle"
  shows "\<exists>as. runs_to u (Call_publish h # as) T T"
proof -
  have "runs_to u [Call_publish h, Step] T T" if "t_session T = None \<or> snd (the (t_session T)) \<noteq> h"
    using assms that by (cases "t_session T") (auto simp: run_defs)
  moreover have "runs_to u [Call_publish h, Step, Window, Step, Step, Return] T T" if "t_session T = Some (n, h)" for n
    using assms that by (simp add: run_defs)
  ultimately show ?thesis by (cases "t_session T") force+
qed

lemma bridge_run:
  assumes "resting T" and "t_pc T u = Idle"
  shows "\<exists>as. runs_to u (Call_bridge # as) T T"
proof -
  have "runs_to u [Call_bridge] T T" if "t_receivingDisabled T"
    using assms that by (simp add: run_defs)
  moreover have "runs_to u [Call_bridge, Step] T T" if "\<not> t_receivingDisabled T" "t_session T = None"
    using assms that by (simp add: run_defs)
  moreover have "runs_to u [Call_bridge, Step, Step, Step] T T" if "\<not> t_receivingDisabled T" "t_session T = Some x" for x
    using assms that by (cases x) (simp add: run_defs)
  ultimately show ?thesis by (cases "t_receivingDisabled T"; cases "t_session T") blast+
qed

text \<open>A bridge whose call into the messaging component does not return.\<close>

lemma stuck_run:
  assumes "resting T" and "t_pc T u = Idle" and "\<not> t_receivingDisabled T" and "t_session T = Some (n, a)"
  shows "runs_to u [Call_bridge, Step] T (goto u (Br_window n) (T\<lparr>t_inFlight := t_inFlight T + 1\<rparr>))"
  using assms by (simp add: run_defs)

lemma init_run:
  assumes "resting T" and "t_pc T u = Idle"
  shows "runs_to u [Call_init a, Return] T T"
    and "t_session T = None \<Longrightarrow> \<not> t_tearingDown T \<Longrightarrow>
      runs_to u [Call_init a, Step, Return] T
        (T\<lparr>t_session := Some (t_next T, a), t_next := Suc (t_next T), t_receivingDisabled := False\<rparr>)"
  using assms by (simp_all add: run_defs)

lemma shutdown_run:
  assumes "resting T" and "t_pc T u = Idle"
  shows "t_session T = None \<or> snd (the (t_session T)) \<noteq> h \<Longrightarrow> runs_to u [Call_shutdown h, Step] T T"
    and "t_session T = Some (n, h) \<Longrightarrow> t_inFlight T = 0 \<Longrightarrow> runs_to u [Call_shutdown h, Step, Step, Step, Step] T
      (T\<lparr>t_session := None, t_destroyed := n # t_destroyed T, t_receivingDisabled := True, t_tearingDown := False\<rparr>)"
    and "t_session T = Some (n, h) \<Longrightarrow> t_inFlight T \<noteq> 0 \<Longrightarrow> runs_to u [Call_shutdown h, Step] T
      (goto u Sh_wait (T\<lparr>t_receivingDisabled := True\<rparr>))"
  using assms by (cases "t_session T"; auto simp: run_defs)+

lemma exit_run:
  assumes "resting T" and "t_pc T u = Idle"
  shows "runs_to u [Call_exit, Timeout] T (T\<lparr>t_receivingDisabled := True, t_tearingDown := True\<rparr>)"
    and "\<exists>as. runs_to u (Call_exit # as) T
      (destroy (map_option fst (t_session T)) (T\<lparr>t_session := None, t_receivingDisabled := True, t_tearingDown := True\<rparr>))"
proof -
  show "runs_to u [Call_exit, Timeout] T (T\<lparr>t_receivingDisabled := True, t_tearingDown := True\<rparr>)"
    using assms by (simp add: run_defs)
  let ?T = "destroy (map_option fst (t_session T))
    (T\<lparr>t_session := None, t_receivingDisabled := True, t_tearingDown := True\<rparr>)"
  have "runs_to u [Call_exit, Step, Step, Step] T ?T" if "t_inFlight T = 0"
    using assms that by (cases "t_session T") (simp_all add: run_defs)
  moreover have "runs_to u [Call_exit, Step, Timeout, Step, Step] T ?T" if "t_inFlight T \<noteq> 0"
    using assms that by (cases "t_session T") (simp_all add: run_defs)
  ultimately show "\<exists>as. runs_to u (Call_exit # as) T ?T" by blast
qed

section \<open>The handlers as runs\<close>

lemma run_reachable:
  "threads_reachable (\<lambda>_ _. True) T \<Longrightarrow> runs_to u as T T' \<Longrightarrow> threads_reachable (\<lambda>_ _. True) T'"
  unfolding runs_to_def by (rule run_acts_reachable) (auto simp: list_all_iff)

lemma matches_same: "matches s T \<Longrightarrow> ffi_gates s' = ffi_gates s \<Longrightarrow> matches s' T"
  by (simp add: matches_def)

lemma matches_fields:
  assumes "matches s T"
  shows "resting T" and "t_inFlight T = g_inFlight s" and "t_receivingDisabled T = g_receivingDisabled s"
    and "t_tearingDown T = g_tearingDown s" and "map_option snd (t_session T) = map_option fst (g_session s)"
  using assms by (simp_all add: matches_def ffi_gates_def thread_gates_def)

lemma matches_session:
  assumes "matches s T"
  shows "t_session T = None \<longleftrightarrow> g_session s = None"
    and "handle_matches s (Some h) \<longleftrightarrow> (\<exists>n. t_session T = Some (n, h))"
  using matches_fields(5) [OF assms]
  by (cases "t_session T"; cases "g_session s"; auto simp: handle_matches_def)+

lemma init_simulated:
  assumes "ffi_ok P ssl s" and "matches s T" and "t_pc T u = Idle"
  shows "\<exists>a as T'. runs_to u (Call_init a # as) T T' \<and> matches (snd (gcs_init P ssl b s)) T'"
proof -
  obtain r s' where init: "gcs_init P ssl b s = (r, s')" by fastforce
  note rest = matches_fields [OF assms(2)]
  from assms(1) init show ?thesis
  proof (cases rule: gates_init)
    case same
    with init_run(1) [OF rest(1) assms(3)] matches_same [OF assms(2)] init show ?thesis by fastforce
  next
    case (started a)
    let ?T = "T\<lparr>t_session := Some (t_next T, a), t_next := Suc (t_next T), t_receivingDisabled := False\<rparr>"
    have "matches s' ?T" using started rest by (simp add: matches_def thread_gates_def)
    moreover have "runs_to u [Call_init a, Step, Return] T ?T"
      using init_run(2) [OF rest(1) assms(3)] started rest matches_session(1) [OF assms(2)] by simp
    ultimately show ?thesis using init by (metis snd_conv)
  qed
qed

lemma shutdown_simulated:
  assumes "matches s T" and "t_pc T u = Idle" and "gcs_shutdown P (Some h) s = Some s'"
  shows "\<exists>as T'. runs_to u (Call_shutdown h # as) T T' \<and> matches s' T'"
proof (cases "handle_matches s (Some h)")
  case False
  then have "t_session T = None \<or> snd (the (t_session T)) \<noteq> h"
    using matches_session(2) [OF assms(1)] by (cases "t_session T") auto
  from shutdown_run(1) [OF matches_fields(1) [OF assms(1)] assms(2) this]
  show ?thesis using matches_same [OF assms(1)] gates_shutdown(1) [OF assms(3)] False by metis
next
  case True
  then obtain n where n: "t_session T = Some (n, h)" using matches_session(2) [OF assms(1)] by blast
  have quiet: "t_inFlight T = 0" using gates_shutdown(2) [OF assms(3) True] matches_fields(2) [OF assms(1)] by simp
  let ?T = "T\<lparr>t_session := None, t_destroyed := n # t_destroyed T, t_receivingDisabled := True, t_tearingDown := False\<rparr>"
  have "matches s' ?T"
    using gates_shutdown(1) [OF assms(3)] True matches_fields(1) [OF assms(1)] quiet by (simp add: matches_def thread_gates_def)
  with shutdown_run(2) [OF matches_fields(1) [OF assms(1)] assms(2) n quiet] show ?thesis by blast
qed

text \<open>A shutdown with an operation in flight waits, with the intake closed.\<close>

lemma shutdown_waits:
  assumes "matches s T" and "t_pc T u = Idle" and "gcs_shutdown P (Some h) s = None"
  shows "\<exists>T'. runs_to u [Call_shutdown h, Step] T T' \<and> t_pc T' u = Sh_wait \<and> t_inFlight T' \<noteq> 0 \<and> t_receivingDisabled T'"
proof -
  have "handle_matches s (Some h)" "g_inFlight s \<noteq> 0" using assms(3) by (simp_all add: gcs_shutdown_def Let_def split: if_splits)
  then show ?thesis
    using shutdown_run(3) [OF matches_fields(1) [OF assms(1)] assms(2)] matches_session(2) [OF assms(1)]
      matches_fields(2) [OF assms(1)] by (force simp: goto_def)
qed

lemma exit_simulated:
  assumes "matches s T" and "t_pc T u = Idle" and "exit_hook P lk st now s = Some s'"
  shows "\<exists>as T'. runs_to u (Call_exit # as) T T' \<and> matches s' T'"
proof -
  note rest = matches_fields [OF assms(1)]
  from assms(3) show ?thesis
  proof (cases rule: gates_exit)
    case abandoned
    then have "matches s' (T\<lparr>t_receivingDisabled := True, t_tearingDown := True\<rparr>)"
      using rest by (simp add: matches_def thread_gates_def)
    with exit_run(1) [OF rest(1) assms(2)] show ?thesis by blast
  next
    case torn_down
    then have "matches s' (destroy (map_option fst (t_session T))
        (T\<lparr>t_session := None, t_receivingDisabled := True, t_tearingDown := True\<rparr>))"
      using rest by (cases "t_session T") (simp_all add: matches_def thread_gates_def destroy_def)
    with exit_run(2) [OF rest(1) assms(2)] show ?thesis by blast
  qed
qed

lemma heal_simulated:
  assumes "ffi_ok P ssl s" and "matches s T" and "t_pc T u = Idle"
  shows "\<exists>as T'. runs_to u (Call_bridge # as) T T' \<and> matches (snd (heal_bridge P key val s)) T'"
proof (cases "fst (heal_bridge P key val s)")
  case True
  with gates_heal matches_same [OF assms(2)] bridge_run [OF matches_fields(1) [OF assms(2)] assms(3)]
  show ?thesis by metis
next
  case False
  note rest = matches_fields [OF assms(2)]
  from False have stuck: "\<not> g_receivingDisabled s" "g_messaging s \<noteq> None"
    "snd (heal_bridge P key val s) = s\<lparr>g_inFlight := g_inFlight s + 1\<rparr>"
    by (auto simp: heal_bridge_def Let_def split: if_splits option.splits)
  have "g_session s \<noteq> None" using ffi_ok_no_session [OF assms(1)] stuck(2) by blast
  then obtain n a where n: "t_session T = Some (n, a)" using matches_session(1) [OF assms(2)] by (cases "t_session T") auto
  let ?T = "T\<lparr>t_inFlight := t_inFlight T + 1\<rparr>"
  have "resting (goto u (Br_window n) ?T)" using rest(1) assms(3) by (intro resting_stuck) simp_all
  moreover have "ffi_gates (s\<lparr>g_inFlight := g_inFlight s + 1\<rparr>) = thread_gates (goto u (Br_window n) ?T)"
    using rest by (simp add: ffi_gates_def thread_gates_def goto_def)
  ultimately have "matches (snd (heal_bridge P key val s)) (goto u (Br_window n) ?T)"
    by (simp add: matches_def stuck(3))
  moreover have "runs_to u [Call_bridge, Step] T (goto u (Br_window n) ?T)"
    using stuck_run [OF rest(1) assms(3)] stuck(1) n rest(3) by simp
  ultimately show ?thesis by blast
qed

lemma step_simulated:
  assumes "ffi_step P ssl s s'" and "ffi_ok P ssl s" and "matches s T"
  shows "\<exists>u as T'. runs_to u as T T' \<and> matches s' T'"
proof -
  obtain u where u: "t_pc T u = Idle" using idle_thread [OF matches_fields(1) [OF assms(3)]] .
  have same: ?thesis if "ffi_gates s' = ffi_gates s"
    using matches_same [OF assms(3) that] by (intro exI [of _ u] exI [of _ "[]"]) (auto simp: runs_to_def)
  from assms(1) show ?thesis
  proof cases
    case (init b) then show ?thesis using init_simulated [OF assms(2,3) u] by metis
  next
    case (shutdown h)
    then show ?thesis using shutdown_simulated [OF assms(3) u] same by (cases h) (force simp: gates_shutdown(1) handle_matches_def split: option.splits)+
  next
    case exit then show ?thesis using exit_simulated [OF assms(3) u] by metis
  next
    case heal then show ?thesis using heal_simulated [OF assms(2,3) u] by metis
  qed (rule same; simp add: gates_publish gates_subscribe gates_live gates_archive)+
qed

text \<open>Every reachable state of the sequential model is met by an interleaving.\<close>

lemma reachable_simulated:
  assumes "ffi_reachable P ssl s"
  shows "\<exists>T. threads_reachable (\<lambda>_ _. True) T \<and> matches s T"
  using assms
proof induction
  case (loaded p)
  have "matches (ffi_loaded p) threads_loaded"
    by (simp add: matches_def resting_def ffi_gates_def thread_gates_def ffi_loaded_def threads_loaded_def)
  then show ?case using threads_reachable.loaded by blast
next
  case (step s t)
  then show ?case using step_simulated [OF step(2) ffi_reachable_inv] run_reachable by meson
qed

text \<open>C12: each call of the C boundary, as the sequential model has it, is a run of one thread of the interleaving model
  that makes the call, takes its steps and leaves the session, the count of operations in flight and both gates as the
  handler does; a shutdown that does not return is a thread that waits with the intake closed.\<close>

theorem handlers_run_on_threads:
  assumes "ffi_reachable P ssl s" and "matches s T" and "t_pc T u = Idle"
  shows "(\<exists>as T'. runs_to u (Call_publish h # as) T T' \<and> matches (snd (gcs_publish P (Some h) topic payload s)) T') \<and>
    (\<exists>as T'. runs_to u (Call_publish h # as) T T' \<and> matches (snd (gcs_subscribe P (Some h) topic port s)) T') \<and>
    (\<exists>as T'. runs_to u (Call_bridge # as) T T' \<and> matches (live_bridge P room data s) T') \<and>
    (\<exists>as T'. runs_to u (Call_bridge # as) T T' \<and> matches (snd (heal_bridge P key val s)) T') \<and>
    (\<exists>a as T'. runs_to u (Call_init a # as) T T' \<and> matches (snd (gcs_init P ssl b s)) T') \<and>
    (\<forall>s'. gcs_shutdown P (Some h) s = Some s' \<longrightarrow>
      (\<exists>as T'. runs_to u (Call_shutdown h # as) T T' \<and> matches s' T')) \<and>
    (gcs_shutdown P (Some h) s = None \<longrightarrow>
      (\<exists>T'. runs_to u [Call_shutdown h, Step] T T' \<and> t_pc T' u = Sh_wait \<and> t_inFlight T' \<noteq> 0 \<and> t_receivingDisabled T')) \<and>
    (\<forall>s'. exit_hook P lk st now s = Some s' \<longrightarrow> (\<exists>as T'. runs_to u (Call_exit # as) T T' \<and> matches s' T'))"
proof (intro conjI allI impI)
  note ok = ffi_reachable_inv [OF assms(1)] and rest = matches_fields(1) [OF assms(2)]
  show "\<exists>as T'. runs_to u (Call_publish h # as) T T' \<and> matches (snd (gcs_publish P (Some h) topic payload s)) T'"
    using command_run [OF rest assms(3)] matches_same [OF assms(2) gates_publish] by blast
  show "\<exists>as T'. runs_to u (Call_publish h # as) T T' \<and> matches (snd (gcs_subscribe P (Some h) topic port s)) T'"
    using command_run [OF rest assms(3)] matches_same [OF assms(2) gates_subscribe] by blast
  show "\<exists>as T'. runs_to u (Call_bridge # as) T T' \<and> matches (live_bridge P room data s) T'"
    using bridge_run [OF rest assms(3)] matches_same [OF assms(2) gates_live] by blast
  show "\<exists>as T'. runs_to u (Call_bridge # as) T T' \<and> matches (snd (heal_bridge P key val s)) T'"
    by (rule heal_simulated [OF ok assms(2,3)])
  show "\<exists>a as T'. runs_to u (Call_init a # as) T T' \<and> matches (snd (gcs_init P ssl b s)) T'"
    by (rule init_simulated [OF ok assms(2,3)])
qed (blast intro: shutdown_simulated [OF assms(2,3)] shutdown_waits [OF assms(2,3)] exit_simulated [OF assms(2,3)])+

text \<open>A started session, shut down.\<close>

theorem handlers_run_on_threads_witness:
  "ffi_reachable ref_platform ref_ssl ref_ffi1 \<and>
   matches ref_ffi1 (threads_loaded\<lparr>t_session := Some (0, 4), t_next := 1\<rparr>) \<and>
   t_pc (threads_loaded\<lparr>t_session := Some (0, 4), t_next := 1\<rparr>) 7 = Idle \<and>
   (\<exists>s' as T'. gcs_shutdown ref_platform (Some 4) ref_ffi1 = Some s' \<and>
      runs_to 7 (Call_shutdown 4 # as) (threads_loaded\<lparr>t_session := Some (0, 4), t_next := 1\<rparr>) T' \<and> matches s' T')"
proof -
  let ?T = "threads_loaded\<lparr>t_session := Some (0, 4), t_next := 1\<rparr>"
  have m: "matches ref_ffi1 ?T"
    by (simp add: matches_def resting_def ffi_gates_def thread_gates_def threads_loaded_def)
  have i: "t_pc ?T 7 = Idle" by (simp add: threads_loaded_def)
  obtain s' where s': "gcs_shutdown ref_platform (Some 4) ref_ffi1 = Some s'"
    by (simp add: gcs_shutdown_def Let_def)
  from handlers_run_on_threads [OF ref_reachable(2) m i, of 4] s' ref_reachable(2) m i show ?thesis by blast
qed

end
