(* ===== verification/FfiEndToEnd.thy ===== *)
theory FfiEndToEnd
  imports FfiProps
begin

text \<open>
  A message from one process to another through the whole library: the \<open>send_text\<close> command at the C boundary
  of the sender (\<open>gcs_publish\<close>), the messaging component and the crypto adapter below it, and the two
  receive bridges of the peer up to its Dart port (\<open>src/ffi/gcs_core_ffi.cpp\<close>,
  \<open>src/lib/gcs_messaging.cpp\<close>, \<open>src/lib/gcs_crypto.cpp\<close>).
\<close>

section \<open>The peer's messaging component\<close>

text \<open>The sent record as a peer shows it.\<close>

definition peer_message :: "'w platform \<Rightarrow> 'w messaging \<Rightarrow> string \<Rightarrow> string \<Rightarrow> 'w proc \<Rightarrow> ChatMessageState" where
  "peer_message P m topic body p =
     (draft P m topic body p)\<lparr>cm_state := MESSAGE_STATE_COMPLETE, cm_role := MESSAGE_ROLE_USER_PEER\<rparr>"

lemma sent_payload_delivered:
  assumes codec: "protobuf_ok (proto P)" and agree: "seam_agree ssl m m2"
    and utf8: "seed_ok p" "valid_utf8 topic" "valid_utf8 body" "valid_utf8 (m_sender m)"
    and fit: "fits_int topic" "fits_int (sent_payload_source P m topic body p)"
    and pay: "make_payload m topic (sent_payload_source P m topic body p) w = (Inr payload, w')"
    and proto: "proto P2 = proto P" and sink: "m_sink m2 = PostToDart P2" and att: "dart_attached p2"
    and new: "cm_id (draft P m topic body p) \<notin> set (m_seenIds m2)" and other: "m_sender m \<noteq> m_sender m2"
    and run: "ApplyMessage P2 topic payload m2 p2 = (m2', p2')"
  shows "posted p2' = posted p2 @ [(dart_port p2, SerializeGcsEvent P2 (Ev_message (peer_message P m topic body p)))]"
    and "m_archiveQueue m2' = m_archiveQueue m2 @ [(BuildKey topic (cm_id (draft P m topic body p)), payload)]"
    and "posted (snd (ApplyMessage P2 topic payload m2' q)) = posted q"
proof -
  let ?d = "draft P m topic body p"
  let ?msg = "?d\<lparr>cm_state := MESSAGE_STATE_COMPLETE\<rparr>"
  note admits = sent_payload_admitted [OF codec _ utf8 fit pay proto]
  have adm: "admitted P2 topic payload m2 p2 = Some ?msg" using admits [OF agree] new by simp
  have role: "with_role (m_sender m2) ?msg = peer_message P m topic body p"
    using other by (simp add: with_role_def RoleFor_def draft_def peer_message_def)
  let ?w = "snd (open_payload m2 topic payload (world p2))"
  have "dart_attached (p2\<lparr>world := ?w\<rparr>)" using att by (simp add: dart_attached_def)
  then show "posted p2' = posted p2 @ [(dart_port p2, SerializeGcsEvent P2 (Ev_message (peer_message P m topic body p)))]"
    using run sink by (auto simp: ApplyMessage_admitted [OF adm] role PostToDart_attached)
  have "cm_room_topic ?msg = topic" "cm_id ?msg = cm_id ?d" by (simp_all add: draft_def)
  then show "m_archiveQueue m2' = m_archiveQueue m2 @ [(BuildKey topic (cm_id ?d), payload)]"
    using run by (auto simp: ApplyMessage_admitted [OF adm])
  have m2': "m2' = fst (ApplyMessage P2 topic payload m2 p2)" using run by simp
  have "seam_agree ssl m m2'" using agree by (simp add: seam_agree_def m2' ApplyMessage_config)
  note again = admits [OF this, of q]
  have "cm_id ?d \<in> set (m_seenIds m2')" by (simp add: m2' ApplyMessage_admitted [OF adm] seen_admit_def)
  with again have "admitted P2 topic payload m2' q = None" by simp
  from ApplyMessage_rejected [OF this] show "posted (snd (ApplyMessage P2 topic payload m2' q)) = posted q" by simp
qed

section \<open>The bridges of the peer\<close>

text \<open>The key of a message in the raw form the datastore reports it.\<close>

lemma RoomTopicFromKey_value:
  assumes "raw_framing fr" and "CHR ''/'' \<notin> set ident"
  shows "RoomTopicFromKey (fr @ BuildKey topic ident @ kValueSuffix) = Some topic"
  using RoomTopicFromKey_suffixed [OF assms(1), of kValueSuffix "topic @ ''/'' @ ident"] topic_of_tail_segment [OF assms(2)]
  by (simp add: BuildKey_def)

lemma live_bridge_apply:
  assumes "\<not> g_receivingDisabled s" and "g_messaging s = Some m" and "ApplyMessage P topic bs m (g_proc s) = (m', p')"
  shows "live_bridge P topic bs s = s\<lparr>g_messaging := Some m', g_proc := p'\<rparr>"
  using assms by (simp add: live_bridge_def OnLiveMessage_def Let_def)

lemma heal_bridge_apply:
  assumes "\<not> g_receivingDisabled s" and "g_messaging s = Some m" and "ApplyMessage P topic bs m (g_proc s) = (m', p')"
    and "RoomTopicFromKey key = Some topic" and "topic \<noteq> []"
  shows "heal_bridge P key bs s = (True, s\<lparr>g_messaging := Some m', g_proc := p'\<rparr>)"
  using assms by (simp add: heal_bridge_def OnMessageArrived_def Let_def)

text \<open>Either bridge delivers, and neither shows anything when the bytes come again.\<close>

lemma bridges_deliver_once:
  fixes s :: "'w ffi" and m' :: "'w messaging" and p' :: "'w proc"
  defines "t \<equiv> s\<lparr>g_messaging := Some m', g_proc := p'\<rparr>"
  assumes on: "\<not> g_receivingDisabled s" "g_messaging s = Some m" and run: "ApplyMessage P topic bs m (g_proc s) = (m', p')"
    and again: "posted (snd (ApplyMessage P topic bs m' p')) = posted p'"
    and room: "RoomTopicFromKey key = Some topic" "topic \<noteq> []"
  shows "live_bridge P topic bs s = t" and "heal_bridge P key bs s = (True, t)"
    and "posted (g_proc (live_bridge P topic bs t)) = posted p'"
    and "posted (g_proc (snd (heal_bridge P key bs t))) = posted p'"
proof -
  show "live_bridge P topic bs s = t" unfolding t_def by (rule live_bridge_apply [OF on run])
  show "heal_bridge P key bs s = (True, t)" unfolding t_def by (rule heal_bridge_apply [OF on run room])
  obtain m3 p3 where rerun: "ApplyMessage P topic bs m' (g_proc t) = (m3, p3)" by fastforce
  have on': "\<not> g_receivingDisabled t" "g_messaging t = Some m'" using on(1) by (simp_all add: t_def)
  show "posted (g_proc (live_bridge P topic bs t)) = posted p'"
    using live_bridge_apply [OF on' rerun] rerun again by (simp add: t_def)
  show "posted (g_proc (snd (heal_bridge P key bs t))) = posted p'"
    using heal_bridge_apply [OF on' rerun room] rerun again by (simp add: t_def)
qed

section \<open>The command of the sender\<close>

lemma send_command_ok:
  assumes "gcs_publish P h (Some kCommandTopic) (Some bytes) s = (GCS_OK, s')"
    and "parse_command (proto P) bytes = Some (SendText topic body)"
  obtains m' where "Messaging_SendMessage P (the_session s) topic body (the_messaging s) (g_proc s) = (Inr (), m', g_proc s')"
    and "topic \<noteq> []" and "length topic \<le> kMaxTopicLength" and "topic \<in> set (g_roomTopics s)"
    and "handle_matches s h"
proof -
  from assms have send: "publish_send P topic body s = (GCS_OK, s')" and h: "handle_matches s h"
    by (auto simp: gcs_publish_def split: if_splits)
  obtain r m' p' where run: "Messaging_SendMessage P (the_session s) topic body (the_messaging s) (g_proc s) = (r, m', p')"
    by (metis prod.collapse)
  have frame: "the_session (s\<lparr>g_inFlight := i\<rparr>) = the_session s" "the_messaging (s\<lparr>g_inFlight := i\<rparr>) = the_messaging s" for i
    by (simp_all add: the_session_def the_messaging_def)
  from send run that h show thesis
    by (cases r) (auto simp: publish_send_def Let_def frame split: if_splits)
qed

section \<open>Property\<close>


text \<open>Alice sends from a freshly started library; Bob has one with a listener.\<close>

definition ref_peer :: "ref_world ffi" where
  "ref_peer = ref_ffi2\<lparr>g_messaging := Some ref_bob\<rparr>"

definition ref_send :: bytes where
  "ref_send = enc_fields [''send'', kSmokeTopicA, ''hi'']"

lemma ref_send_facts: "ref_send \<noteq> []" "length ref_send \<le> int_max"
  "parse_command (proto ref_platform) ref_send = Some (SendText kSmokeTopicA ''hi'')"
proof -
  show "ref_send \<noteq> []" "length ref_send \<le> int_max"
    by (simp_all add: ref_send_def enc_fields_def int_max_def kSmokeTopicA_def)
  have "parse_command ref_codec (enc_fields [''send'', a, b]) = Some (SendText a b)" for a b
    unfolding ref_codec_def by (simp add: parse_with_def command_of_fields_def)
  then show "parse_command (proto ref_platform) ref_send = Some (SendText kSmokeTopicA ''hi'')"
    by (simp add: ref_send_def ref_platform_def)
qed

lemma ref_peer_facts: "ffi_ok ref_platform ref_ssl ref_peer" "the_messaging ref_peer = ref_bob" "g_session ref_peer \<noteq> None"
  "\<not> g_receivingDisabled ref_peer" "dart_attached (g_proc ref_peer)"
proof -
  have "messaging_wired ref_platform ref_ssl ref_bob"
    by (simp add: messaging_wired_def ref_bob_def Messaging_new_def ref_seam_def messaging_ok_def)
  from ffi_ok_messaging [OF ref_ok(2) ref_ffi2_facts(5) this] show "ffi_ok ref_platform ref_ssl ref_peer"
    by (simp add: ref_peer_def)
  have "\<not> g_receivingDisabled ref_ffi2" by (subst ref_ffi2_eq) simp
  then show "the_messaging ref_peer = ref_bob" "g_session ref_peer \<noteq> None" "\<not> g_receivingDisabled ref_peer"
    "dart_attached (g_proc ref_peer)"
    by (simp_all add: ref_peer_def the_messaging_def)
qed

lemma ref_source_small1:
  "fits_int (sent_payload_source ref_platform ref_alice kSmokeTopicA ''hi'' (g_proc ref_ffi1))"
proof -
  have "length (sent_payload_source ref_platform ref_alice kSmokeTopicA ''hi'' (g_proc ref_ffi1)) < 300"
    by code_simp
  then show ?thesis by (simp add: fits_int_def)
qed

lemma ref_publish_send: "\<exists>s'. gcs_publish ref_platform (Some 4) (Some kCommandTopic) (Some ref_send) ref_ffi1 = (GCS_OK, s')"
proof -
  have pub: "\<exists>q. CoreSession_Publish ref_platform ref_cs t x p = (Inr (), q)" for t x p
    by (simp add: CoreSession_Publish_def GcsGlobalDb_Publish_def) (simp add: ref_platform_def)
  have put: "\<exists>q. CoreSession_Put_topics ref_platform ref_cs k x T p = (Inr (), q)" for k x T p
    by (simp add: core_put_defs with_db_def ref_platform_def)
  have sends: "\<exists>m' p'. Messaging_SendMessage ref_platform ref_cs t b ref_alice p = (Inr (), m', p')" for t b p
  proof -
    let ?e = "after_echo ref_platform ref_alice t b p"
    obtain env where 1: "make_payload ref_alice t (sent_payload_source ref_platform ref_alice t b p) (world ?e)
        = (Inr env, world ?e)"
      using ref_encrypt_any by (force simp: make_payload_def ref_alice_def Messaging_new_def ref_seam_def)
    obtain q where 2: "CoreSession_Publish ref_platform ref_cs t env (?e\<lparr>world := world ?e\<rparr>) = (Inr (), q)"
      using pub by blast
    obtain r where 3: "CoreSession_Put_topics ref_platform ref_cs
        (BuildKey t (cm_id (draft ref_platform ref_alice t b p))) env {t} q = (Inr (), r)"
      using put by blast
    show ?thesis unfolding SendMessage_unfold Let_def 1 prod.case sum.case 2 3 by simp
  qed
  obtain m' p' where run: "Messaging_SendMessage ref_platform ref_cs kSmokeTopicA ''hi'' ref_alice (g_proc ref_ffi1) = (Inr (), m', p')"
    using sends by blast
  have "kSmokeTopicA \<noteq> []" "\<not> kMaxTopicLength < length kSmokeTopicA" "IsValidRoomTopicShape kSmokeTopicA"
    by (simp_all add: IsValidRoomTopicShape_def kSmokeTopicA_def kRoomTopicNamespace_def kMaxTopicLength_def)
  then have "fst (publish_send ref_platform kSmokeTopicA ''hi'' ref_ffi1) = GCS_OK"
    using run by (simp add: publish_send_def Let_def the_session_def the_messaging_def kMaxMessageTextLength_def)
  then show ?thesis using ref_send_facts by (simp add: gcs_publish_def prod_eq_iff)
qed


end
