(* ===== verification/MessagingThreads.thy ===== *)
theory MessagingThreads
  imports Messaging
begin

text \<open>
  The interleavings of the messaging component (\<open>src/lib/gcs_messaging.cpp\<close>): deliveries on the threads of
  the gossip and the replicated-key callbacks, sends and history scans on the command thread, the archive worker,
  and the destructor. The mutex of the dedupe set and the mutex of the archive queue are each held for
  one step, so a step is one locked region or one unlocked phase. A wait on the condition variable is the
  worker's step being enabled when its predicate holds.

  Deliveries are anonymous: a multiset per phase holds the calls that are in it, each with the parsed message and the
  bytes as received. \<open>mt_shown\<close>, \<open>mt_enqueued\<close>, \<open>mt_put\<close> and \<open>mt_evictions\<close> record what was pushed to the
  sink, queued and written, and how often the dedupe set was cleared.
\<close>

section \<open>State\<close>

type_synonym delivery = "ChatMessageState \<times> bytes"

datatype worker = W_loop | W_put "string \<times> bytes" | W_returned
datatype closing = D_none | D_join | D_done

record mthreads =
  mt_seen :: "string list"
  mt_queue :: "(string \<times> bytes) list"
  mt_stopped :: bool
  mt_opened :: "delivery multiset"
  mt_pushing :: "delivery multiset"
  mt_enqueuing :: "delivery multiset"
  mt_worker :: worker
  mt_closing :: closing
  mt_shown :: "delivery list"
  mt_enqueued :: "(string \<times> bytes) list"
  mt_put :: "(string \<times> bytes) list"
  mt_evictions :: nat

definition mthreads_new :: mthreads where
  "mthreads_new = \<lparr>mt_seen = [], mt_queue = [], mt_stopped = False, mt_opened = {#}, mt_pushing = {#},
     mt_enqueuing = {#}, mt_worker = W_loop, mt_closing = D_none, mt_shown = [], mt_enqueued = [], mt_put = [],
     mt_evictions = 0\<rparr>"

text \<open>The archive record of a delivery.\<close>

definition archive_item :: "delivery \<Rightarrow> string \<times> bytes" where
  "archive_item d = (BuildKey (cm_room_topic (fst d)) (cm_id (fst d)), snd d)"

text \<open>Inserting an id under the bound, counting an eviction.\<close>

definition remember :: "string \<Rightarrow> mthreads \<Rightarrow> mthreads" where
  "remember ident s =
     s\<lparr>mt_seen := seen_admit ident (mt_seen s),
       mt_evictions := mt_evictions s + (if length (mt_seen s) \<ge> kMaxSeenIds then 1 else 0)\<rparr>"

section \<open>Steps\<close>

datatype maction =
    Deliver delivery | Dedupe delivery | Push delivery | Enqueue delivery
  | Send_inserts string | History_absorbs "ChatMessageState list"
  | Worker_takes | Worker_puts | Worker_ends
  | Stop | Join

text \<open>
  \<open>ApplyMessage\<close> past decryption and parsing: check and insert under the dedupe lock, push with no lock,
  queue under the archive lock.
\<close>

definition receiver_act :: "maction \<Rightarrow> mthreads \<Rightarrow> mthreads option" where
  "receiver_act a s =
     (case a of
        Deliver d \<Rightarrow> Some (s\<lparr>mt_opened := add_mset d (mt_opened s)\<rparr>)
      | Dedupe d \<Rightarrow>
          if d \<in># mt_opened s
          then let s1 = s\<lparr>mt_opened := mt_opened s - {#d#}\<rparr>
               in if cm_id (fst d) \<in> set (mt_seen s1) then Some s1
                  else Some (remember (cm_id (fst d)) (s1\<lparr>mt_pushing := add_mset d (mt_pushing s1)\<rparr>))
          else None
      | Push d \<Rightarrow>
          if d \<in># mt_pushing s
          then Some (s\<lparr>mt_pushing := mt_pushing s - {#d#}, mt_shown := mt_shown s @ [d],
                       mt_enqueuing := add_mset d (mt_enqueuing s)\<rparr>)
          else None
      | Enqueue d \<Rightarrow>
          if d \<in># mt_enqueuing s
          then Some (s\<lparr>mt_enqueuing := mt_enqueuing s - {#d#}, mt_queue := mt_queue s @ [archive_item d],
                       mt_enqueued := mt_enqueued s @ [archive_item d]\<rparr>)
          else None
      | _ \<Rightarrow> None)"

text \<open>What a send and a history scan do to the dedupe set.\<close>

definition sender_act :: "maction \<Rightarrow> mthreads \<Rightarrow> mthreads option" where
  "sender_act a s =
     (case a of
        Send_inserts ident \<Rightarrow> Some (s\<lparr>mt_seen := List.insert ident (mt_seen s)\<rparr>)
      | History_absorbs msgs \<Rightarrow> Some (fold (\<lambda>msg. remember (cm_id msg)) msgs s)
      | _ \<Rightarrow> None)"

text \<open>The worker: past its wait it returns, or takes the front item, which it then writes with no lock.\<close>

definition worker_act :: "maction \<Rightarrow> mthreads \<Rightarrow> mthreads option" where
  "worker_act a s =
     (case (a, mt_worker s) of
        (Worker_takes, W_loop) \<Rightarrow>
          (case mt_queue s of [] \<Rightarrow> None | item # rest \<Rightarrow> Some (s\<lparr>mt_queue := rest, mt_worker := W_put item\<rparr>))
      | (Worker_ends, W_loop) \<Rightarrow>
          if mt_stopped s \<and> mt_queue s = [] then Some (s\<lparr>mt_worker := W_returned\<rparr>) else None
      | (Worker_puts, W_put item) \<Rightarrow> Some (s\<lparr>mt_put := mt_put s @ [item], mt_worker := W_loop\<rparr>)
      | _ \<Rightarrow> None)"

text \<open>The destructor: raise the flag under the lock, then join the worker.\<close>

definition destructor_act :: "maction \<Rightarrow> mthreads \<Rightarrow> mthreads option" where
  "destructor_act a s =
     (case (a, mt_closing s) of
        (Stop, D_none) \<Rightarrow> Some (s\<lparr>mt_stopped := True, mt_closing := D_join\<rparr>)
      | (Join, D_join) \<Rightarrow> if mt_worker s = W_returned then Some (s\<lparr>mt_closing := D_done\<rparr>) else None
      | _ \<Rightarrow> None)"

definition messaging_act :: "maction \<Rightarrow> mthreads \<Rightarrow> mthreads option" where
  "messaging_act a s =
     (case a of
        Worker_takes \<Rightarrow> worker_act a s | Worker_puts \<Rightarrow> worker_act a s | Worker_ends \<Rightarrow> worker_act a s
      | Stop \<Rightarrow> destructor_act a s | Join \<Rightarrow> destructor_act a s
      | Send_inserts _ \<Rightarrow> sender_act a s | History_absorbs _ \<Rightarrow> sender_act a s
      | _ \<Rightarrow> receiver_act a s)"

lemmas mact_defs = messaging_act_def receiver_act_def sender_act_def worker_act_def destructor_act_def

text \<open>No delivery is in the component.\<close>

definition no_receiver :: "mthreads \<Rightarrow> bool" where
  "no_receiver s \<longleftrightarrow> mt_opened s = {#} \<and> mt_pushing s = {#} \<and> mt_enqueuing s = {#}"

text \<open>
  The owner destroys the component when no delivery is in it and makes no call afterwards; at the C boundary
  the receive gate and the drain of \<open>gcs_shutdown\<close> see to that.
\<close>

definition owner_waits :: "maction \<Rightarrow> mthreads \<Rightarrow> bool" where
  "owner_waits a s \<longleftrightarrow>
     (case a of
        Stop \<Rightarrow> no_receiver s
      | Deliver _ \<Rightarrow> mt_closing s = D_none
      | Send_inserts _ \<Rightarrow> mt_closing s = D_none
      | History_absorbs _ \<Rightarrow> mt_closing s = D_none
      | _ \<Rightarrow> True)"

inductive messaging_reachable :: "(maction \<Rightarrow> mthreads \<Rightarrow> bool) \<Rightarrow> mthreads \<Rightarrow> bool"
  for may :: "maction \<Rightarrow> mthreads \<Rightarrow> bool" where
  new: "messaging_reachable may mthreads_new"
| act: "messaging_reachable may s \<Longrightarrow> may a s \<Longrightarrow> messaging_act a s = Some s' \<Longrightarrow> messaging_reachable may s'"

fun run_mactions :: "(maction \<Rightarrow> mthreads \<Rightarrow> bool) \<Rightarrow> maction list \<Rightarrow> mthreads \<Rightarrow> mthreads option" where
  "run_mactions may [] s = Some s"
| "run_mactions may (a # as) s =
     (if may a s then (case messaging_act a s of None \<Rightarrow> None | Some s' \<Rightarrow> run_mactions may as s') else None)"

lemma run_mactions_reachable:
  "messaging_reachable may s \<Longrightarrow> run_mactions may as s = Some s' \<Longrightarrow> messaging_reachable may s'"
  by (induction as arbitrary: s) (auto intro: messaging_reachable.act split: if_splits option.splits)

section \<open>Nothing shown is lost\<close>

definition in_hand :: "mthreads \<Rightarrow> (string \<times> bytes) list" where
  "in_hand s = (case mt_worker s of W_put item \<Rightarrow> [item] | _ \<Rightarrow> [])"

definition archive_inv :: "mthreads \<Rightarrow> bool" where
  "archive_inv s \<longleftrightarrow> mt_put s @ in_hand s @ mt_queue s = mt_enqueued s \<and>
     mset (map archive_item (mt_shown s)) = mset (mt_enqueued s) + image_mset archive_item (mt_enqueuing s)"

text \<open>The dedupe set and its count of evictions are the only fields \<open>remember\<close> writes.\<close>

lemma remember_fields [simp]:
  "mt_queue (remember i s) = mt_queue s" "mt_stopped (remember i s) = mt_stopped s"
  "mt_opened (remember i s) = mt_opened s" "mt_pushing (remember i s) = mt_pushing s"
  "mt_enqueuing (remember i s) = mt_enqueuing s" "mt_worker (remember i s) = mt_worker s"
  "mt_closing (remember i s) = mt_closing s" "mt_shown (remember i s) = mt_shown s"
  "mt_enqueued (remember i s) = mt_enqueued s" "mt_put (remember i s) = mt_put s"
  by (simp_all add: remember_def)

lemma remember_fold_fields [simp]:
  "mt_queue (fold (\<lambda>m. remember (f m)) ms s) = mt_queue s" "mt_stopped (fold (\<lambda>m. remember (f m)) ms s) = mt_stopped s"
  "mt_opened (fold (\<lambda>m. remember (f m)) ms s) = mt_opened s" "mt_pushing (fold (\<lambda>m. remember (f m)) ms s) = mt_pushing s"
  "mt_enqueuing (fold (\<lambda>m. remember (f m)) ms s) = mt_enqueuing s" "mt_worker (fold (\<lambda>m. remember (f m)) ms s) = mt_worker s"
  "mt_closing (fold (\<lambda>m. remember (f m)) ms s) = mt_closing s" "mt_shown (fold (\<lambda>m. remember (f m)) ms s) = mt_shown s"
  "mt_enqueued (fold (\<lambda>m. remember (f m)) ms s) = mt_enqueued s" "mt_put (fold (\<lambda>m. remember (f m)) ms s) = mt_put s"
  by (induction ms arbitrary: s) simp_all

lemma archive_inv_new: "archive_inv mthreads_new"
  by (simp add: archive_inv_def mthreads_new_def in_hand_def)

lemma archive_inv_act:
  assumes "messaging_act a s = Some s'" and "archive_inv s"
  shows "archive_inv s'"
proof (cases a)
  case (Push d)
  with assms show ?thesis
    by (auto simp: mact_defs archive_inv_def in_hand_def ac_simps split: if_splits)
next
  case (Enqueue d)
  with assms have d: "d \<in># mt_enqueuing s" by (auto simp: mact_defs split: if_splits)
  then obtain E where "mt_enqueuing s = add_mset d E" by (metis insert_DiffM)
  with Enqueue assms show ?thesis
    by (auto simp: mact_defs archive_inv_def in_hand_def split: if_splits)
next
  case Worker_takes
  with assms show ?thesis
    by (auto simp: mact_defs archive_inv_def in_hand_def split: worker.splits list.splits)
next
  case Worker_puts
  with assms show ?thesis by (auto simp: mact_defs archive_inv_def in_hand_def split: worker.splits)
next
  case Worker_ends
  with assms show ?thesis by (auto simp: mact_defs archive_inv_def in_hand_def split: worker.splits if_splits)
qed (use assms in \<open>auto simp: mact_defs archive_inv_def in_hand_def Let_def split: closing.splits if_splits\<close>)

lemma reachable_archive: "messaging_reachable may s \<Longrightarrow> archive_inv s"
  by (induction rule: messaging_reachable.induct) (auto intro: archive_inv_new archive_inv_act)

section \<open>How often a message is shown\<close>

definition times_admitted :: "string \<Rightarrow> mthreads \<Rightarrow> nat" where
  "times_admitted i s = count (image_mset (\<lambda>d. cm_id (fst d)) (mset (mt_shown s) + mt_pushing s)) i"

definition dedupe_inv :: "mthreads \<Rightarrow> bool" where
  "dedupe_inv s \<longleftrightarrow> (\<forall>i. times_admitted i s \<le> mt_evictions s + of_bool (i \<in> set (mt_seen s)))"

lemma remember_allows:
  "mt_evictions s + of_bool (i \<in> set (mt_seen s)) \<le>
   mt_evictions (remember j s) + of_bool (i \<in> set (mt_seen (remember j s)))"
  by (auto simp: remember_def seen_admit_def)

lemma remember_times [simp]: "times_admitted i (remember j s) = times_admitted i s"
  by (simp add: times_admitted_def)

lemma remember_dedupe: "dedupe_inv s \<Longrightarrow> dedupe_inv (remember j s)"
  unfolding dedupe_inv_def remember_times by (meson order_trans remember_allows)

lemma remember_fold_dedupe: "dedupe_inv s \<Longrightarrow> dedupe_inv (fold (\<lambda>m. remember (f m)) ms s)"
  by (induction ms arbitrary: s) (simp_all add: remember_dedupe)

lemma admit_dedupe:
  assumes "dedupe_inv s" and "cm_id (fst d) \<notin> set (mt_seen s)"
  shows "dedupe_inv (remember (cm_id (fst d)) (s\<lparr>mt_opened := X, mt_pushing := add_mset d (mt_pushing s)\<rparr>))"
unfolding dedupe_inv_def
proof
  fix i
  let ?t = "s\<lparr>mt_opened := X, mt_pushing := add_mset d (mt_pushing s)\<rparr>"
  have old: "times_admitted i s \<le> mt_evictions s + of_bool (i \<in> set (mt_seen s))"
    using assms(1) by (simp add: dedupe_inv_def)
  have new: "times_admitted i ?t = times_admitted i s + of_bool (cm_id (fst d) = i)"
    by (simp add: times_admitted_def)
  show "times_admitted i (remember (cm_id (fst d)) ?t) \<le>
      mt_evictions (remember (cm_id (fst d)) ?t) + of_bool (i \<in> set (mt_seen (remember (cm_id (fst d)) ?t)))"
  proof (cases "cm_id (fst d) = i")
    case True
    then have "i \<in> set (mt_seen (remember (cm_id (fst d)) ?t))" "mt_evictions s \<le> mt_evictions (remember (cm_id (fst d)) ?t)"
      by (simp_all add: remember_def seen_admit_def)
    with True old assms(2) show ?thesis by (simp add: new)
  next
    case False
    with new old remember_allows [of ?t i "cm_id (fst d)"] show ?thesis by simp
  qed
qed

lemma dedupe_inv_frame [simp]:
  "dedupe_inv (s\<lparr>mt_queue := q\<rparr>) = dedupe_inv s" "dedupe_inv (s\<lparr>mt_stopped := b\<rparr>) = dedupe_inv s"
  "dedupe_inv (s\<lparr>mt_opened := X\<rparr>) = dedupe_inv s" "dedupe_inv (s\<lparr>mt_enqueuing := X\<rparr>) = dedupe_inv s"
  "dedupe_inv (s\<lparr>mt_worker := w\<rparr>) = dedupe_inv s" "dedupe_inv (s\<lparr>mt_closing := c\<rparr>) = dedupe_inv s"
  "dedupe_inv (s\<lparr>mt_enqueued := q\<rparr>) = dedupe_inv s" "dedupe_inv (s\<lparr>mt_put := q\<rparr>) = dedupe_inv s"
  by (simp_all add: dedupe_inv_def times_admitted_def)

lemma dedupe_inv_act:
  assumes "messaging_act a s = Some s'" and "dedupe_inv s"
  shows "dedupe_inv s'"
proof (cases a)
  case (Dedupe d)
  with assms admit_dedupe [of s d] show ?thesis by (auto simp: mact_defs Let_def split: if_splits)
next
  case (Push d)
  with assms have "d \<in># mt_pushing s" by (auto simp: mact_defs split: if_splits)
  then obtain X where "mt_pushing s = add_mset d X" by (metis insert_DiffM)
  with Push assms(1) have "times_admitted i s' = times_admitted i s" "mt_evictions s' = mt_evictions s" "mt_seen s' = mt_seen s" for i
    by (auto simp: mact_defs times_admitted_def)
  with assms(2) show ?thesis by (simp add: dedupe_inv_def)
next
  case (Send_inserts i)
  then have s': "s' = s\<lparr>mt_seen := List.insert i (mt_seen s)\<rparr>" using assms(1) by (simp add: mact_defs)
  have "of_bool (j \<in> set (mt_seen s)) \<le> (of_bool (j \<in> set (mt_seen s')) :: nat)" for j by (simp add: s')
  moreover have "times_admitted j s' = times_admitted j s" "mt_evictions s' = mt_evictions s" for j
    by (simp_all add: s' times_admitted_def)
  ultimately show ?thesis using assms(2) unfolding dedupe_inv_def by (metis add_left_mono order_trans)
next
  case (History_absorbs ms)
  with assms show ?thesis by (auto simp: mact_defs remember_fold_dedupe)
qed (use assms in \<open>auto simp: mact_defs split: worker.splits closing.splits list.splits if_splits\<close>)

lemma dedupe_inv_new: "dedupe_inv mthreads_new"
  by (simp add: dedupe_inv_def times_admitted_def mthreads_new_def)

lemma reachable_dedupe: "messaging_reachable may s \<Longrightarrow> dedupe_inv s"
  by (induction rule: messaging_reachable.induct) (auto intro: dedupe_inv_new dedupe_inv_act)

section \<open>The destructor\<close>

definition closing_inv :: "mthreads \<Rightarrow> bool" where
  "closing_inv s \<longleftrightarrow> (mt_stopped s \<longleftrightarrow> mt_closing s \<noteq> D_none) \<and> (mt_closing s \<noteq> D_none \<longrightarrow> no_receiver s) \<and>
     (mt_worker s = W_returned \<longrightarrow> mt_stopped s \<and> mt_queue s = []) \<and>
     (mt_closing s = D_done \<longrightarrow> mt_worker s = W_returned)"

lemma closing_inv_act:
  assumes "messaging_act a s = Some s'" and "owner_waits a s" and "closing_inv s"
  shows "closing_inv s'"
proof (cases a)
  case (Dedupe d)
  with assms have "d \<in># mt_opened s" by (auto simp: mact_defs split: if_splits)
  then have entered: "mt_closing s = D_none" using assms(3) by (auto simp: closing_inv_def no_receiver_def)
  with Dedupe assms show ?thesis by (auto simp: mact_defs closing_inv_def Let_def split: if_splits)
next
  case (Push d)
  with assms have "d \<in># mt_pushing s" by (auto simp: mact_defs split: if_splits)
  then have entered: "mt_closing s = D_none" using assms(3) by (auto simp: closing_inv_def no_receiver_def)
  with Push assms show ?thesis by (auto simp: mact_defs closing_inv_def split: if_splits)
next
  case (Enqueue d)
  with assms have "d \<in># mt_enqueuing s" by (auto simp: mact_defs split: if_splits)
  then have entered: "mt_closing s = D_none" using assms(3) by (auto simp: closing_inv_def no_receiver_def)
  with Enqueue assms show ?thesis by (auto simp: mact_defs closing_inv_def split: if_splits)
next
  case (Deliver d)
  with assms show ?thesis by (auto simp: mact_defs owner_waits_def closing_inv_def no_receiver_def)
next
  case Stop
  with assms show ?thesis by (auto simp: mact_defs owner_waits_def closing_inv_def no_receiver_def split: closing.splits)
qed (use assms in \<open>auto simp: mact_defs closing_inv_def no_receiver_def split: worker.splits closing.splits list.splits if_splits\<close>)

lemma reachable_closing: "messaging_reachable owner_waits s \<Longrightarrow> closing_inv s"
proof (induction rule: messaging_reachable.induct)
  case new
  show ?case by (simp add: closing_inv_def mthreads_new_def)
qed (blast intro: closing_inv_act)

text \<open>What is left to do once the flag is up.\<close>

definition closing_work :: "mthreads \<Rightarrow> nat" where
  "closing_work s = 2 * length (mt_queue s) + (case mt_worker s of W_loop \<Rightarrow> 1 | W_put _ \<Rightarrow> 2 | W_returned \<Rightarrow> 0)
     + (if mt_closing s = D_join then 1 else 0)"

lemma closing_work_decreases:
  assumes "messaging_act a s = Some s'" and "owner_waits a s" and "closing_inv s" and "mt_closing s \<noteq> D_none"
  shows "closing_work s' < closing_work s \<and> mt_closing s' \<noteq> D_none"
proof -
  have idle: "mt_opened s = {#}" "mt_pushing s = {#}" "mt_enqueuing s = {#}"
    using assms(3,4) by (simp_all add: closing_inv_def no_receiver_def)
  with assms(1,2,4) show ?thesis
    by (cases a)
      (auto simp: mact_defs owner_waits_def closing_work_def split: worker.splits closing.splits list.splits if_splits)
qed

lemma closing_progress:
  assumes "closing_inv s" and "mt_closing s = D_join"
  obtains a s' where "messaging_act a s = Some s'" and "owner_waits a s"
proof (cases "mt_worker s")
  case W_loop
  show thesis
  proof (cases "mt_queue s")
    case Nil
    with W_loop assms that [of Worker_ends] show thesis by (simp add: mact_defs owner_waits_def closing_inv_def)
  next
    case (Cons item rest)
    with W_loop that [of Worker_takes] show thesis by (simp add: mact_defs owner_waits_def)
  qed
next
  case (W_put item)
  with that [of Worker_puts] show thesis by (simp add: mact_defs owner_waits_def)
next
  case W_returned
  with assms that [of Join] show thesis by (simp add: mact_defs owner_waits_def)
qed

lemma closing_run_bound:
  "run_mactions owner_waits as s = Some s' \<Longrightarrow> closing_inv s \<Longrightarrow> mt_closing s \<noteq> D_none \<Longrightarrow>
   length as + closing_work s' \<le> closing_work s"
proof (induction as arbitrary: s)
  case (Cons a as)
  then obtain t where t: "owner_waits a s" "messaging_act a s = Some t" "run_mactions owner_waits as t = Some s'"
    by (auto split: if_splits option.splits)
  from closing_work_decreases [OF t(2,1) Cons.prems(2,3)] closing_inv_act [OF t(2,1) Cons.prems(2)] Cons.IH [OF t(3)]
  show ?case by auto
qed simp

section \<open>The sequential operations as runs\<close>

definition messaging_view :: "'w messaging \<Rightarrow> mthreads \<Rightarrow> bool" where
  "messaging_view m T \<longleftrightarrow> m_seenIds m = mt_seen T \<and> m_archiveQueue m = mt_queue T \<and>
     m_archiveStopped m = mt_stopped T \<and> mt_worker T = W_loop"

abbreviation any_act :: "maction \<Rightarrow> mthreads \<Rightarrow> bool" where
  "any_act \<equiv> \<lambda>_ _. True"

lemma apply_run:
  assumes "messaging_view m T" and "admitted P topic bs m p = Some msg"
  shows "\<exists>T'. run_mactions any_act [Deliver (msg, bs), Dedupe (msg, bs), Push (msg, bs), Enqueue (msg, bs)] T = Some T' \<and>
     messaging_view (fst (ApplyMessage P topic bs m p)) T' \<and> mt_shown T' = mt_shown T @ [(msg, bs)] \<and>
     mt_opened T' = mt_opened T \<and> mt_pushing T' = mt_pushing T \<and> mt_enqueuing T' = mt_enqueuing T"
proof -
  have "cm_id msg \<notin> set (mt_seen T)" using admitted_fresh [OF assms(2)] assms(1) by (simp add: messaging_view_def)
  then show ?thesis
    using assms(1)
    by (simp add: mact_defs Let_def ApplyMessage_admitted [OF assms(2)] messaging_view_def remember_def archive_item_def)
qed

lemma send_run:
  assumes "messaging_view m T"
  shows "\<exists>T'. run_mactions any_act [Send_inserts (cm_id (draft P m topic body p))] T = Some T' \<and>
     messaging_view (fst (snd (Messaging_SendMessage P s topic body m p))) T'"
  using assms by (simp add: mact_defs SendMessage_state messaging_view_def)

lemma absorb_seen: "mt_seen (fold (\<lambda>msg. remember (cm_id msg)) msgs T) = foldl (\<lambda>seen msg. seen_admit (cm_id msg) seen) (mt_seen T) msgs"
  by (induction msgs arbitrary: T) (simp_all add: remember_def)

lemma history_run:
  assumes "messaging_view m T" and "QueryHistory P s topic m p = (Inr h, m', p')"
  shows "\<exists>T'. run_mactions any_act [History_absorbs (mh_message h)] T = Some T' \<and> messaging_view m' T'"
proof -
  from assms(2) have "m' = m\<lparr>m_seenIds := foldl (\<lambda>seen msg. seen_admit (cm_id msg) seen) (m_seenIds m) (mh_message h)\<rparr>"
    by (rule QueryHistory_InrE)
  with assms(1) show ?thesis by (simp add: mact_defs messaging_view_def absorb_seen)
qed

lemma turn_run:
  assumes "messaging_view m T" and "ArchiveWorker_turn P s m p = Worker_wrote m' p'"
  shows "\<exists>T'. run_mactions any_act [Worker_takes, Worker_puts] T = Some T' \<and> messaging_view m' T' \<and>
     mt_put T' = mt_put T @ [hd (m_archiveQueue m)]"
  using assms by (cases "mt_queue T")
    (auto simp: mact_defs ArchiveWorker_turn_def messaging_view_def split: if_splits)

end
