(* ===== verification/MessagingThreadProps.thy ===== *)
theory MessagingThreadProps
  imports MessagingThreads MessagingProps
begin

text \<open>
  Properties of the interleavings of the messaging component: how often a message is shown, what becomes of
  what was shown, the end of the archive worker, and the agreement with the sequential operations.
\<close>

section \<open>Properties\<close>

text \<open>C8: however deliveries on both routes, sends, history scans, the archive worker and the destructor interleave, a
  message is shown at most once more than the dedupe set was cleared; what is shown is what was queued for the
  archive or is about to be; and the worker writes the queued records in their order, each once.\<close>

theorem interleaved_deliveries:
  assumes "messaging_reachable may s"
  shows "count_list (map (\<lambda>d. cm_id (fst d)) (mt_shown s)) ident \<le> Suc (mt_evictions s)
    \<and> mset (map archive_item (mt_shown s)) = mset (mt_enqueued s) + image_mset archive_item (mt_enqueuing s)
    \<and> mt_enqueued s = mt_put s @ (case mt_worker s of W_put item \<Rightarrow> [item] | _ \<Rightarrow> []) @ mt_queue s"
proof -
  have "times_admitted ident s \<le> Suc (mt_evictions s)"
    using reachable_dedupe [OF assms] by (auto simp: dedupe_inv_def of_bool_def le_SucI split: if_splits)
  moreover have "count_list (map (\<lambda>d. cm_id (fst d)) (mt_shown s)) ident \<le> times_admitted ident s"
    by (simp add: times_admitted_def count_mset flip: mset_map)
  ultimately show ?thesis using reachable_archive [OF assms] by (simp add: archive_inv_def in_hand_def)
qed

text \<open>One message arriving on both routes at once.\<close>

definition ref_delivery :: delivery where
  "ref_delivery = (ref_message ''m'' 1, ''envelope'')"

definition ref_crossing :: "maction list" where
  "ref_crossing = [Deliver ref_delivery, Deliver ref_delivery, Dedupe ref_delivery, Dedupe ref_delivery,
     Push ref_delivery, Enqueue ref_delivery, Worker_takes]"

definition ref_crossed :: mthreads where
  "ref_crossed = the (run_mactions owner_waits ref_crossing mthreads_new)"

lemma ref_crossed_facts: "run_mactions owner_waits ref_crossing mthreads_new = Some ref_crossed"
  "mt_shown ref_crossed = [ref_delivery]" "mt_worker ref_crossed = W_put (archive_item ref_delivery)"
  "mt_queue ref_crossed = []" "no_receiver ref_crossed" "mt_closing ref_crossed = D_none"
  by (simp_all add: ref_crossed_def ref_crossing_def mact_defs owner_waits_def mthreads_new_def Let_def remember_def
      seen_admit_def kMaxSeenIds_def no_receiver_def)

theorem interleaved_deliveries_witness:
  "messaging_reachable owner_waits ref_crossed \<and>
   count_list (map (\<lambda>d. cm_id (fst d)) (mt_shown ref_crossed)) ''m'' = 1 \<and>
   mt_enqueued ref_crossed = mt_put ref_crossed @ [archive_item ref_delivery]"
proof -
  have reach: "messaging_reachable owner_waits ref_crossed"
    using run_mactions_reachable [OF messaging_reachable.new ref_crossed_facts(1)] .
  from interleaved_deliveries [OF reach, where ident = "''m''"] reach show ?thesis
    by (simp add: ref_crossed_facts(2-4) ref_delivery_def)
qed

text \<open>C9: once the destructor has raised the stop flag, with no delivery in the component, everything ends: at
  most two steps per queued record and three more happen, until the destructor is done some step is
  always possible, and when it is done every message that was shown has been written to the archive, each once and in
  the order it was queued.\<close>

theorem destructor_drains:
  assumes "messaging_reachable owner_waits s" and "mt_closing s \<noteq> D_none"
  shows "(\<forall>as s'. run_mactions owner_waits as s = Some s' \<longrightarrow> length as \<le> 2 * length (mt_queue s) + 3)
    \<and> (mt_closing s \<noteq> D_done \<longrightarrow> (\<exists>a s'. owner_waits a s \<and> messaging_act a s = Some s'))
    \<and> (mt_closing s = D_done \<longrightarrow> mt_put s = mt_enqueued s \<and> mset (mt_put s) = mset (map archive_item (mt_shown s)))"
proof (intro conjI allI impI)
  note inv = reachable_closing [OF assms(1)]
  show "length as \<le> 2 * length (mt_queue s) + 3" if "run_mactions owner_waits as s = Some s'" for as s'
  proof -
    have "closing_work s \<le> 2 * length (mt_queue s) + 3" by (simp add: closing_work_def split: worker.split)
    with closing_run_bound [OF that inv assms(2)] show ?thesis by simp
  qed
  show "\<exists>a s'. owner_waits a s \<and> messaging_act a s = Some s'" if "mt_closing s \<noteq> D_done"
  proof -
    have "mt_closing s = D_join" using that assms(2) by (cases "mt_closing s") auto
    from closing_progress [OF inv this] show ?thesis by blast
  qed
  assume "mt_closing s = D_done"
  with inv have "mt_worker s = W_returned" "mt_queue s = []" "mt_enqueuing s = {#}"
    by (simp_all add: closing_inv_def no_receiver_def)
  with reachable_archive [OF assms(1)]
  show "mt_put s = mt_enqueued s" "mset (mt_put s) = mset (map archive_item (mt_shown s))"
    by (simp_all add: archive_inv_def in_hand_def)
qed

definition ref_closing :: mthreads where
  "ref_closing = the (run_mactions owner_waits [Stop, Worker_puts, Worker_ends, Join] ref_crossed)"

theorem destructor_drains_witness:
  "messaging_reachable owner_waits ref_closing \<and> mt_closing ref_closing = D_done \<and>
   mset (mt_put ref_closing) = mset (map archive_item (mt_shown ref_closing)) \<and> mt_shown ref_closing = [ref_delivery]"
proof -
  have run: "run_mactions owner_waits [Stop, Worker_puts, Worker_ends, Join] ref_crossed = Some ref_closing"
    and facts: "mt_closing ref_closing = D_done" "mt_shown ref_closing = [ref_delivery]"
    by (simp_all add: ref_closing_def mact_defs owner_waits_def ref_crossed_facts(2-6))
  have "messaging_reachable owner_waits ref_closing"
    using run_mactions_reachable [OF run_mactions_reachable [OF messaging_reachable.new ref_crossed_facts(1)] run] .
  with destructor_drains [OF this] facts show ?thesis by fastforce
qed

text \<open>The operations of the sequential model are runs of the interleaving model on the dedupe set, the queue and the
  stop flag: an admitted delivery is its four steps without a break, a rejected one changes nothing, a send inserts
  its id, a history scan absorbs its messages, and a turn of the worker takes and writes the front record.\<close>

theorem messaging_operations_run:
  assumes "messaging_view m T"
  shows "(case admitted P topic bs m p of
      None \<Rightarrow> messaging_view (fst (ApplyMessage P topic bs m p)) T
    | Some msg \<Rightarrow> \<exists>T'. run_mactions any_act [Deliver (msg, bs), Dedupe (msg, bs), Push (msg, bs), Enqueue (msg, bs)] T = Some T' \<and>
        messaging_view (fst (ApplyMessage P topic bs m p)) T' \<and> mt_shown T' = mt_shown T @ [(msg, bs)])
    \<and> (\<exists>ident T'. run_mactions any_act [Send_inserts ident] T = Some T' \<and>
        messaging_view (fst (snd (Messaging_SendMessage P s topic body m p))) T')
    \<and> (case QueryHistory P s topic m p of
        (Inl _, m', _) \<Rightarrow> messaging_view m' T
      | (Inr h, m', _) \<Rightarrow> \<exists>T'. run_mactions any_act [History_absorbs (mh_message h)] T = Some T' \<and> messaging_view m' T')
    \<and> (case ArchiveWorker_turn P s m p of
        Worker_waits \<Rightarrow> worker_act Worker_takes T = None \<and> worker_act Worker_ends T = None
      | Worker_returns \<Rightarrow> worker_act Worker_takes T = None \<and> worker_act Worker_ends T \<noteq> None
      | Worker_wrote m' p' \<Rightarrow> \<exists>T'. run_mactions any_act [Worker_takes, Worker_puts] T = Some T' \<and> messaging_view m' T' \<and>
          mt_put T' = mt_put T @ [hd (m_archiveQueue m)])"
proof (intro conjI)
  show "case admitted P topic bs m p of
      None \<Rightarrow> messaging_view (fst (ApplyMessage P topic bs m p)) T
    | Some msg \<Rightarrow> \<exists>T'. run_mactions any_act [Deliver (msg, bs), Dedupe (msg, bs), Push (msg, bs), Enqueue (msg, bs)] T = Some T' \<and>
        messaging_view (fst (ApplyMessage P topic bs m p)) T' \<and> mt_shown T' = mt_shown T @ [(msg, bs)]"
    using assms apply_run [OF assms] by (fastforce simp: ApplyMessage_rejected split: option.split)
  show "\<exists>ident T'. run_mactions any_act [Send_inserts ident] T = Some T' \<and>
      messaging_view (fst (snd (Messaging_SendMessage P s topic body m p))) T'"
    using send_run [OF assms] by blast
  show "case QueryHistory P s topic m p of
      (Inl _, m', _) \<Rightarrow> messaging_view m' T
    | (Inr h, m', _) \<Rightarrow> \<exists>T'. run_mactions any_act [History_absorbs (mh_message h)] T = Some T' \<and> messaging_view m' T'"
  proof (cases "QueryHistory P s topic m p")
    case (fields r m' p')
    show ?thesis
    proof (cases r)
      case (Inl e)
      with fields have "m' = m" by (auto simp: QueryHistory_def Let_def split: sum.splits prod.splits)
      with fields Inl assms show ?thesis by simp
    next
      case (Inr h)
      with fields history_run [OF assms] show ?thesis by simp
    qed
  qed
  show "case ArchiveWorker_turn P s m p of
      Worker_waits \<Rightarrow> worker_act Worker_takes T = None \<and> worker_act Worker_ends T = None
    | Worker_returns \<Rightarrow> worker_act Worker_takes T = None \<and> worker_act Worker_ends T \<noteq> None
    | Worker_wrote m' p' \<Rightarrow> \<exists>T'. run_mactions any_act [Worker_takes, Worker_puts] T = Some T' \<and> messaging_view m' T' \<and>
        mt_put T' = mt_put T @ [hd (m_archiveQueue m)]"
  proof (cases "ArchiveWorker_turn P s m p")
    case (Worker_wrote m' p')
    with turn_run [OF assms] show ?thesis by simp
  qed (use assms in \<open>auto simp: ArchiveWorker_turn_def messaging_view_def worker_act_def split: list.splits if_splits\<close>)
qed

theorem messaging_operations_run_witness:
  "messaging_view ref_carol mthreads_new \<and>
   (\<exists>ident T'. run_mactions any_act [Send_inserts ident] mthreads_new = Some T' \<and>
      messaging_view (fst (snd (Messaging_SendMessage ref_platform ref_session ''gcs/chat/r1'' ''hi'' ref_carol ref_attached))) T')"
proof -
  have "messaging_view ref_carol mthreads_new"
    by (simp add: messaging_view_def ref_carol_def Messaging_new_def mthreads_new_def)
  with messaging_operations_run [OF this] show ?thesis by blast
qed

end
