(* ===== verification/Refinement.thy ===== *)
theory Refinement
  imports Prelude
begin

text \<open>
  Objects as machines that answer calls, and what it means that one implements another: the
  contracts of the headers are the abstract machines, and the translated classes the detailed ones.
\<close>

text \<open>A client's calls one after the other, and their answers.\<close>

fun run_calls :: "('call \<Rightarrow> 's \<Rightarrow> 'answer \<times> 's) \<Rightarrow> 'call list \<Rightarrow> 's \<Rightarrow> 'answer list \<times> 's" where
  "run_calls answer [] s = ([], s)"
| "run_calls answer (c # cs) s =
     (case answer c s of (a, s1) \<Rightarrow> case run_calls answer cs s1 of (as, s2) \<Rightarrow> (a # as, s2))"

locale machine_refinement =
  fixes step :: "'call \<Rightarrow> 's \<Rightarrow> 'answer \<times> 's"
    and spec :: "'call \<Rightarrow> 'v \<Rightarrow> 'answer \<times> 'v"
    and inv :: "'s \<Rightarrow> bool"
    and view :: "'s \<Rightarrow> 'v"
  assumes step_inv: "inv s \<Longrightarrow> inv (snd (step c s))"
    and step_spec: "inv s \<Longrightarrow> spec c (view s) = (fst (step c s), view (snd (step c s)))"
begin

lemma run_inv: "inv s \<Longrightarrow> inv (snd (run_calls step cs s))"
  by (induction cs arbitrary: s) (simp_all add: step_inv case_prod_beta)

text \<open>No sequence of calls tells the two machines apart.\<close>

lemma run_spec:
  "inv s \<Longrightarrow> run_calls spec cs (view s) = (fst (run_calls step cs s), view (snd (run_calls step cs s)))"
  by (induction cs arbitrary: s) (simp_all add: step_inv step_spec case_prod_beta)

end

end
