(* ===== verification/SessionContract.thy ===== *)
theory SessionContract
  imports StoreContract Refinement
begin

text \<open>
  What \<open>gcs_core.hpp\<close> promises of a \<open>CoreSession\<close>: every method as a call on the documented two-state store
  of \<open>StoreContract\<close>, with the path that the configuration gives. The detailed session, an object that
  owns a \<open>GcsGlobalDb\<close>, answers every sequence of calls as this machine does, whatever the process does
  in between.
\<close>

section \<open>Calls and answers\<close>

datatype 'w session_call =
    Initialize | Initialize_with "handle option" "handle option" | Shutdown | IsRunning
  | AddBroadcastTopic string | AddListenTopic string
  | Put string bytes | Get string | Put_topics string bytes "string set" | PutLocal string bytes string
  | QueryKeyValues string | RegisterNewElementCallback string
  | Publish string bytes | Subscribe string
  | Meanwhile "'w proc \<Rightarrow> 'w proc"

datatype session_answer =
    Outcome "unit result" | Value "bytes result" | Entries "(string \<times> bytes) list result" | Running bool | Silent

text \<open>The calls on the translated session.\<close>

fun session_step :: "'w platform \<Rightarrow> 'w session_call \<Rightarrow> core_session \<times> 'w proc \<Rightarrow> session_answer \<times> core_session \<times> 'w proc"
where
  "session_step P Initialize (s, p) = (case CoreSession_Initialize P s p of (r, s', p') \<Rightarrow> (Outcome r, s', p'))"
| "session_step P (Initialize_with ps net) (s, p) =
     (case CoreSession_Initialize_injected P ps net s p of (r, s', p') \<Rightarrow> (Outcome r, s', p'))"
| "session_step P Shutdown (s, p) = (Silent, CoreSession_Shutdown P s p)"
| "session_step P IsRunning (s, p) = (Running (CoreSession_IsRunning s), s, p)"
| "session_step P (AddBroadcastTopic t) (s, p) =
     (case CoreSession_AddBroadcastTopic P s t p of (r, p') \<Rightarrow> (Outcome r, s, p'))"
| "session_step P (AddListenTopic t) (s, p) = (case CoreSession_AddListenTopic P s t p of (r, p') \<Rightarrow> (Outcome r, s, p'))"
| "session_step P (Put k v) (s, p) = (case CoreSession_Put P s k v p of (r, p') \<Rightarrow> (Outcome r, s, p'))"
| "session_step P (Get k) (s, p) = (Value (CoreSession_Get P s k p), s, p)"
| "session_step P (Put_topics k v T) (s, p) =
     (case CoreSession_Put_topics P s k v T p of (r, p') \<Rightarrow> (Outcome r, s, p'))"
| "session_step P (PutLocal k v i) (s, p) = (case CoreSession_PutLocal P s k v i p of (r, p') \<Rightarrow> (Outcome r, s, p'))"
| "session_step P (QueryKeyValues k) (s, p) = (Entries (CoreSession_QueryKeyValues P s k p), s, p)"
| "session_step P (RegisterNewElementCallback pat) (s, p) =
     (case CoreSession_RegisterNewElementCallback P s pat p of (r, p') \<Rightarrow> (Outcome r, s, p'))"
| "session_step P (Publish t b) (s, p) = (case CoreSession_Publish P s t b p of (r, p') \<Rightarrow> (Outcome r, s, p'))"
| "session_step P (Subscribe t) (s, p) = (case CoreSession_Subscribe P s t p of (r, p') \<Rightarrow> (Outcome r, s, p'))"
| "session_step P (Meanwhile f) (s, p) = (Silent, s, f p)"

section \<open>The documented session\<close>

text \<open>The configured path, or the store's default for an empty one.\<close>

definition session_path :: "string \<Rightarrow> string" where
  "session_path dbPath = (if dbPath = [] then kDefaultDbPath else dbPath)"

fun session_lifecycle ::
  "'w platform \<Rightarrow> string \<Rightarrow> 'w session_call \<Rightarrow> store_view \<Rightarrow> 'w proc \<Rightarrow> session_answer \<times> store_view \<times> 'w proc" where
  "session_lifecycle P path Initialize v p = (case store_Initialize P path v p of (r, v', p') \<Rightarrow> (Outcome r, v', p'))"
| "session_lifecycle P path (Initialize_with ps net) v p =
     (case store_Initialize_injected P path ps net v p of (r, v', p') \<Rightarrow> (Outcome r, v', p'))"
| "session_lifecycle P path Shutdown v p = (Silent, store_Shutdown P v p)"
| "session_lifecycle P path IsRunning v p = (Running (store_IsRunning v), v, p)"
| "session_lifecycle P path _ v p = (Silent, v, p)"

fun session_access :: "'w platform \<Rightarrow> 'w session_call \<Rightarrow> store_view \<Rightarrow> 'w proc \<Rightarrow> session_answer \<times> 'w proc" where
  "session_access P (AddBroadcastTopic t) v p = map_prod Outcome id (store_AddBroadcastTopic P v t p)"
| "session_access P (AddListenTopic t) v p = map_prod Outcome id (store_AddListenTopic P v t p)"
| "session_access P (Put k b) v p = map_prod Outcome id (store_Put P v k b p)"
| "session_access P (Get k) v p = (Value (store_Get P v k p), p)"
| "session_access P (Put_topics k b T) v p = map_prod Outcome id (store_Put_topics P v k b T p)"
| "session_access P (PutLocal k b i) v p = map_prod Outcome id (store_PutLocal P v k b i p)"
| "session_access P (QueryKeyValues k) v p = (Entries (store_QueryKeyValues P v k p), p)"
| "session_access P (RegisterNewElementCallback pat) v p =
     map_prod Outcome id (store_RegisterNewElementCallback P v pat p)"
| "session_access P (Publish t b) v p = map_prod Outcome id (store_Publish P v t b p)"
| "session_access P (Subscribe t) v p = map_prod Outcome id (store_Subscribe P v t p)"
| "session_access P (Meanwhile f) v p = (Silent, f p)"
| "session_access P _ v p = (Silent, p)"

fun is_lifecycle :: "'w session_call \<Rightarrow> bool" where
  "is_lifecycle Initialize = True"
| "is_lifecycle (Initialize_with _ _) = True"
| "is_lifecycle Shutdown = True"
| "is_lifecycle IsRunning = True"
| "is_lifecycle _ = False"

definition session_spec ::
  "'w platform \<Rightarrow> 'w session_call \<Rightarrow> string \<times> store_view \<times> 'w proc \<Rightarrow> session_answer \<times> string \<times> store_view \<times> 'w proc"
where
  "session_spec P c = (\<lambda>(path, v, p).
     if is_lifecycle c then (case session_lifecycle P path c v p of (a, v', p') \<Rightarrow> (a, path, v', p'))
     else (case session_access P c v p of (a, p') \<Rightarrow> (a, path, v, p')))"

section \<open>The session implements it\<close>

definition session_view :: "core_session \<times> 'w proc \<Rightarrow> string \<times> store_view \<times> 'w proc" where
  "session_view = (\<lambda>(s, p). (m_dbPath (cs_db s), store_view_of (cs_db s), p))"

definition session_inv :: "core_session \<times> 'w proc \<Rightarrow> bool" where
  "session_inv = (\<lambda>(s, p). gdb_ok (cs_db s))"

lemmas session_op_defs = CoreSession_AddBroadcastTopic_def CoreSession_AddListenTopic_def CoreSession_Put_def
  CoreSession_Get_def CoreSession_Put_topics_def CoreSession_PutLocal_def CoreSession_QueryKeyValues_def
  CoreSession_RegisterNewElementCallback_def CoreSession_Publish_def CoreSession_Subscribe_def CoreSession_IsRunning_def

lemma ok_operations_agree: "gdb_ok d \<Longrightarrow> operations_agree P d (store_view_of d) p"
  by (erule view_cases) (simp_all add: stopped_agree serving_agree)

lemma access_agrees:
  assumes "gdb_ok (cs_db s)" and "\<not> is_lifecycle c"
  shows "session_step P c (s, p) = (case session_access P c (store_view_of (cs_db s)) p of (a, p') \<Rightarrow> (a, s, p'))"
  using ok_operations_agree [OF assms(1), of P p] assms(2)
  by (cases c) (simp_all add: session_op_defs operations_agree_def case_prod_beta map_prod_def)

lemma lifecycle_agrees:
  assumes "gdb_ok (cs_db s)" and "is_lifecycle c"
  shows "session_spec P c (session_view (s, p)) = (fst (session_step P c (s, p)), session_view (snd (session_step P c (s, p))))"
proof (cases c)
  case Initialize
  obtain r d p' where run: "GcsGlobalDb_Initialize P (cs_db s) p = (r, d, p')" by (metis prod.collapse)
  from Initialize_refines [OF assms(1) run] run Initialize show ?thesis
    by (simp add: session_spec_def session_view_def CoreSession_Initialize_def)
next
  case (Initialize_with ps net)
  obtain r d p' where run: "GcsGlobalDb_Initialize_injected P ps net (cs_db s) p = (r, d, p')" by (metis prod.collapse)
  from Initialize_injected_refines [OF assms(1) run] run Initialize_with show ?thesis
    by (simp add: session_spec_def session_view_def CoreSession_Initialize_injected_def)
next
  case Shutdown
  obtain d p' where run: "GcsGlobalDb_Shutdown P (cs_db s) p = (d, p')" by fastforce
  have new: "m_dbPath (GcsGlobalDb_new path) = path" for path by (simp add: GcsGlobalDb_new_def)
  from assms(1) show ?thesis
  proof (cases rule: view_cases)
    case stopped
    with Shutdown show ?thesis
      by (simp add: session_spec_def session_view_def CoreSession_Shutdown_def CoreSession_IsRunning_def
          GcsGlobalDb_IsRunning_def store_Shutdown_def)
  next
    case serving
    with Shutdown_refines [OF assms(1) run] run Shutdown show ?thesis
      by (simp add: session_spec_def session_view_def CoreSession_Shutdown_def CoreSession_IsRunning_def
          GcsGlobalDb_IsRunning_def new)
  qed
next
  case IsRunning
  from ok_operations_agree [OF assms(1), of P p] IsRunning show ?thesis
    by (simp add: session_spec_def session_view_def session_op_defs operations_agree_def)
qed (use assms(2) in simp_all)

lemma step_keeps_ok:
  assumes "gdb_ok (cs_db s)"
  shows "gdb_ok (cs_db (fst (snd (session_step P c (s, p)))))"
proof (cases "is_lifecycle c")
  case True
  then show ?thesis
    using assms CoreSession_Initialize_ok [OF assms, of P p] CoreSession_Shutdown_ok [OF assms, of P p]
      Initialize_injected_ok [OF assms]
    by (cases c) (auto simp: CoreSession_Initialize_injected_def case_prod_beta split: prod.splits)
qed (simp add: access_agrees [OF assms] case_prod_beta assms)

interpretation session: machine_refinement "session_step P" "session_spec P" session_inv session_view for P
proof
  fix s :: "core_session \<times> 'a proc" and c
  assume "session_inv s"
  then obtain x p where s: "s = (x, p)" "gdb_ok (cs_db x)" by (cases s) (simp add: session_inv_def)
  from step_keeps_ok [OF s(2)] show "session_inv (snd (session_step P c s))"
    by (simp add: s session_inv_def case_prod_beta)
  show "session_spec P c (session_view s) = (fst (session_step P c s), session_view (snd (session_step P c s)))"
  proof (cases "is_lifecycle c")
    case True
    from lifecycle_agrees [OF s(2) this] show ?thesis by (simp add: s)
  next
    case False
    from access_agrees [OF s(2) this] False show ?thesis
      by (simp add: s session_spec_def session_view_def case_prod_beta)
  qed
qed

lemma spec_path: "fst (snd (run_calls (session_spec P) cs x)) = fst x"
  by (induction cs arbitrary: x) (simp_all add: session_spec_def case_prod_beta)

lemma destroy_shuts_down:
  assumes "gdb_ok (cs_db s)"
  shows "CoreSession_destroy P s p = snd (store_Shutdown P (store_view_of (cs_db s)) p)"
proof -
  obtain d p' where run: "GcsGlobalDb_Shutdown P (cs_db s) p = (d, p')" by fastforce
  note refines = Shutdown_refines [OF assms run]
  have stays: "snd (GcsGlobalDb_Shutdown P (GcsGlobalDb_new path) q) = q" for path q
    by (simp add: Shutdown_stopped GcsGlobalDb_new_def)
  show ?thesis
  proof (cases "m_running (cs_db s)")
    case True
    with run refines stays show ?thesis
      by (simp add: CoreSession_destroy_def CoreSession_Shutdown_def CoreSession_IsRunning_def GcsGlobalDb_IsRunning_def)
  next
    case False
    with run refines show ?thesis
      by (simp add: CoreSession_destroy_def CoreSession_IsRunning_def GcsGlobalDb_IsRunning_def)
  qed
qed

section \<open>Property\<close>

text \<open>C17: a session constructed from a configuration answers every sequence of calls, initialisations and shutdowns
  anywhere in it and the process changing in between, as the documented store at the configured path does
  that starts out stopped; and its destructor leaves the process as a shutdown of that store would.\<close>

theorem session_runs_refine:
  "case run_calls (session_step P) cs (CoreSession_new dbPath, p) of (answers, s, p') \<Rightarrow>
     run_calls (session_spec P) cs (session_path dbPath, Stopped, p)
       = (answers, session_path dbPath, store_view_of (cs_db s), p') \<and>
     CoreSession_destroy P s p' = snd (store_Shutdown P (store_view_of (cs_db s)) p')"
proof -
  obtain answers s p' where run: "run_calls (session_step P) cs (CoreSession_new dbPath, p) = (answers, s, p')"
    by (metis prod.collapse)
  have inv: "session_inv (CoreSession_new dbPath, p)" by (simp add: session_inv_def)
  have start: "session_view (CoreSession_new dbPath, p) = (session_path dbPath, Stopped, p)"
    by (simp add: session_view_def CoreSession_new_def session_path_def) (simp add: GcsGlobalDb_new_def)
  from session.run_inv [OF inv, of P cs] run have ok: "gdb_ok (cs_db s)" by (simp add: session_inv_def)
  from session.run_spec [OF inv, of P cs] run start
  have spec: "run_calls (session_spec P) cs (session_path dbPath, Stopped, p)
      = (answers, m_dbPath (cs_db s), store_view_of (cs_db s), p')" by (simp add: session_view_def)
  with spec_path [of P cs "(session_path dbPath, Stopped, p)"] have "m_dbPath (cs_db s) = session_path dbPath" by simp
  with spec run destroy_shuts_down [OF ok] show ?thesis by simp
qed

end
