(* ===== verification/AbiContract.thy ===== *)
theory AbiContract
  imports FfiSimulation
begin

text \<open>
  What \<open>gcs_core.h\<close> promises a caller of the four functions, in terms of what the caller can see: the handle
  and status returned, the events pushed to its port, and which handle is valid afterwards. A promise is a predicate
  of one call. The handlers of \<open>gcs_core_ffi.cpp\<close> keep the promises in every state the library can reach.
\<close>

section \<open>What a caller sees\<close>

definition session_handle :: "'w ffi \<Rightarrow> handle option" where
  "session_handle s = map_option fst (g_session s)"

text \<open>The events a call pushed, to the port registered when it returned.\<close>

definition pushed :: "'w platform \<Rightarrow> 'w ffi \<Rightarrow> 'w ffi \<Rightarrow> GcsEvent list \<Rightarrow> bool" where
  "pushed P s s' es \<longleftrightarrow>
     posted (g_proc s') = posted (g_proc s) @
       (if dart_attached (g_proc s') then map (\<lambda>e. (dart_port (g_proc s'), SerializeGcsEvent P e)) es else [])"

section \<open>The promises\<close>

text \<open>The bytes of a configuration that is accepted: not null, not empty, parseable, of the one supported codec.\<close>

definition documented_config :: "'w platform \<Rightarrow> bytes option \<Rightarrow> bool" where
  "documented_config P configBytes =
     (case configBytes of
        None \<Rightarrow> False
      | Some bs \<Rightarrow> bs \<noteq> [] \<and>
          (case parse_config (proto P) bs of None \<Rightarrow> False | Some config \<Rightarrow> cfg_codec config = CODEC_PROTOBUF))"

text \<open>
  \<open>gcs_init\<close>: the handle of the existing session, whose configuration stays, or of a new one with topics to list,
  for a documented configuration only; null otherwise. (That a start during a teardown is refused is not
  in the header.)
\<close>

definition init_promise :: "'w platform \<Rightarrow> bytes option \<Rightarrow> 'w ffi \<Rightarrow> handle option \<Rightarrow> 'w ffi \<Rightarrow> bool" where
  "init_promise P configBytes s r s' \<longleftrightarrow>
     (case session_handle s of
        Some a \<Rightarrow> g_session s' = g_session s \<and> g_roomTopics s' = g_roomTopics s \<and> (\<not> g_tearingDown s \<longrightarrow> r = Some a)
      | None \<Rightarrow>
          (case r of
             None \<Rightarrow> session_handle s' = None
           | Some a \<Rightarrow> documented_config P configBytes \<and> session_handle s' = Some a
               \<and> CoreSession_IsRunning (the_session s') \<and> g_roomTopics s' \<noteq> []))"

text \<open>
  \<open>gcs_publish\<close>: the documented statuses; null, empty or mismatched arguments and any other topic are invalid and
  change nothing; a session that does not run is reported; a payload that does not parse is
  invalid and pushes one error notice.
\<close>

definition publish_promise ::
  "'w platform \<Rightarrow> handle option \<Rightarrow> string option \<Rightarrow> bytes option \<Rightarrow> 'w ffi \<Rightarrow> GcsStatus \<Rightarrow> 'w ffi \<Rightarrow> bool" where
  "publish_promise P session topic payloadBytes s status s' \<longleftrightarrow>
     status \<in> {GCS_OK, GCS_ERROR_INVALID_ARGUMENT, GCS_ERROR_NOT_RUNNING, GCS_ERROR_GENERIC} \<and>
     session_handle s' = session_handle s \<and>
     (if session = None \<or> session \<noteq> session_handle s \<or> topic = None \<or> payloadBytes = None \<or> payloadBytes = Some []
      then status = GCS_ERROR_INVALID_ARGUMENT \<and> s' = s
      else if \<not> CoreSession_IsRunning (the_session s) \<and> length (the payloadBytes) \<le> int_max
      then status = GCS_ERROR_NOT_RUNNING \<and> s' = s
      else if topic \<noteq> Some kCommandTopic then status = GCS_ERROR_INVALID_ARGUMENT \<and> s' = s
      else if length (the payloadBytes) \<le> int_max \<and> parse_command (proto P) (the payloadBytes) = None
      then status = GCS_ERROR_INVALID_ARGUMENT \<and> (\<exists>message. pushed P s s' [Ev_error message])
      else True)"

text \<open>
  \<open>gcs_subscribe\<close>: invalid on null or mismatched arguments or a zero port; otherwise the port receives the current
  room list and then readiness, whatever the topic argument is.
\<close>

definition subscribe_promise ::
  "'w platform \<Rightarrow> handle option \<Rightarrow> string option \<Rightarrow> int64 \<Rightarrow> 'w ffi \<Rightarrow> GcsStatus \<Rightarrow> 'w ffi \<Rightarrow> bool" where
  "subscribe_promise P session topic dartPort s status s' \<longleftrightarrow>
     (if session = None \<or> session \<noteq> session_handle s \<or> topic = None \<or> dartPort = 0
      then status = GCS_ERROR_INVALID_ARGUMENT \<and> s' = s
      else if \<not> CoreSession_IsRunning (the_session s) then status = GCS_ERROR_NOT_RUNNING \<and> s' = s
      else status = GCS_OK \<and> dart_port (g_proc s') = dartPort \<and> session_handle s' = session_handle s \<and>
           (\<exists>before. pushed P s s' (before @ [Ev_room_list (g_roomTopics s), Ev_readiness True])))"

text \<open>
  \<open>gcs_shutdown\<close>: nothing happens on a null or mismatched handle; otherwise no session and no port is left, nothing was
  pushed while the session went, and a second call does nothing. (That the call waits for operations in
  flight, \<open>None\<close>, is not in the header.)
\<close>

definition shutdown_promise :: "handle option \<Rightarrow> 'w ffi \<Rightarrow> 'w ffi option \<Rightarrow> 'w ffi option \<Rightarrow> bool" where
  "shutdown_promise session s result again \<longleftrightarrow>
     (if session = None \<or> session \<noteq> session_handle s then result = Some s
      else (g_inFlight s = 0 \<longleftrightarrow> result \<noteq> None) \<and>
        (case result of
           None \<Rightarrow> True
         | Some s' \<Rightarrow> session_handle s' = None \<and> dart_port (g_proc s') = 0 \<and>
             posted (g_proc s') = posted (g_proc s) \<and> again = Some s'))"

section \<open>The handlers keep them\<close>

lemma mismatch: "handle_matches s h \<longleftrightarrow> h \<noteq> None \<and> h = session_handle s"
  by (auto simp: handle_matches_def session_handle_def split: option.splits)

lemma same_handle: "ffi_gates s' = ffi_gates s \<Longrightarrow> session_handle s' = session_handle s"
  by (simp add: ffi_gates_def session_handle_def)

lemma dispatch_status: "fst (dispatch_command P c s) \<in> {GCS_OK, GCS_ERROR_INVALID_ARGUMENT, GCS_ERROR_GENERIC}"
proof (cases c)
  case (JoinTopic t)
  then show ?thesis by (cases rule: publish_join_cases [of t P s]) (simp_all add: Let_def case_prod_beta)
qed (simp_all add: publish_send_def publish_create_space_def publish_create_room_def publish_update_space_def
    publish_not_set_def Let_def case_prod_beta)

lemma Notice_pushed: "pushed P s (Notice P message s) [Ev_error message]"
  by (simp add: pushed_def Notice_def PostErrorNotice_def PostToDart_posts SerializeGcsEvent_def dart_attached_def Let_def)

lemma publish_keeps: "publish_promise P h topic payload s (fst (gcs_publish P h topic payload s)) (snd (gcs_publish P h topic payload s))"
  unfolding publish_promise_def
proof (intro conjI)
  show "fst (gcs_publish P h topic payload s) \<in> {GCS_OK, GCS_ERROR_INVALID_ARGUMENT, GCS_ERROR_NOT_RUNNING, GCS_ERROR_GENERIC}"
    using dispatch_status [of P _ s] by (auto simp: gcs_publish_def split: option.split)
  show "session_handle (snd (gcs_publish P h topic payload s)) = session_handle s"
    by (rule same_handle, rule gates_publish)
qed (auto simp: gcs_publish_def mismatch intro: Notice_pushed split: option.split)

lemma init_config:
  assumes "g_session s = None" and "fst (gcs_init P ssl b s) = Some a"
  shows "documented_config P b"
  using assms by (auto simp: gcs_init_def documented_config_def Let_def split: if_splits option.splits)

lemma init_keeps:
  assumes ok: "ffi_ok P ssl s"
  shows "init_promise P b s (fst (gcs_init P ssl b s)) (snd (gcs_init P ssl b s))"
proof -
  obtain r s' where run: "gcs_init P ssl b s = (r, s')" by fastforce
  note result = gcs_init_result [OF ok run, of None]
  show ?thesis
  proof (cases "g_session s")
    case None
    with result init_config [OF None, of P ssl b] run show ?thesis
      by (cases r) (auto simp: init_promise_def session_handle_def the_session_def)
  next
    case (Some x)
    obtain a cs where x: "x = (a, cs)" by fastforce
    show ?thesis
    proof (cases "g_tearingDown s")
      case True
      with Some x run show ?thesis by (auto simp: init_promise_def session_handle_def gcs_init_def)
    next
      case False
      with gcs_init_existing [of s a cs P ssl b] Some x run show ?thesis
        by (auto simp: init_promise_def session_handle_def)
    qed
  qed
qed

lemma subscribe_keeps:
  "subscribe_promise P h topic port s (fst (gcs_subscribe P h topic port s)) (snd (gcs_subscribe P h topic port s))"
proof (cases "handle_matches s h \<and> topic \<noteq> None \<and> port \<noteq> 0 \<and> CoreSession_IsRunning (the_session s)")
  case True
  then obtain t where t: "topic = Some t" by blast
  let ?s = "snd (gcs_subscribe P h topic port s)"
  have run: "gcs_subscribe P h topic port s = (GCS_OK, ?s)" using True t by (simp add: gcs_subscribe_def Let_def)
  have "pushed P s ?s ([BuildSpaceTreeEvent s] @ [Ev_room_list (g_roomTopics s), Ev_readiness True])"
    "dart_port (g_proc ?s) = port" "session_handle ?s = session_handle s"
    using True t by (simp_all add: gcs_subscribe_def Let_def pushed_def Post_def PostToDart_posts SerializeGcsEvent_def
        dart_attached_def BuildSpaceTreeEvent_def BuildRoomListEvent_def the_entities_def session_handle_def)
  with True run show ?thesis unfolding subscribe_promise_def by (metis fst_conv mismatch)
next
  case False
  then show ?thesis by (auto simp: subscribe_promise_def gcs_subscribe_def mismatch)
qed

lemma Put_fold_frame [simp]:
  "posted (foldl (\<lambda>p (k, v). snd (CoreSession_Put P cs k v p)) p kvs) = posted p"
  "dart_port (foldl (\<lambda>p (k, v). snd (CoreSession_Put P cs k v p)) p kvs) = dart_port p"
  by (induction kvs arbitrary: p) (simp_all add: frame_simps case_prod_beta)

lemma shutdown_keeps:
  assumes ok: "ffi_ok P ssl s"
  shows "shutdown_promise h s (gcs_shutdown P h s) (Option.bind (gcs_shutdown P h s) (gcs_shutdown P h'))"
proof (cases "handle_matches s h")
  case False
  then show ?thesis by (auto simp: shutdown_promise_def gcs_shutdown_def mismatch)
next
  case True
  then obtain a cs where s: "g_session s = Some (a, cs)" "h = Some a" by (auto simp: handle_matches_def split: option.splits)
  with ok obtain m where m: "g_messaging s = Some m" by (auto elim: ffi_okE)
  show ?thesis
  proof (cases "g_inFlight s = 0")
    case True
    from gcs_shutdown_effect [OF ok s(1) m True, where h = h' and t = "[]" and d = "[]" and k = "[]" and v = "[]"]
    obtain s' where s': "gcs_shutdown P (Some a) s = Some s'" "g_session s' = None" "gcs_shutdown P h' s' = Some s'"
      and proc: "g_proc s' = (let p1 = (g_proc s)\<lparr>dart_port := 0\<rparr>;
          p2 = (if g_sdkBootedHere s then p1\<lparr>world := sdk_shutdown P (world p1)\<rparr> else p1);
          p3 = foldl (\<lambda>p (key, val). snd (CoreSession_Put P cs key val p)) p2 (m_archiveQueue m)
        in p3\<lparr>world := globaldb_shutdown_now P (the (m_db (cs_db cs))) (world p3)\<rparr>)" by blast
    have "dart_port (g_proc s') = 0" "posted (g_proc s') = posted (g_proc s)" by (simp_all add: proc Let_def)
    with s s' True show ?thesis by (simp add: shutdown_promise_def session_handle_def)
  next
    case False
    with s show ?thesis by (simp add: shutdown_promise_def session_handle_def gcs_shutdown_def handle_matches_def)
  qed
qed

section \<open>Property\<close>



end
