(* ===== verification/MessagingContract.thy ===== *)
theory MessagingContract
  imports FfiEndToEnd
begin

text \<open>
  What \<open>gcs_messaging.hpp\<close> promises of the messaging component, one predicate per operation over what its owner can
  see: results, pushed events, replicated and queued bytes. The operations of \<open>gcs_messaging.cpp\<close> keep the promises
  with the production sink.
\<close>

section \<open>What the owner sees\<close>

text \<open>The events that reached the port, as the sink serialises them.\<close>

definition events_pushed :: "'w platform \<Rightarrow> 'w proc \<Rightarrow> 'w proc \<Rightarrow> GcsEvent list \<Rightarrow> bool" where
  "events_pushed P p p' es \<longleftrightarrow> posted p' = posted p @ map (\<lambda>e. (dart_port p, SerializeGcsEvent P e)) es"

section \<open>The promises\<close>

text \<open>The master switch of the seam: without it, or with a callable missing, payloads are the plaintext itself.\<close>

definition seam_promise :: "'w CryptoSeam \<Rightarrow> 'w messaging \<Rightarrow> bool" where
  "seam_promise crypto m \<longleftrightarrow>
     (Messaging_EncryptionEnabled m \<longleftrightarrow> seam_enabled crypto \<and> seam_encrypt crypto \<noteq> None \<and> seam_decrypt crypto \<noteq> None) \<and>
     (\<forall>topic bs w. \<not> Messaging_EncryptionEnabled m \<longrightarrow>
        make_payload m topic bs w = (Inr bs, w) \<and> open_payload m topic bs w = (Inr bs, w))"

text \<open>
  The work between the two echoes of a send: one encryption, one publish and one archive write of the same
  payload, the first failure ending it.
\<close>

definition send_work ::
  "'w platform \<Rightarrow> core_session \<Rightarrow> string \<Rightarrow> string \<Rightarrow> bytes \<Rightarrow> 'w messaging \<Rightarrow> 'w proc \<Rightarrow> unit result \<times> 'w proc" where
  "send_work P s roomTopic ident plain m p =
     (case make_payload m roomTopic plain (world p) of
        (Inl e, w) \<Rightarrow> (Inl e, p\<lparr>world := w\<rparr>)
      | (Inr payload, w) \<Rightarrow>
          (case CoreSession_Publish P s roomTopic payload (p\<lparr>world := w\<rparr>) of
             (Inl e, p1) \<Rightarrow> (Inl e, p1)
           | (Inr _, p1) \<Rightarrow> CoreSession_Put_topics P s (BuildKey roomTopic ident) payload {roomTopic} p1))"

text \<open>
  A send: a pending event, the work, and one terminal event of the same id, complete exactly when the
  work succeeded; the outcome is that of the work.
\<close>

definition send_promise ::
  "'w platform \<Rightarrow> core_session \<Rightarrow> string \<Rightarrow> string \<Rightarrow> 'w messaging \<Rightarrow> 'w proc \<Rightarrow> unit result \<Rightarrow> 'w proc \<Rightarrow> bool" where
  "send_promise P s roomTopic body m p r p' \<longleftrightarrow>
     (\<exists>msg q q'. cm_room_topic msg = roomTopic \<and> cm_text msg = body \<and> cm_sender msg = m_sender m \<and>
        cm_role msg = MESSAGE_ROLE_USER_SELF \<and> cm_id msg = fst (Messaging_NextMessageId P p) \<and>
        events_pushed P p q [Ev_message (msg\<lparr>cm_state := MESSAGE_STATE_PENDING\<rparr>)] \<and>
        send_work P s roomTopic (cm_id msg) (ser_message (proto P) (msg\<lparr>cm_state := MESSAGE_STATE_COMPLETE\<rparr>)) m q = (r, q') \<and>
        events_pushed P p p' [Ev_message (msg\<lparr>cm_state := MESSAGE_STATE_PENDING\<rparr>),
          Ev_message (msg\<lparr>cm_state := (case r of Inr _ \<Rightarrow> MESSAGE_STATE_COMPLETE | Inl _ \<Rightarrow> MESSAGE_STATE_ERROR)\<rparr>)] \<and>
        world p' = world q')"

text \<open>
  The receive funnel: a payload that opens, parses and has a new id is pushed once, in its role for this
  sender, and queued as received; anything else does nothing. Delivered again, wherever the process has got
  to, it does nothing as long as it opens to the same plaintext.
\<close>

definition receive_promise ::
  "'w platform \<Rightarrow> string \<Rightarrow> bytes \<Rightarrow> 'w messaging \<Rightarrow> 'w proc \<Rightarrow> 'w messaging \<Rightarrow> 'w proc \<Rightarrow> bool" where
  "receive_promise P topic valueBytes m p m' p' \<longleftrightarrow>
     (case (case fst (open_payload m topic valueBytes (world p)) of Inl _ \<Rightarrow> None | Inr plain \<Rightarrow> parse_message (proto P) plain) of
        None \<Rightarrow> events_pushed P p p' [] \<and> m' = m
      | Some msg \<Rightarrow>
          (if cm_id msg \<in> set (m_seenIds m) then events_pushed P p p' [] \<and> m' = m
           else events_pushed P p p' [Ev_message (msg\<lparr>cm_role := RoleFor msg (m_sender m)\<rparr>)] \<and>
                m_archiveQueue m' = m_archiveQueue m @ [(BuildKey (cm_room_topic msg) (cm_id msg), valueBytes)] \<and>
                cm_id msg \<in> set (m_seenIds m'))) \<and>
     (\<forall>q. fst (open_payload m topic valueBytes (world q)) = fst (open_payload m topic valueBytes (world p)) \<longrightarrow>
        (\<exists>w. ApplyMessage P topic valueBytes m' q = (m', q\<lparr>world := w\<rparr>)))"

text \<open>
  The heal route ends in the same funnel as the live route, with the topic of the archive key, logical or as
  the datastore frames it; a key without the prefix of message keys is ignored.
\<close>

definition heal_promise :: "'w platform \<Rightarrow> bytes \<Rightarrow> 'w messaging \<Rightarrow> 'w proc \<Rightarrow> bool" where
  "heal_promise P valueBytes m p \<longleftrightarrow>
     (\<forall>topic ident fr suf. topic \<noteq> [] \<and> CHR ''/'' \<notin> set ident \<and> raw_framing fr \<and>
        (suf = kValueSuffix \<or> suf = [] \<and> ident \<notin> {''v'', ''p''}) \<longrightarrow>
        OnMessageArrived P (fr @ BuildKey topic ident @ suf) valueBytes m p = Some (OnLiveMessage P topic valueBytes m p)) \<and>
     (\<forall>key. find_sub kMessagesKeyPrefix key = None \<longrightarrow> OnMessageArrived P key valueBytes m p = Some (m, p))"

text \<open>
  History: the records of the room's keys that open and parse, as often as they were found, in their role for
  this sender and ordered by timestamp and id; the error of a failed scan; no event either way.
\<close>

definition history_promise ::
  "'w platform \<Rightarrow> core_session \<Rightarrow> string \<Rightarrow> 'w messaging \<Rightarrow> 'w proc \<Rightarrow> MessageHistory result \<Rightarrow> 'w proc \<Rightarrow> bool" where
  "history_promise P s roomTopic m p r p' \<longleftrightarrow>
     events_pushed P p p' [] \<and>
     (case CoreSession_QueryKeyValues P s (kMessagesKeyPrefix @ roomTopic @ ''/'') p of
        Inl e \<Rightarrow> r = Inl e
      | Inr entries \<Rightarrow> (\<exists>h. r = Inr h \<and> mh_room_topic h = roomTopic \<and> sorted_wrt history_order (mh_message h) \<and>
          mset (mh_message h) = mset (fst (history_scan P m roomTopic entries (world p))) \<and>
          (\<forall>msg \<in> set (mh_message h). cm_role msg = RoleFor msg (m_sender m)) \<and>
          length (mh_message h) \<le> length entries))"

text \<open>The destructor returns with every queued write done, in the order of the queue.\<close>

definition destroy_promise ::
  "'w platform \<Rightarrow> core_session \<Rightarrow> 'w messaging \<Rightarrow> 'w proc \<Rightarrow> ('w messaging \<times> 'w proc) option \<Rightarrow> bool" where
  "destroy_promise P s m p result \<longleftrightarrow>
     (case result of
        None \<Rightarrow> False
      | Some (m', p') \<Rightarrow> m_archiveQueue m' = [] \<and>
          p' = fold (\<lambda>(key, val) p. snd (CoreSession_Put P s key val p)) (m_archiveQueue m) p)"

section \<open>The component keeps them\<close>

lemma seam_kept: "seam_promise crypto (Messaging_new senderAddress sink crypto)"
  by (auto simp: seam_promise_def Messaging_new_def Messaging_EncryptionEnabled_def make_payload_def open_payload_def)

text \<open>A send in terms of its work.\<close>

lemma SendMessage_work:
  "Messaging_SendMessage P s topic body m p =
     (case send_work P s topic (cm_id (draft P m topic body p)) (sent_payload_source P m topic body p) m (after_echo P m topic body p) of
        (r, q) \<Rightarrow> (r, m\<lparr>m_seenIds := List.insert (cm_id (draft P m topic body p)) (m_seenIds m)\<rparr>,
                   m_sink m (draft_event P m topic body p (send_final_state r)) q))"
  unfolding SendMessage_unfold send_work_def
  by (simp add: Let_def case_prod_beta send_final_state_def split: sum.split)

lemma send_kept:
  assumes sink: "m_sink m = PostToDart P" and att: "dart_attached p"
    and run: "Messaging_SendMessage P s topic body m p = (r, m', p')"
  shows "send_promise P s topic body m p r p'"
proof -
  let ?msg = "draft P m topic body p" and ?q = "after_echo P m topic body p"
  obtain r' q' where work: "send_work P s topic (cm_id ?msg) (sent_payload_source P m topic body p) m ?q = (r', q')"
    by fastforce
  with run have r: "r' = r" and p': "p' = m_sink m (draft_event P m topic body p (send_final_state r)) q'"
    by (auto simp: SendMessage_work)
  have "cm_room_topic ?msg = topic" "cm_text ?msg = body" "cm_sender ?msg = m_sender m"
    "cm_role ?msg = MESSAGE_ROLE_USER_SELF" "cm_id ?msg = fst (Messaging_NextMessageId P p)"
    by (simp_all add: draft_def)
  moreover have "events_pushed P p ?q [Ev_message (?msg\<lparr>cm_state := MESSAGE_STATE_PENDING\<rparr>)]"
    using after_echo_frame(4) [OF sink att] by (simp add: events_pushed_def draft_event_def)
  moreover have "events_pushed P p p' [Ev_message (?msg\<lparr>cm_state := MESSAGE_STATE_PENDING\<rparr>),
      Ev_message (?msg\<lparr>cm_state := (case r of Inr _ \<Rightarrow> MESSAGE_STATE_COMPLETE | Inl _ \<Rightarrow> MESSAGE_STATE_ERROR)\<rparr>)]"
    using SendMessage_posts [OF sink att run] by (simp add: events_pushed_def draft_event_def send_final_state_def)
  moreover have "world p' = world q'" by (simp add: p' sink frame_simps)
  ultimately show ?thesis
    using work unfolding send_promise_def r sent_payload_source_def by blast
qed

lemma receive_kept:
  assumes sink: "m_sink m = PostToDart P" and att: "dart_attached p"
    and run: "ApplyMessage P topic bs m p = (m', p')"
  shows "receive_promise P topic bs m p m' p'"
proof (cases "admitted P topic bs m p")
  case None
  have "(m', p') = (m, p\<lparr>world := snd (open_payload m topic bs (world p))\<rparr>)"
    by (rule trans [OF run [symmetric] ApplyMessage_rejected [OF None]])
  then have m': "m' = m" "p' = p\<lparr>world := snd (open_payload m topic bs (world p))\<rparr>" by simp_all
  have "admitted P topic bs m q = None" if "fst (open_payload m topic bs (world q)) = fst (open_payload m topic bs (world p))" for q
    using None that by (simp add: admitted_def)
  then have again: "\<exists>w. ApplyMessage P topic bs m' q = (m', q\<lparr>world := w\<rparr>)"
    if "fst (open_payload m topic bs (world q)) = fst (open_payload m topic bs (world p))" for q
    unfolding m'(1) using ApplyMessage_rejected that by blast
  from None show ?thesis
    unfolding receive_promise_def m'(2)
    by (intro conjI allI impI again) (auto simp: m'(1) admitted_def events_pushed_def split: sum.splits option.splits if_splits)
next
  case (Some msg)
  let ?p = "p\<lparr>world := snd (open_payload m topic bs (world p))\<rparr>"
  from Some run have m': "m' = m\<lparr>m_seenIds := seen_admit (cm_id msg) (m_seenIds m),
      m_archiveQueue := m_archiveQueue m @ [(BuildKey (cm_room_topic msg) (cm_id msg), bs)]\<rparr>"
    and p': "p' = PostToDart P (Ev_message (with_role (m_sender m) msg)) ?p"
    by (simp_all add: ApplyMessage_admitted sink)
  have in_set: "cm_id msg \<in> set (m_seenIds m')" by (simp add: m' seen_admit_def)
  have again: "\<exists>w. ApplyMessage P topic bs m' q = (m', q\<lparr>world := w\<rparr>)"
    if "fst (open_payload m topic bs (world q)) = fst (open_payload m topic bs (world p))" for q
  proof -
    have "open_payload m' topic bs (world q) = open_payload m topic bs (world q)" by (simp add: m' open_payload_def)
    with Some that in_set have "admitted P topic bs m' q = None"
      by (auto simp: admitted_def split: sum.splits option.splits if_splits)
    then show ?thesis by (auto simp: ApplyMessage_rejected)
  qed
  have "dart_attached ?p" using att by (simp add: dart_attached_def)
  then have "events_pushed P p p' [Ev_message (msg\<lparr>cm_role := RoleFor msg (m_sender m)\<rparr>)]"
    by (simp add: p' PostToDart_attached events_pushed_def with_role_def)
  with Some in_set m' show ?thesis
    unfolding receive_promise_def
    by (intro conjI allI impI again) (auto simp: admitted_def split: sum.splits option.splits if_splits)
qed

lemma heal_kept: "heal_promise P bs m p"
proof -
  have "RoomTopicFromKey (fr @ BuildKey topic ident @ suf) = Some topic"
    if "CHR ''/'' \<notin> set ident" "raw_framing fr" "suf = kValueSuffix \<or> suf = [] \<and> ident \<notin> {''v'', ''p''}"
    for topic ident fr suf
    using that(3)
  proof
    assume "suf = [] \<and> ident \<notin> {''v'', ''p''}"
    then have suf: "suf = []" and i: "ident \<noteq> ''v''" "ident \<noteq> ''p''" by auto
    have "\<not> suffix (''/'' @ [c]) (kMessagesKeyPrefix @ topic @ ''/'' @ ident)" if "ident \<noteq> [c]" "c \<noteq> CHR ''/''" for c
    proof
      assume "suffix (''/'' @ [c]) (kMessagesKeyPrefix @ topic @ ''/'' @ ident)"
      then obtain z where "kMessagesKeyPrefix @ topic @ ''/'' @ ident = z @ ''/'' @ [c]" by (auto simp: suffix_def)
      with split_last_sep [of "kMessagesKeyPrefix @ topic" "CHR ''/''" ident z "[c]"] \<open>CHR ''/'' \<notin> set ident\<close> that
      show False by simp
    qed
    from this [OF i(1)] this [OF i(2)]
      RoomTopicFromKey_bare [OF that(2), of "topic @ ''/'' @ ident"] topic_of_tail_segment [OF that(1), of topic]
    show ?thesis by (simp add: suf BuildKey_def kValueSuffix_def kPrioritySuffix_def)
  qed (use RoomTopicFromKey_value [OF that(2,1)] in simp)
  then show ?thesis
    unfolding heal_promise_def OnMessageArrived_def OnLiveMessage_def
    by (intro conjI allI impI) (force, simp add: RoomTopicFromKey_def)
qed

lemma destroy_kept: "destroy_promise P s m p (Messaging_destroy P s m p)"
  by (simp add: destroy_promise_def Messaging_destroy_def ArchiveWorker_drains write_out_def foldl_conv_fold split_def)

lemma history_scan_roles:
  "\<forall>msg \<in> set (fst (history_scan P m topic entries w)). cm_role msg = RoleFor msg (m_sender m)"
proof (induction entries arbitrary: w)
  case (Cons e entries)
  obtain k v where e: "e = (k, v)" by fastforce
  from Cons.IH show ?case by (simp add: e case_prod_beta RoleFor_def split: sum.split option.split)
qed simp

lemma history_scan_length: "length (fst (history_scan P m topic entries w)) \<le> length entries"
proof (induction entries arbitrary: w)
  case (Cons e entries)
  obtain k v where e: "e = (k, v)" by fastforce
  from Cons.IH show ?case
    by (simp add: e case_prod_beta le_SucI split: sum.split option.split)
qed simp

lemma history_kept:
  assumes run: "QueryHistory P s topic m p = (r, m', p')"
  shows "history_promise P s topic m p r p'"
proof (cases "CoreSession_QueryKeyValues P s (kMessagesKeyPrefix @ topic @ ''/'') p")
  case (Inl e)
  with run show ?thesis by (simp add: history_promise_def QueryHistory_def events_pushed_def)
next
  case (Inr entries)
  from run Inr have "p' = p\<lparr>world := snd (history_scan P m topic entries (world p))\<rparr>"
    and "r = Inr \<lparr>mh_room_topic = topic, mh_message = sort_key message_key (fst (history_scan P m topic entries (world p)))\<rparr>"
    by (auto simp: QueryHistory_def case_prod_beta Let_def)
  with Inr show ?thesis
    by (simp add: history_promise_def events_pushed_def sorted_history history_scan_roles history_scan_length)
qed

section \<open>Property\<close>

text \<open>C16: with the production sink and a registered port every operation of a messaging object keeps what its header
  documents of results, events, payloads and queued writes: the encryption switch, a send on every outcome, a
  delivery over either route and its repetition, a history request, and the destructor.\<close>

theorem messaging_promises_kept:
  assumes "m_sink m = PostToDart P" and "dart_attached p"
  shows "(\<forall>sender crypto. seam_promise crypto (Messaging_new sender (m_sink m) crypto))
    \<and> (case Messaging_SendMessage P s roomTopic body m p of (r, m', p') \<Rightarrow> send_promise P s roomTopic body m p r p')
    \<and> (case OnLiveMessage P roomTopic valueBytes m p of (m', p') \<Rightarrow> receive_promise P roomTopic valueBytes m p m' p')
    \<and> heal_promise P valueBytes m p
    \<and> (case QueryHistory P s roomTopic m p of (r, m', p') \<Rightarrow> history_promise P s roomTopic m p r p')
    \<and> destroy_promise P s m p (Messaging_destroy P s m p)"
proof (intro conjI)
  show "case Messaging_SendMessage P s roomTopic body m p of (r, m', p') \<Rightarrow> send_promise P s roomTopic body m p r p'"
    using send_kept [OF assms] by (auto split: prod.split)
  show "case OnLiveMessage P roomTopic valueBytes m p of (m', p') \<Rightarrow> receive_promise P roomTopic valueBytes m p m' p'"
    using receive_kept [OF assms] by (auto simp: OnLiveMessage_def split: prod.split)
  show "case QueryHistory P s roomTopic m p of (r, m', p') \<Rightarrow> history_promise P s roomTopic m p r p'"
    using history_kept by (auto split: prod.split)
qed (simp_all add: seam_kept heal_kept destroy_kept)

theorem messaging_promises_kept_witness:
  "\<exists>m' p'. Messaging_SendMessage ref_platform ref_session ''gcs/chat/r1'' ''hi'' ref_alice ref_attached = (Inr (), m', p')
     \<and> send_promise ref_platform ref_session ''gcs/chat/r1'' ''hi'' ref_alice ref_attached (Inr ()) p'"
proof -
  obtain m' p' where run: "Messaging_SendMessage ref_platform ref_session ''gcs/chat/r1'' ''hi'' ref_alice ref_attached
      = (Inr (), m', p')" using ref_send_ok by blast
  from messaging_promises_kept [OF ref_messaging_facts(1) ref_attached_facts(1),
      where s = ref_session and roomTopic = "''gcs/chat/r1''" and body = "''hi''"] run
  show ?thesis by auto
qed

end
