(* ===== verification/BoundaryThreads.thy ===== *)
theory BoundaryThreads
  imports FfiThreadProps MessagingThreadProps
begin

text \<open>
  The two thread models together: the threads of the C boundary (\<open>FfiThreads\<close>, \<open>src/ffi/gcs_core_ffi.cpp\<close>) as the
  owners and callers of the messaging components (\<open>MessagingThreads\<close>, \<open>src/lib/gcs_messaging.cpp\<close>), one component
  for every session that is ever stored. A delivery happens on a bridge thread inside its counted window, a send on
  a command thread inside its window, a history scan on a command thread that holds the mutex, and the
  destructor on the thread that tears the session down, after the eviction and before the session goes.
  What \<open>MessagingThreads\<close> asks of the owner of a component, \<open>owner_waits\<close>, is not assumed here but proved.
\<close>

section \<open>State\<close>

text \<open>Where the call of \<open>OnLiveMessage\<close> or \<open>OnMessageArrived\<close> of a bridge thread is: not yet in the funnel, or in one of
  its phases with the session's number and what it delivers, or through.\<close>

datatype funnel = Outside | Opened nat delivery | Pushing nat delivery | Queuing nat delivery | Through

record boundary =
  b_threads :: threads
  b_funnel :: "nat \<Rightarrow> funnel"
  b_messaging :: "nat \<Rightarrow> mthreads"

definition boundary_loaded :: boundary where
  "boundary_loaded = \<lparr>b_threads = threads_loaded, b_funnel = (\<lambda>_. Outside), b_messaging = (\<lambda>_. mthreads_new)\<rparr>"

section \<open>Steps\<close>

text \<open>A step of the boundary, of a thread inside a component, or of the archive worker of a session.\<close>

datatype bact = Boundary nat act | Inside nat maction | Worker nat maction

definition with_messaging :: "nat \<Rightarrow> mthreads option \<Rightarrow> boundary \<Rightarrow> boundary option" where
  "with_messaging n m s = map_option (\<lambda>m'. s\<lparr>b_messaging := (b_messaging s)(n := m')\<rparr>) m"

text \<open>
  The boundary: a bridge leaves its window when its call has returned, and the session is destroyed when the
  messaging component is.
\<close>

definition may_go_on :: "nat \<Rightarrow> boundary \<Rightarrow> bool" where
  "may_go_on t s \<longleftrightarrow>
     (case t_pc (b_threads s) t of
        Br_window n \<Rightarrow> b_funnel s t = Outside \<or> b_funnel s t = Through
      | Sh_destroy (Some n) \<Rightarrow> mt_closing (b_messaging s n) = D_done
      | Ex_destroy (Some n) \<Rightarrow> mt_closing (b_messaging s n) = D_done
      | _ \<Rightarrow> True)"

definition boundary_step :: "nat \<Rightarrow> act \<Rightarrow> boundary \<Rightarrow> boundary option" where
  "boundary_step t a s =
     (if may_go_on t s
      then map_option (\<lambda>T. s\<lparr>b_threads := T, b_funnel := (b_funnel s)(t := Outside)\<rparr>) (thread_act t a (b_threads s))
      else None)"

text \<open>The funnel on a bridge thread.\<close>

definition funnel_step :: "nat \<Rightarrow> nat \<Rightarrow> maction \<Rightarrow> boundary \<Rightarrow> boundary option" where
  "funnel_step t n a s =
     (let next = (\<lambda>f. map_option (\<lambda>m. s\<lparr>b_funnel := (b_funnel s)(t := f), b_messaging := (b_messaging s)(n := m)\<rparr>)
                    (messaging_act a (b_messaging s n)))
      in case (a, b_funnel s t) of
           (Deliver d, Outside) \<Rightarrow> next (Opened n d)
         | (Dedupe d, Opened k e) \<Rightarrow>
             if k = n \<and> e = d
             then next (if cm_id (fst d) \<in> set (mt_seen (b_messaging s n)) then Through else Pushing n d)
             else None
         | (Push d, Pushing k e) \<Rightarrow> if k = n \<and> e = d then next (Queuing n d) else None
         | (Enqueue d, Queuing k e) \<Rightarrow> if k = n \<and> e = d then next Through else None
         | _ \<Rightarrow> None)"

definition is_send :: "maction \<Rightarrow> bool" where
  "is_send a \<longleftrightarrow> (case a of Send_inserts _ \<Rightarrow> True | _ \<Rightarrow> False)"

definition is_scan :: "maction \<Rightarrow> bool" where
  "is_scan a \<longleftrightarrow> (case a of History_absorbs _ \<Rightarrow> True | _ \<Rightarrow> False)"

definition is_closing :: "maction \<Rightarrow> bool" where
  "is_closing a \<longleftrightarrow> a = Stop \<or> a = Join"

definition is_worker :: "maction \<Rightarrow> bool" where
  "is_worker a \<longleftrightarrow> a = Worker_takes \<or> a = Worker_puts \<or> a = Worker_ends"

definition inside_step :: "nat \<Rightarrow> maction \<Rightarrow> boundary \<Rightarrow> boundary option" where
  "inside_step t a s =
     (case t_pc (b_threads s) t of
        Br_window n \<Rightarrow> funnel_step t n a s
      | Cmd_window n \<Rightarrow> if is_send a then with_messaging n (messaging_act a (b_messaging s n)) s else None
      | Cmd_held n \<Rightarrow> if is_scan a then with_messaging n (messaging_act a (b_messaging s n)) s else None
      | Sh_destroy (Some n) \<Rightarrow> if is_closing a then with_messaging n (messaging_act a (b_messaging s n)) s else None
      | Ex_destroy (Some n) \<Rightarrow> if is_closing a then with_messaging n (messaging_act a (b_messaging s n)) s else None
      | _ \<Rightarrow> None)"

text \<open>The worker of a session runs from the moment the session is stored.\<close>

fun boundary_act :: "bact \<Rightarrow> boundary \<Rightarrow> boundary option" where
  "boundary_act (Boundary t a) s = boundary_step t a s"
| "boundary_act (Inside t a) s = inside_step t a s"
| "boundary_act (Worker n a) s =
     (if n < t_next (b_threads s) \<and> is_worker a then with_messaging n (messaging_act a (b_messaging s n)) s else None)"

definition act_allowed :: "(nat \<Rightarrow> act \<Rightarrow> bool) \<Rightarrow> bact \<Rightarrow> bool" where
  "act_allowed may b \<longleftrightarrow> (case b of Boundary t a \<Rightarrow> may t a | _ \<Rightarrow> True)"

inductive boundary_reachable :: "(nat \<Rightarrow> act \<Rightarrow> bool) \<Rightarrow> boundary \<Rightarrow> bool"
  for may :: "nat \<Rightarrow> act \<Rightarrow> bool" where
  loaded: "boundary_reachable may boundary_loaded"
| act: "boundary_reachable may s \<Longrightarrow> act_allowed may b \<Longrightarrow> boundary_act b s = Some s' \<Longrightarrow> boundary_reachable may s'"

fun run_boundary :: "bact list \<Rightarrow> boundary \<Rightarrow> boundary option" where
  "run_boundary [] s = Some s"
| "run_boundary (b # bs) s = (case boundary_act b s of None \<Rightarrow> None | Some s' \<Rightarrow> run_boundary bs s')"

lemma run_boundary_reachable:
  "boundary_reachable may s \<Longrightarrow> list_all (act_allowed may) bs \<Longrightarrow> run_boundary bs s = Some s' \<Longrightarrow> boundary_reachable may s'"
  by (induction bs arbitrary: s) (auto intro: boundary_reachable.act split: option.splits)

section \<open>The coupling\<close>

text \<open>The part of a component's deliveries that a thread's call is.\<close>

definition opened_at :: "nat \<Rightarrow> funnel \<Rightarrow> delivery multiset" where
  "opened_at n f = (case f of Opened k d \<Rightarrow> if k = n then {#d#} else {#} | _ \<Rightarrow> {#})"

definition pushing_at :: "nat \<Rightarrow> funnel \<Rightarrow> delivery multiset" where
  "pushing_at n f = (case f of Pushing k d \<Rightarrow> if k = n then {#d#} else {#} | _ \<Rightarrow> {#})"

definition queuing_at :: "nat \<Rightarrow> funnel \<Rightarrow> delivery multiset" where
  "queuing_at n f = (case f of Queuing k d \<Rightarrow> if k = n then {#d#} else {#} | _ \<Rightarrow> {#})"

lemmas at_defs = opened_at_def pushing_at_def queuing_at_def

definition funnel_of :: "funnel \<Rightarrow> nat option" where
  "funnel_of f = (case f of Opened n _ \<Rightarrow> Some n | Pushing n _ \<Rightarrow> Some n | Queuing n _ \<Rightarrow> Some n | _ \<Rightarrow> None)"

text \<open>
  The deliveries in a component are exactly the calls of the threads in it, each in the window of its session; and a
  component is closed only by a thread that destroys its session, which goes last.
\<close>

definition coupled :: "nat \<Rightarrow> boundary \<Rightarrow> bool" where
  "coupled N s \<longleftrightarrow>
     (\<forall>t n. funnel_of (b_funnel s t) = Some n \<longrightarrow> t < N \<and> t_pc (b_threads s) t = Br_window n) \<and>
     (\<forall>n. mt_opened (b_messaging s n) = (\<Sum>t<N. opened_at n (b_funnel s t)) \<and>
          mt_pushing (b_messaging s n) = (\<Sum>t<N. pushing_at n (b_funnel s t)) \<and>
          mt_enqueuing (b_messaging s n) = (\<Sum>t<N. queuing_at n (b_funnel s t))) \<and>
     (\<forall>n. mt_closing (b_messaging s n) \<noteq> D_none \<longrightarrow>
          n \<in> set (t_destroyed (b_threads s)) \<or> (\<exists>t. dying (t_pc (b_threads s) t) = Some n)) \<and>
     (\<forall>n \<in> set (t_destroyed (b_threads s)). mt_closing (b_messaging s n) = D_done)"

lemma coupled_loaded: "coupled N boundary_loaded"
  by (simp add: coupled_def boundary_loaded_def funnel_of_def at_defs mthreads_new_def threads_loaded_def)

text \<open>One thread's contribution exchanged.\<close>

lemma sum_upd:
  fixes g :: "funnel \<Rightarrow> delivery multiset" and t N :: nat
  assumes "t < N"
  shows "(\<Sum>u<N. g ((f(t := x)) u)) + g (f t) = (\<Sum>u<N. g (f u)) + g x"
proof -
  have split: "(\<Sum>u<N. h u) = h t + (\<Sum>u \<in> {..<N} - {t}. h u)" for h :: "nat \<Rightarrow> delivery multiset"
    using assms by (intro sum.remove) auto
  have "(\<Sum>u \<in> {..<N} - {t}. g ((f(t := x)) u)) = (\<Sum>u \<in> {..<N} - {t}. g (f u))"
    by (rule sum.cong) auto
  then show ?thesis unfolding split [of "\<lambda>u. g ((f(t := x)) u)"] split [of "\<lambda>u. g (f u)"] by (simp add: ac_simps)
qed

text \<open>A component no thread's call is in has no delivery in it.\<close>

lemma coupled_empty:
  assumes "coupled N s" and "\<And>t. funnel_of (b_funnel s t) \<noteq> Some n"
  shows "no_receiver (b_messaging s n)"
proof -
  have "opened_at n (b_funnel s t) = {#} \<and> pushing_at n (b_funnel s t) = {#} \<and> queuing_at n (b_funnel s t) = {#}" for t
    using assms(2) [of t] by (auto simp: at_defs funnel_of_def split: funnel.splits)
  with assms(1) show ?thesis by (simp add: coupled_def no_receiver_def)
qed

text \<open>While a thread uses a session its component is open; while one destroys it no call is in it.\<close>

lemma used_open:
  assumes "threads_ok N (b_threads s)" and "coupled N s" and "refers (t_pc (b_threads s) t) = Some n"
  shows "mt_closing (b_messaging s n) = D_none"
proof (rule ccontr)
  assume "mt_closing (b_messaging s n) \<noteq> D_none"
  then have "n \<in> set (t_destroyed (b_threads s)) \<or> (\<exists>u. dying (t_pc (b_threads s) u) = Some n)"
    using assms(2) by (simp add: coupled_def)
  with ok_refers [OF assms(1,3)] show False
    using ok_live [OF assms(1), of n] ok_dying [OF assms(1), of _ n] by auto
qed

lemma dying_empty:
  assumes "threads_ok N (b_threads s)" and "coupled N s" and "dying (t_pc (b_threads s) t) = Some n"
  shows "no_receiver (b_messaging s n)"
proof (rule coupled_empty [OF assms(2)])
  fix u
  show "funnel_of (b_funnel s u) \<noteq> Some n"
  proof
    assume "funnel_of (b_funnel s u) = Some n"
    then have "t_pc (b_threads s) u = Br_window n" using assms(2) by (simp add: coupled_def)
    then have "live (b_threads s) = Some n" using ok_refers [OF assms(1), of u n] by simp
    with ok_dying [OF assms(1,3)] show False by simp
  qed
qed

section \<open>Every step keeps the coupling\<close>

lemma outside_empty: "funnel_of f = None \<Longrightarrow> opened_at n f = {#} \<and> pushing_at n f = {#} \<and> queuing_at n f = {#}"
  by (auto simp: at_defs funnel_of_def split: funnel.splits)

lemma boundary_step_coupled:
  assumes ok: "threads_ok N (b_threads s)" and coupled: "coupled N s"
    and act: "thread_act t a (b_threads s) = Some T'" and a: "a \<noteq> Timeout" and t: "t < N" and go: "may_go_on t s"
  shows "coupled N (s\<lparr>b_threads := T', b_funnel := (b_funnel s)(t := Outside)\<rparr>)"
proof -
  let ?T = "b_threads s"
  obtain l where eff: "effect t l ?T T'" using thread_act_effect [OF act a] by blast
  have pc: "t_pc T' u = t_pc ?T u" if "u \<noteq> t" for u
    using eff that by (simp add: effect_def)
  have gone: "t_destroyed T' = (case dying (t_pc ?T t) of None \<Rightarrow> t_destroyed ?T | Some n \<Rightarrow> n # t_destroyed ?T)"
    using eff by (simp add: effect_def)
  have out: "funnel_of (b_funnel s t) = None"
  proof (cases "funnel_of (b_funnel s t)")
    case (Some n)
    with coupled have "t_pc ?T t = Br_window n" by (simp add: coupled_def)
    with go Some show ?thesis by (auto simp: may_go_on_def funnel_of_def)
  qed
  have sums: "(\<Sum>u<N. g (((b_funnel s)(t := Outside)) u)) = (\<Sum>u<N. g (b_funnel s u))"
    if "g (b_funnel s t) = {#}" "g Outside = {#}" for g :: "funnel \<Rightarrow> delivery multiset"
    using sum_upd [OF t, of g "b_funnel s" Outside] that by simp
  have closed: "n \<in> set (t_destroyed T') \<or> (\<exists>u. dying (t_pc T' u) = Some n)"
    if "mt_closing (b_messaging s n) \<noteq> D_none" for n
  proof -
    from that coupled consider "n \<in> set (t_destroyed ?T)" | u where "dying (t_pc ?T u) = Some n"
      unfolding coupled_def by blast
    then show ?thesis
    proof cases
      case 1
      then show ?thesis by (simp add: gone split: option.split)
    next
      case 2
      show ?thesis
      proof (cases "u = t")
        case True
        with 2 show ?thesis by (simp add: gone)
      next
        case False
        with 2 pc show ?thesis by metis
      qed
    qed
  qed
  have "mt_closing (b_messaging s n) = D_done" if "n \<in> set (t_destroyed T')" for n
  proof (cases "n \<in> set (t_destroyed ?T)")
    case False
    with that gone have "dying (t_pc ?T t) = Some n" by (auto split: option.splits)
    with go show ?thesis by (cases "t_pc ?T t") (auto simp: may_go_on_def)
  qed (use coupled in \<open>simp add: coupled_def\<close>)
  with coupled closed pc sums outside_empty [OF out] outside_empty [of Outside] show ?thesis
    by (simp add: coupled_def funnel_of_def)
qed

lemma with_messaging_coupled:
  assumes "coupled N s" and "mt_opened m' = mt_opened (b_messaging s n)" and "mt_pushing m' = mt_pushing (b_messaging s n)"
    and "mt_enqueuing m' = mt_enqueuing (b_messaging s n)"
    and "mt_closing m' = mt_closing (b_messaging s n) \<or> n \<notin> set (t_destroyed (b_threads s)) \<and> dying (t_pc (b_threads s) t) = Some n"
  shows "coupled N (s\<lparr>b_messaging := (b_messaging s)(n := m')\<rparr>)"
  using assms unfolding coupled_def by auto

text \<open>What the steps that are not deliveries leave alone.\<close>

lemma quiet_maction:
  assumes "messaging_act a m = Some m'" and "is_send a \<or> is_scan a \<or> is_closing a \<or> is_worker a"
  shows "mt_opened m' = mt_opened m \<and> mt_pushing m' = mt_pushing m \<and> mt_enqueuing m' = mt_enqueuing m \<and>
    (is_closing a \<or> mt_closing m' = mt_closing m)"
  using assms
  by (cases a) (auto simp: is_send_def is_scan_def is_closing_def is_worker_def mact_defs
      split: worker.splits closing.splits list.splits if_splits)

text \<open>The four steps of a delivery, with its rejection by the dedupe set.\<close>

definition funnel_upd :: "nat \<Rightarrow> nat \<Rightarrow> funnel \<Rightarrow> mthreads \<Rightarrow> boundary \<Rightarrow> boundary" where
  "funnel_upd t n f m s = s\<lparr>b_funnel := (b_funnel s)(t := f), b_messaging := (b_messaging s)(n := m)\<rparr>"

lemma funnel_upd_fields:
  "b_threads (funnel_upd t n f m s) = b_threads s" "b_funnel (funnel_upd t n f m s) = (b_funnel s)(t := f)"
  "b_messaging (funnel_upd t n f m s) = (b_messaging s)(n := m)"
  by (simp_all add: funnel_upd_def)

lemma funnel_step_act:
  assumes "funnel_step t n a s = Some s'"
  shows "\<exists>f m'. messaging_act a (b_messaging s n) = Some m' \<and> s' = funnel_upd t n f m' s \<and>
    ((\<exists>d. a = Deliver d \<and> b_funnel s t = Outside \<and> f = Opened n d) \<or>
     (\<exists>d. a = Dedupe d \<and> b_funnel s t = Opened n d \<and>
        f = (if cm_id (fst d) \<in> set (mt_seen (b_messaging s n)) then Through else Pushing n d)) \<or>
     (\<exists>d. a = Push d \<and> b_funnel s t = Pushing n d \<and> f = Queuing n d) \<or>
     (\<exists>d. a = Enqueue d \<and> b_funnel s t = Queuing n d \<and> f = Through))"
  using assms
  by (cases a; cases "b_funnel s t") (simp_all add: funnel_step_def funnel_upd_def split: if_splits; fastforce)+

text \<open>The delivery moves from phase to phase in the component as it does on its thread.\<close>

lemma funnel_step_moves:
  assumes "funnel_step t n a s = Some s'"
  shows "\<exists>f m'. messaging_act a (b_messaging s n) = Some m' \<and> s' = funnel_upd t n f m' s \<and>
    mt_opened m' + opened_at n (b_funnel s t) = mt_opened (b_messaging s n) + opened_at n f \<and>
    mt_pushing m' + pushing_at n (b_funnel s t) = mt_pushing (b_messaging s n) + pushing_at n f \<and>
    mt_enqueuing m' + queuing_at n (b_funnel s t) = mt_enqueuing (b_messaging s n) + queuing_at n f \<and>
    mt_closing m' = mt_closing (b_messaging s n) \<and> funnel_of f \<in> {None, Some n} \<and>
    funnel_of (b_funnel s t) \<in> {None, Some n}"
proof -
  from funnel_step_act [OF assms] obtain f m' where act: "messaging_act a (b_messaging s n) = Some m'"
    and s': "s' = funnel_upd t n f m' s"
    and steps: "(\<exists>d. a = Deliver d \<and> b_funnel s t = Outside \<and> f = Opened n d) \<or>
     (\<exists>d. a = Dedupe d \<and> b_funnel s t = Opened n d \<and>
        f = (if cm_id (fst d) \<in> set (mt_seen (b_messaging s n)) then Through else Pushing n d)) \<or>
     (\<exists>d. a = Push d \<and> b_funnel s t = Pushing n d \<and> f = Queuing n d) \<or>
     (\<exists>d. a = Enqueue d \<and> b_funnel s t = Queuing n d \<and> f = Through)" by blast
  from steps act show ?thesis
    by (intro exI [of _ f] exI [of _ m'], elim disjE exE conjE)
      (auto simp: s' mact_defs at_defs funnel_of_def Let_def split: if_splits)
qed

lemma funnel_step_coupled:
  assumes coupled: "coupled N s" and t: "t < N" and pc: "t_pc (b_threads s) t = Br_window n"
    and step: "funnel_step t n a s = Some s'"
  shows "coupled N s'"
proof -
  let ?M = "b_messaging s n" and ?f = "b_funnel s t"
  obtain f m' where s': "s' = funnel_upd t n f m' s"
    and opened: "mt_opened m' + opened_at n ?f = mt_opened ?M + opened_at n f"
    and pushing: "mt_pushing m' + pushing_at n ?f = mt_pushing ?M + pushing_at n f"
    and queuing: "mt_enqueuing m' + queuing_at n ?f = mt_enqueuing ?M + queuing_at n f"
    and kind: "mt_closing m' = mt_closing ?M" "funnel_of f \<in> {None, Some n}" "funnel_of ?f \<in> {None, Some n}"
    using funnel_step_moves [OF step] by blast
  have other: "opened_at k g = {#} \<and> pushing_at k g = {#} \<and> queuing_at k g = {#}"
    if "k \<noteq> n" "funnel_of g \<in> {None, Some n}" for k g
    using that by (auto simp: at_defs funnel_of_def split: funnel.splits)
  have sums: "(\<Sum>u<N. g (((b_funnel s)(t := f)) u)) + g ?f = (\<Sum>u<N. g (b_funnel s u)) + g f"
    for g :: "funnel \<Rightarrow> delivery multiset" by (rule sum_upd [OF t])
  have sum_of: "mt_opened (b_messaging s k) = (\<Sum>u<N. opened_at k (b_funnel s u)) \<and>
      mt_pushing (b_messaging s k) = (\<Sum>u<N. pushing_at k (b_funnel s u)) \<and>
      mt_enqueuing (b_messaging s k) = (\<Sum>u<N. queuing_at k (b_funnel s u))" for k
    using coupled by (simp add: coupled_def)
  have deliveries: "mt_opened (((b_messaging s)(n := m')) k) = (\<Sum>u<N. opened_at k (((b_funnel s)(t := f)) u)) \<and>
      mt_pushing (((b_messaging s)(n := m')) k) = (\<Sum>u<N. pushing_at k (((b_funnel s)(t := f)) u)) \<and>
      mt_enqueuing (((b_messaging s)(n := m')) k) = (\<Sum>u<N. queuing_at k (((b_funnel s)(t := f)) u))" for k
  proof (cases "k = n")
    case True
    have "mt_opened m' = (\<Sum>u<N. opened_at n (((b_funnel s)(t := f)) u))"
      "mt_pushing m' = (\<Sum>u<N. pushing_at n (((b_funnel s)(t := f)) u))"
      "mt_enqueuing m' = (\<Sum>u<N. queuing_at n (((b_funnel s)(t := f)) u))"
      using sums [of "opened_at n"] opened sums [of "pushing_at n"] pushing sums [of "queuing_at n"] queuing sum_of [of n]
      by (metis add_right_cancel)+
    with True show ?thesis by (simp only: fun_upd_same)
  next
    case False
    from sums [of "opened_at k"] sums [of "pushing_at k"] sums [of "queuing_at k"]
      other [OF False kind(2)] other [OF False kind(3)] sum_of [of k] False show ?thesis by simp
  qed
  have places: "u < N \<and> t_pc (b_threads s) u = Br_window k" if "funnel_of (((b_funnel s)(t := f)) u) = Some k" for u k
    using that kind(2) t pc coupled by (cases "u = t") (auto simp: coupled_def)
  have closing: "mt_closing (((b_messaging s)(n := m')) k) = mt_closing (b_messaging s k)" for k
    using kind(1) by simp
  show ?thesis
    unfolding coupled_def s' funnel_upd_fields
    using deliveries places coupled unfolding coupled_def closing by blast
qed

section \<open>The discipline of the owner\<close>

definition boundary_ok :: "nat \<Rightarrow> boundary \<Rightarrow> bool" where
  "boundary_ok N s \<longleftrightarrow> threads_ok N (b_threads s) \<and> coupled N s \<and> (\<forall>n. messaging_reachable owner_waits (b_messaging s n))"

lemma boundary_ok_loaded: "boundary_ok N boundary_loaded"
  using coupled_loaded by (simp add: boundary_ok_def boundary_loaded_def inv_init messaging_reachable.new)

lemma with_messaging_ok:
  assumes ok: "boundary_ok N s" and step: "with_messaging n (messaging_act a (b_messaging s n)) s = Some s'"
    and kind: "is_send a \<or> is_scan a \<or> is_worker a \<or> is_closing a \<and> dying (t_pc (b_threads s) t) = Some n"
    and waits: "owner_waits a (b_messaging s n)"
  shows "boundary_ok N s'"
proof -
  from step obtain m' where act: "messaging_act a (b_messaging s n) = Some m'" and s': "s' = s\<lparr>b_messaging := (b_messaging s)(n := m')\<rparr>"
    by (auto simp: with_messaging_def)
  from ok have parts: "threads_ok N (b_threads s)" "coupled N s" "\<And>k. messaging_reachable owner_waits (b_messaging s k)"
    by (simp_all add: boundary_ok_def)
  have "messaging_reachable owner_waits m'" by (rule messaging_reachable.act [OF parts(3) waits act])
  moreover have "coupled N s'"
  proof -
    have quiet: "mt_opened m' = mt_opened (b_messaging s n)" "mt_pushing m' = mt_pushing (b_messaging s n)"
      "mt_enqueuing m' = mt_enqueuing (b_messaging s n)" "is_closing a \<or> mt_closing m' = mt_closing (b_messaging s n)"
      using quiet_maction [OF act] kind by auto
    have "mt_closing m' = mt_closing (b_messaging s n)
        \<or> n \<notin> set (t_destroyed (b_threads s)) \<and> dying (t_pc (b_threads s) t) = Some n"
    proof (cases "is_closing a")
      case True
      then have "\<not> is_send a \<and> \<not> is_scan a \<and> \<not> is_worker a"
        by (auto simp: is_closing_def is_send_def is_scan_def is_worker_def)
      with kind ok_dying [OF parts(1), of t n] show ?thesis by auto
    qed (use quiet in simp)
    from with_messaging_coupled [OF parts(2) quiet(1-3) this] show ?thesis by (simp add: s')
  qed
  ultimately show ?thesis using parts by (simp add: boundary_ok_def s')
qed

lemma not_closing_kinds: "is_send a \<or> is_scan a \<Longrightarrow> mt_closing m = D_none \<Longrightarrow> owner_waits a m"
  and worker_waits: "is_worker a \<Longrightarrow> owner_waits a m"
  and closing_waits: "is_closing a \<Longrightarrow> no_receiver m \<Longrightarrow> owner_waits a m"
  by (auto simp: is_send_def is_scan_def is_worker_def is_closing_def owner_waits_def split: maction.splits)

lemma inside_step_ok:
  assumes ok: "boundary_ok N s" and step: "inside_step t a s = Some s'"
  shows "boundary_ok N s'"
proof -
  from ok have parts: "threads_ok N (b_threads s)" "coupled N s" "\<And>k. messaging_reachable owner_waits (b_messaging s k)"
    by (simp_all add: boundary_ok_def)
  note here = with_messaging_ok [OF ok]
  from step consider (window) n where "t_pc (b_threads s) t = Br_window n" "funnel_step t n a s = Some s'"
    | (calls) n where "refers (t_pc (b_threads s) t) = Some n" "is_send a \<or> is_scan a"
        "with_messaging n (messaging_act a (b_messaging s n)) s = Some s'"
    | (closes) n where "dying (t_pc (b_threads s) t) = Some n" "is_closing a"
        "with_messaging n (messaging_act a (b_messaging s n)) s = Some s'"
    by (auto simp: inside_step_def split: pc.splits option.splits if_splits)
  then show ?thesis
  proof cases
    case window
    have used: "refers (t_pc (b_threads s) t) = Some n" by (simp add: window(1))
    have t: "t < N" using ok_idle [OF parts(1), of t] window(1) by simp
    obtain f m' where act: "messaging_act a (b_messaging s n) = Some m'" and s': "s' = funnel_upd t n f m' s"
      using funnel_step_act [OF window(2)] by blast
    have "owner_waits a (b_messaging s n)"
      using used_open [OF parts(1,2) used] funnel_step_act [OF window(2)] by (auto simp: owner_waits_def)
    from messaging_reachable.act [OF parts(3) this act] funnel_step_coupled [OF parts(2) t window] parts s'
    show ?thesis by (simp add: boundary_ok_def funnel_upd_fields)
  next
    case calls
    show ?thesis
      using here [OF calls(3)] calls(2) not_closing_kinds [OF calls(2) used_open [OF parts(1,2) calls(1)]] by blast
  next
    case closes
    show ?thesis
      using here [OF closes(3)] closes(1,2) closing_waits [OF closes(2) dying_empty [OF parts(1,2) closes(1)]] by blast
  qed
qed

lemma boundary_act_ok:
  assumes ok: "boundary_ok N s" and may: "bounded_calls N may" "act_allowed may b" and step: "boundary_act b s = Some s'"
  shows "boundary_ok N s'"
proof (cases b)
  case (Boundary t a)
  with may have bound: "t < N" "a \<noteq> Timeout" "N < 2 ^ 32" by (auto simp: act_allowed_def bounded_calls_def)
  from Boundary step obtain T' where act: "thread_act t a (b_threads s) = Some T'" and go: "may_go_on t s"
    and s': "s' = s\<lparr>b_threads := T', b_funnel := (b_funnel s)(t := Outside)\<rparr>"
    by (auto simp: boundary_step_def split: if_splits)
  from ok have parts: "threads_ok N (b_threads s)" "coupled N s" by (simp_all add: boundary_ok_def)
  have "threads_ok N T'" by (rule threads_ok_step [OF parts(1) thread_act_effect [OF act bound(2)] bound(1,3)])
  with ok boundary_step_coupled [OF parts act bound(2,1) go] show ?thesis by (simp add: s' boundary_ok_def)
next
  case (Inside t a)
  with inside_step_ok [OF ok] step show ?thesis by simp
next
  case (Worker n a)
  with step with_messaging_ok [OF ok, of n a s'] worker_waits [of a] show ?thesis by (auto split: if_splits)
qed

lemma boundary_reachable_ok:
  "boundary_reachable may s \<Longrightarrow> bounded_calls N may \<Longrightarrow> boundary_ok N s"
  by (induction rule: boundary_reachable.induct) (auto intro: boundary_ok_loaded boundary_act_ok)

lemma boundary_threads_reachable: "boundary_reachable may s \<Longrightarrow> threads_reachable may (b_threads s)"
proof (induction rule: boundary_reachable.induct)
  case loaded
  show ?case by (simp add: boundary_loaded_def threads_reachable.loaded)
next
  case (act s b s')
  show ?case
  proof (cases b)
    case (Boundary t a)
    with act show ?thesis
      by (auto simp: boundary_step_def act_allowed_def split: if_splits intro: threads_reachable.act)
  next
    case (Inside t a)
    have "b_threads s' = b_threads s" if "funnel_step t n a s = Some s'" for n
      using funnel_step_act [OF that] by (auto simp: funnel_upd_fields)
    with act Inside show ?thesis
      by (auto simp: inside_step_def with_messaging_def split: pc.splits option.splits if_splits)
  next
    case (Worker n a)
    with act show ?thesis by (auto simp: with_messaging_def split: if_splits)
  qed
qed

text \<open>A destructor under way can always go on.\<close>

lemma destruction_goes_on:
  assumes ok: "boundary_ok N s" and dying: "dying (t_pc (b_threads s) t) = Some n"
  shows "\<exists>b \<in> {Boundary t Step, Inside t Stop, Inside t Join, Worker n Worker_takes, Worker n Worker_puts, Worker n Worker_ends}.
    boundary_act b s \<noteq> None"
proof -
  let ?M = "b_messaging s n"
  from ok have parts: "threads_ok N (b_threads s)" "closing_inv ?M"
    by (simp_all add: boundary_ok_def reachable_closing)
  have n: "n < t_next (b_threads s)" using ok_dying [OF parts(1) dying] by simp
  from dying have pc: "t_pc (b_threads s) t = Sh_destroy (Some n) \<or> t_pc (b_threads s) t = Ex_destroy (Some n)"
    by (cases "t_pc (b_threads s) t") auto
  show ?thesis
  proof (cases "mt_closing ?M")
    case D_none
    with pc have "boundary_act (Inside t Stop) s \<noteq> None"
      by (auto simp: inside_step_def is_closing_def with_messaging_def mact_defs)
    then show ?thesis by blast
  next
    case D_done
    with pc have "boundary_act (Boundary t Step) s \<noteq> None"
      by (auto simp: boundary_step_def may_go_on_def thread_act_def shutdown_act_def exit_act_def)
    then show ?thesis by blast
  next
    case D_join
    show ?thesis
    proof (cases "mt_worker ?M")
      case W_returned
      with D_join pc have "boundary_act (Inside t Join) s \<noteq> None"
        by (auto simp: inside_step_def is_closing_def with_messaging_def mact_defs)
      then show ?thesis by blast
    next
      case (W_put item)
      with n have "boundary_act (Worker n Worker_puts) s \<noteq> None"
        by (simp add: is_worker_def with_messaging_def mact_defs)
      then show ?thesis by blast
    next
      case W_loop
      then have "boundary_act (Worker n (if mt_queue ?M = [] then Worker_ends else Worker_takes)) s \<noteq> None"
        using n D_join parts(2) by (auto simp: is_worker_def with_messaging_def mact_defs closing_inv_def split: list.split)
      then show ?thesis by (auto split: if_splits)
    qed
  qed
qed

section \<open>Property\<close>


text \<open>A session that shows one message and is shut down while the record is still queued.\<close>

definition ref_life :: "bact list" where
  "ref_life = [Boundary 0 (Call_init 4), Boundary 0 Step, Boundary 0 Return, Boundary 1 Call_bridge, Boundary 1 Step,
     Inside 1 (Deliver ref_delivery), Inside 1 (Dedupe ref_delivery), Inside 1 (Push ref_delivery), Inside 1 (Enqueue ref_delivery),
     Boundary 1 Step, Boundary 1 Step, Boundary 0 (Call_shutdown 4), Boundary 0 Step, Boundary 0 Step,
     Inside 0 Stop, Worker 0 Worker_takes, Worker 0 Worker_puts, Worker 0 Worker_ends, Inside 0 Join, Boundary 0 Step]"


end
