(* ===== verification/BoundaryRuns.thy ===== *)
theory BoundaryRuns
  imports BoundaryThreads FfiSimulation
begin

text \<open>
  The sequential model of the C boundary (\<open>ffi_step\<close>) against the composition of both thread models
  (\<open>BoundaryThreads\<close>): every step of the first, with what it does to the messaging component of the session, is a
  run of the second. A command is a call that absorbs history under the mutex and sends in its window, a delivery goes through the
  funnel of a bridge thread, a turn of the archive worker is the worker's two steps, and a shutdown stops, drains and
  joins before the session is destroyed.
\<close>

section \<open>The common view\<close>

text \<open>
  Besides what \<open>matches\<close> asks: no delivery is under way, the stored session's component has the dedupe set, queue and
  flag of the sequential one and is open, and the components of later sessions are new.
\<close>

definition component_agrees :: "'w messaging option \<Rightarrow> mthreads \<Rightarrow> bool" where
  "component_agrees m M \<longleftrightarrow> no_receiver M \<and> mt_closing M = D_none \<and> (\<exists>x. m = Some x \<and> messaging_view x M)"

definition agrees :: "'w ffi \<Rightarrow> boundary \<Rightarrow> bool" where
  "agrees s B \<longleftrightarrow> matches s (b_threads B) \<and> b_funnel B = (\<lambda>_. Outside) \<and>
     (\<forall>k \<ge> t_next (b_threads B). b_messaging B k = mthreads_new) \<and>
     (case t_session (b_threads B) of
        None \<Rightarrow> True
      | Some (n, _) \<Rightarrow> n < t_next (b_threads B) \<and> component_agrees (g_messaging s) (b_messaging B n))"

lemma run_boundary_append [simp]:
  "run_boundary (as @ bs) s = (case run_boundary as s of None \<Rightarrow> None | Some s1 \<Rightarrow> run_boundary bs s1)"
  by (induction as arbitrary: s) (simp_all split: option.split)

lemma run_boundary_trans:
  "run_boundary as s = Some s1 \<Longrightarrow> run_boundary bs s1 = Some s2 \<Longrightarrow> run_boundary (as @ bs) s = Some s2"
  by simp

section \<open>What a command does to the component\<close>

text \<open>A send inserts an id, a scan absorbs its messages.\<close>

definition inserts :: "maction \<Rightarrow> 'w messaging \<Rightarrow> 'w messaging" where
  "inserts a m =
     (case a of
        Send_inserts i \<Rightarrow> m\<lparr>m_seenIds := List.insert i (m_seenIds m)\<rparr>
      | History_absorbs msgs \<Rightarrow> m\<lparr>m_seenIds := foldl (\<lambda>seen msg. seen_admit (cm_id msg) seen) (m_seenIds m) msgs\<rparr>
      | _ \<Rightarrow> m)"

text \<open>From one state to another with the same session the component has done some sends and scans.\<close>

definition calls_in :: "maction list \<Rightarrow> 'w ffi \<Rightarrow> 'w ffi \<Rightarrow> bool" where
  "calls_in acts s t \<longleftrightarrow> (\<forall>a \<in> set acts. is_send a \<or> is_scan a) \<and> g_session t = g_session s \<and>
     (\<exists>m. g_messaging s = Some m \<and> g_messaging t = Some (fold inserts acts m))"

definition within :: "'w ffi \<Rightarrow> 'w ffi \<Rightarrow> bool" where
  "within s t \<longleftrightarrow> (\<exists>acts. calls_in acts s t)"

lemma within_refl: "g_messaging s \<noteq> None \<Longrightarrow> within s s"
  by (auto simp: within_def calls_in_def intro: exI [of _ "[]"])

lemma within_then: "within s t \<Longrightarrow> g_session u = g_session t \<Longrightarrow> g_messaging u = g_messaging t \<Longrightarrow> within s u"
  by (simp add: within_def calls_in_def)

lemma within_act:
  assumes "within s t" and "is_send a \<or> is_scan a" and "g_session u = g_session t"
    and "g_messaging u = map_option (inserts a) (g_messaging t)"
  shows "within s u"
proof -
  from assms(1) obtain acts where "calls_in acts s t" by (auto simp: within_def)
  with assms(2-4) have "calls_in (acts @ [a]) s u" by (auto simp: calls_in_def)
  then show ?thesis unfolding within_def by blast
qed

lemma within_messaging: "within s t \<Longrightarrow> \<exists>m. g_messaging t = Some m"
  by (auto simp: within_def calls_in_def)

text \<open>The helpers.\<close>

lemma within_post [intro!]: "within s t \<Longrightarrow> within s (Post P e t)"
  and within_notice [intro!]: "within s t \<Longrightarrow> within s (Notice P n t)"
  by (rule within_then; simp add: Post_def Notice_def)+

lemma within_proc [intro!]: "within s t \<Longrightarrow> within s (t\<lparr>g_proc := p\<rparr>)"
  by (rule within_then) simp_all

lemma within_live [intro!]: "within s t \<Longrightarrow> within s (snd (SubscribeLive P topic t))"
  by (rule within_then, assumption) (simp_all add: SubscribeLive_def Notice_def Let_def case_prod_beta)

lemma within_replay [intro!]:
  assumes "within s t"
  shows "within s (PushMessageHistory P topic t)"
proof -
  obtain m where m: "g_messaging t = Some m" using within_messaging [OF assms] ..
  obtain r m' p where q: "QueryHistory P (the_session t) topic m (g_proc t) = (r, m', p)" by (metis prod.collapse)
  show ?thesis
  proof (cases r)
    case (Inl e)
    with q have "m' = m" by (auto simp: QueryHistory_def Let_def split: sum.splits prod.splits)
    with m q Inl show ?thesis
      by (intro within_then [OF assms]) (simp_all add: PushMessageHistory_def the_messaging_def)
  next
    case (Inr h)
    with q have "m' = inserts (History_absorbs (mh_message h)) m" by (auto simp: inserts_def elim: QueryHistory_InrE)
    with m q Inr show ?thesis
      by (intro within_act [OF assms, where a = "History_absorbs (mh_message h)"])
        (simp_all add: PushMessageHistory_def the_messaging_def Post_def is_scan_def)
  qed
qed

lemma within_refresh [intro!]:
  assumes "within s t"
  shows "within s (RefreshDerivedJoins P t)"
proof -
  have step: "within s (refresh_join P topic u)" if "within s u" for topic u
  proof -
    have "within s (u\<lparr>g_proc := p, g_derivedTopics := d, g_roomTopics := r\<rparr>)" for p d r
      by (rule within_then [OF that]) simp_all
    moreover have "within s (u\<lparr>g_proc := p, g_derivedTopics := d\<rparr>)" for p d
      by (rule within_then [OF that]) simp_all
    ultimately show ?thesis
      using that by (auto simp: refresh_join_def Let_def split: prod.split bool.split)
  qed
  have "within s (foldl (\<lambda>u topic. refresh_join P topic u) u topics)" if "within s u" for topics u
    using that by (induction topics arbitrary: u) (auto intro: step simp del: refresh_fold_fields)
  from this [OF assms] show ?thesis
    unfolding RefreshDerivedJoins_def Let_def by (rule within_then) (simp_all add: refresh_evict_def)
qed

text \<open>The commands.\<close>

lemma within_join:
  assumes "g_messaging s \<noteq> None"
  shows "within s (snd (publish_join P topic s))"
proof -
  have "within s (join_topics topic (s\<lparr>g_proc := p\<rparr>))" for p
    by (rule within_then [OF within_refl [OF assms]]) (simp_all add: join_topics_def)
  with within_refl [OF assms] show ?thesis
    by (cases rule: publish_join_cases [of topic P s]) (auto simp: Let_def case_prod_beta)
qed

lemma within_send:
  assumes "g_messaging s = Some m"
  shows "within s (snd (publish_send P topic body s))"
proof -
  let ?s1 = "s\<lparr>g_inFlight := g_inFlight s + 1\<rparr>"
  obtain r m' p where send: "Messaging_SendMessage P (the_session ?s1) topic body m (g_proc s) = (r, m', p)"
    by (metis prod.collapse)
  from arg_cong [OF send, of "\<lambda>x. fst (snd x)"]
  have m': "m' = inserts (Send_inserts (cm_id (draft P m topic body (g_proc s)))) m" by (simp add: SendMessage_state inserts_def)
  have sent: "within s (s\<lparr>g_messaging := Some m'\<rparr>)"
    by (rule within_act [OF within_refl, where a = "Send_inserts (cm_id (draft P m topic body (g_proc s)))"])
      (simp_all add: assms m' is_send_def)
  have refl: "within s s" using assms by (simp add: within_refl)
  from sent refl send assms show ?thesis
    by (auto simp: publish_send_def Let_def the_messaging_def)
qed

lemma within_command:
  assumes "g_messaging s = Some m"
  shows "within s (snd (dispatch_command P c s))"
proof -
  have refl: "within s s" using assms by (simp add: within_refl)
  have catalog: "within s (s\<lparr>g_entities := es\<rparr>)" for es
    by (rule within_then [OF refl]) simp_all
  show ?thesis
    using refl catalog within_join [of s] within_send [OF assms] assms
    by (cases c) (auto simp: publish_create_space_def publish_create_room_def publish_update_space_def publish_not_set_def
        refresh_and_post_def Let_def case_prod_beta split: prod.split)
qed

lemma within_publish:
  "g_messaging s = Some m \<Longrightarrow> within s (snd (gcs_publish P h topic payload s))"
  by (auto simp: gcs_publish_def within_command intro: within_refl split: option.split)

section \<open>Runs of one thread\<close>

text \<open>A session's component replaced.\<close>

definition put_component :: "nat \<Rightarrow> mthreads \<Rightarrow> boundary \<Rightarrow> boundary" where
  "put_component n M B = B\<lparr>b_messaging := (b_messaging B)(n := M)\<rparr>"

lemma put_component_fields [simp]:
  "b_threads (put_component n M B) = b_threads B" "b_funnel (put_component n M B) = b_funnel B"
  "b_messaging (put_component n M B) = (b_messaging B)(n := M)"
  "put_component n M' (put_component n M B) = put_component n M' B"
  "put_component n M (B\<lparr>b_threads := T\<rparr>) = (put_component n M B)\<lparr>b_threads := T\<rparr>"
  by (simp_all add: put_component_def)

lemma with_messaging_put: "with_messaging n (Some M) B = Some (put_component n M B)"
  by (simp add: with_messaging_def put_component_def)

text \<open>Steps of a thread alone, while nothing is in its funnel and it destroys nothing.\<close>

definition undying :: "nat \<Rightarrow> threads \<Rightarrow> bool" where
  "undying u T \<longleftrightarrow> dying (t_pc T u) = None"

lemma boundary_step_plain:
  assumes "b_funnel B = (\<lambda>_. Outside)" and "undying u (b_threads B)"
  shows "boundary_step u a B = map_option (\<lambda>T. B\<lparr>b_threads := T\<rparr>) (thread_act u a (b_threads B))"
proof -
  have "(\<lambda>T. B\<lparr>b_threads := T, b_funnel := (b_funnel B)(u := Outside)\<rparr>) = (\<lambda>T. B\<lparr>b_threads := T\<rparr>)"
    using assms(1) by (cases B) (simp add: fun_eq_iff fun_upd_idem)
  moreover have "may_go_on u B" using assms by (auto simp: may_go_on_def undying_def split: pc.splits option.splits)
  ultimately show ?thesis by (simp only: boundary_step_def if_True)
qed

text \<open>A thread's own run lifts as long as it never destroys.\<close>

fun stays_undying :: "nat \<Rightarrow> act list \<Rightarrow> threads \<Rightarrow> bool" where
  "stays_undying u [] T = True"
| "stays_undying u (a # as) T =
     (undying u T \<and> (case thread_act u a T of None \<Rightarrow> True | Some T' \<Rightarrow> stays_undying u as T'))"

lemma lift_run:
  "b_funnel B = (\<lambda>_. Outside) \<Longrightarrow> stays_undying u as (b_threads B) \<Longrightarrow> run_acts (map (Pair u) as) (b_threads B) = Some T' \<Longrightarrow>
   run_boundary (map (Boundary u) as) B = Some (B\<lparr>b_threads := T'\<rparr>)"
proof (induction as arbitrary: B)
  case (Cons a as)
  then obtain T1 where T1: "thread_act u a (b_threads B) = Some T1" "run_acts (map (Pair u) as) T1 = Some T'"
    by (auto split: option.splits)
  then have step: "boundary_step u a B = Some (B\<lparr>b_threads := T1\<rparr>)" using Cons.prems(1,2) by (simp add: boundary_step_plain)
  have "stays_undying u as T1" using Cons.prems(2) T1(1) by simp
  with Cons.IH [of "B\<lparr>b_threads := T1\<rparr>"] Cons.prems(1) T1(2)
  have "run_boundary (map (Boundary u) as) (B\<lparr>b_threads := T1\<rparr>) = Some (B\<lparr>b_threads := T'\<rparr>)" by simp
  with step show ?case by simp
qed simp

text \<open>One send or scan by a thread that holds the mutex.\<close>

lemma threads_idem: "t_mutex T = m \<Longrightarrow> t_pc T u = l \<Longrightarrow> T\<lparr>t_mutex := m, t_pc := (t_pc T)(u := l)\<rparr> = T"
  by (cases T) (simp add: fun_upd_idem)

lemma one_call:
  assumes "b_funnel B = (\<lambda>_. Outside)" and "t_pc (b_threads B) u = Cmd_held n" and "t_mutex (b_threads B) = Some u"
    and "is_send a \<or> is_scan a" and "messaging_act a (b_messaging B n) = Some M"
  shows "\<exists>bs. run_boundary bs B = Some (put_component n M B)"
proof (cases "is_scan a")
  case True
  with assms have "run_boundary [Inside u a] B = Some (put_component n M B)"
    by (simp add: inside_step_def with_messaging_put)
  then show ?thesis by blast
next
  case False
  with assms(4) have send: "is_send a" by simp
  let ?T = "b_threads B"
  let ?W = "goto u (Cmd_window n) (?T\<lparr>t_inFlight := t_inFlight ?T + 1, t_mutex := None\<rparr>)"
  have out: "run_boundary [Boundary u Window] B = Some (B\<lparr>b_threads := ?W\<rparr>)"
    using assms(1-3) by (simp add: boundary_step_plain undying_def thread_act_def command_act_def)
  have inside: "run_boundary [Inside u a] (B\<lparr>b_threads := ?W\<rparr>) = Some ((put_component n M B)\<lparr>b_threads := ?W\<rparr>)"
    using send assms(5) by (simp add: inside_step_def goto_def with_messaging_def put_component_def)
  have "run_acts (map (Pair u) [Step, Step]) ?W = Some ?T"
    using assms(2,3) threads_idem by (simp add: thread_act_def command_act_def goto_def)
  then have "run_boundary (map (Boundary u) [Step, Step]) ((put_component n M B)\<lparr>b_threads := ?W\<rparr>)
      = Some ((put_component n M B)\<lparr>b_threads := ?W, b_threads := ?T\<rparr>)"
    using assms(1) by (intro lift_run) (simp_all add: undying_def thread_act_def command_act_def goto_def)
  moreover have "(put_component n M B)\<lparr>b_threads := ?T\<rparr> = put_component n M B" by (simp add: put_component_def)
  ultimately have again: "run_boundary (map (Boundary u) [Step, Step]) ((put_component n M B)\<lparr>b_threads := ?W\<rparr>) = Some (put_component n M B)"
    by simp
  from run_boundary_trans [OF out run_boundary_trans [OF inside again]] show ?thesis by blast
qed

section \<open>Commands and starts\<close>

lemma one_call_agrees:
  assumes "component_agrees (Some m) M" and "is_send a \<or> is_scan a"
  shows "\<exists>M'. messaging_act a M = Some M' \<and> component_agrees (Some (inserts a m)) M'"
  using assms
  by (cases a) (auto simp: is_send_def is_scan_def mact_defs component_agrees_def messaging_view_def no_receiver_def inserts_def absorb_seen)

lemma calls_run:
  assumes "b_funnel B = (\<lambda>_. Outside)" and "t_pc (b_threads B) u = Cmd_held n" and "t_mutex (b_threads B) = Some u"
    and "component_agrees (Some m) (b_messaging B n)" and "\<forall>a \<in> set acts. is_send a \<or> is_scan a"
  shows "\<exists>bs M. run_boundary bs B = Some (put_component n M B) \<and> component_agrees (Some (fold inserts acts m)) M"
  using assms
proof (induction acts arbitrary: B m)
  case Nil
  have "run_boundary [] B = Some (put_component n (b_messaging B n) B)" by (simp add: put_component_def)
  with Nil show ?case by fastforce
next
  case (Cons a acts)
  obtain M where M: "messaging_act a (b_messaging B n) = Some M" "component_agrees (Some (inserts a m)) M"
    using one_call_agrees [OF Cons.prems(4)] Cons.prems(5) by auto
  obtain bs where bs: "run_boundary bs B = Some (put_component n M B)"
    using one_call [OF Cons.prems(1-3) _ M(1)] Cons.prems(5) by auto
  obtain bs' M' where "run_boundary bs' (put_component n M B) = Some (put_component n M' B)"
      "component_agrees (Some (fold inserts acts (inserts a m))) M'"
    using Cons.IH [of "put_component n M B" "inserts a m"] Cons.prems M(2) by auto
  with run_boundary_trans [OF bs] show ?case by fastforce
qed

text \<open>From the moment a thread holds the mutex with a session until it returns.\<close>

lemma held_run:
  assumes "b_funnel B = (\<lambda>_. Outside)" and "b_threads B = goto u (Cmd_held n) (T\<lparr>t_mutex := Some u\<rparr>)"
    and "resting T" and "t_pc T u = Idle" and "component_agrees (g_messaging s) (b_messaging B n)" and "within s t"
  shows "\<exists>bs M. run_boundary bs B = Some ((put_component n M B)\<lparr>b_threads := T\<rparr>) \<and> component_agrees (g_messaging t) M"
proof -
  from assms(6) obtain acts m where acts: "\<forall>a \<in> set acts. is_send a \<or> is_scan a" "g_messaging s = Some m"
      "g_messaging t = Some (fold inserts acts m)" by (auto simp: within_def calls_in_def)
  have held: "t_pc (b_threads B) u = Cmd_held n" "t_mutex (b_threads B) = Some u" by (simp_all add: assms(2) goto_def)
  have "component_agrees (Some m) (b_messaging B n)" using assms(5) acts(2) by simp
  from calls_run [OF assms(1) held this acts(1)] acts(3)
  obtain bs M where bs: "run_boundary bs B = Some (put_component n M B)" "component_agrees (g_messaging t) M" by metis
  have "T\<lparr>t_mutex := None, t_pc := (t_pc T)(u := Idle)\<rparr> = T" using assms(3,4) by (intro threads_idem) (simp_all add: resting_def)
  then have "run_acts (map (Pair u) [Return]) (b_threads B) = Some T"
    by (simp add: assms(2) thread_act_def command_act_def goto_def)
  from lift_run [of "put_component n M B" u "[Return]" T] this assms(1) held(1)
  have "run_boundary [Boundary u Return] (put_component n M B) = Some ((put_component n M B)\<lparr>b_threads := T\<rparr>)"
    by (simp add: undying_def split: option.split)
  from run_boundary_trans [OF bs(1) this] bs(2) show ?thesis by blast
qed

lemma agrees_fields:
  assumes "agrees s B"
  shows "matches s (b_threads B)" and "b_funnel B = (\<lambda>_. Outside)" and "resting (b_threads B)"
    and "t_next (b_threads B) \<le> k \<Longrightarrow> b_messaging B k = mthreads_new"
    and "t_session (b_threads B) = Some (n, h) \<Longrightarrow> n < t_next (b_threads B) \<and> component_agrees (g_messaging s) (b_messaging B n)"
  using assms by (auto simp: agrees_def matches_def)

lemma agrees_put:
  assumes "agrees s B" and "t_session (b_threads B) = Some (n, h)" and "ffi_gates t = ffi_gates s" and "component_agrees (g_messaging t) M"
  shows "agrees t (put_component n M B)"
  using assms matches_same [OF agrees_fields(1) [OF assms(1)] assms(3)] by (auto simp: agrees_def)

lemma agrees_same:
  "agrees s B \<Longrightarrow> ffi_gates t = ffi_gates s \<Longrightarrow> g_messaging t = g_messaging s \<Longrightarrow> agrees t B"
  using matches_same by (auto simp: agrees_def split: option.splits)

lemma command_agrees:
  assumes "agrees s B" and "t_session (b_threads B) = Some (n, h)" and "t_pc (b_threads B) u = Idle"
    and "within s t" and "ffi_gates t = ffi_gates s"
  shows "\<exists>bs B'. run_boundary (Boundary u (Call_publish h) # bs) B = Some B' \<and> agrees t B'"
proof -
  note f = agrees_fields [OF assms(1)]
  let ?T = "b_threads B"
  let ?H = "goto u (Cmd_held n) (?T\<lparr>t_mutex := Some u\<rparr>)"
  have "run_acts (map (Pair u) [Call_publish h, Step]) ?T = Some ?H"
    using f(3) assms(2,3) by (simp add: act_defs resting_def)
  from lift_run [OF f(2) _ this] assms(3)
  have enter: "run_boundary (map (Boundary u) [Call_publish h, Step]) B = Some (B\<lparr>b_threads := ?H\<rparr>)"
    by (simp add: undying_def act_defs)
  from held_run [of "B\<lparr>b_threads := ?H\<rparr>" u n ?T s t] f(2,3) f(5) [OF assms(2)] assms(3,4)
  obtain bs M where bs: "run_boundary bs (B\<lparr>b_threads := ?H\<rparr>) = Some (put_component n M B)" "component_agrees (g_messaging t) M"
    by (auto simp: put_component_def)
  have "run_boundary (Boundary u (Call_publish h) # Boundary u Step # bs) B = Some (put_component n M B)"
    using run_boundary_trans [OF enter bs(1)] by simp
  with agrees_put [OF assms(1,2,5) bs(2)] show ?thesis by blast
qed

lemma handle_call_agrees:
  assumes "agrees s B" and "t_pc (b_threads B) u = Idle" and "ffi_gates t = ffi_gates s"
    and "\<And>m. handle_matches s (Some h) \<Longrightarrow> g_messaging s = Some m \<Longrightarrow> within s t"
    and "\<not> handle_matches s (Some h) \<Longrightarrow> t = s"
  shows "\<exists>bs B'. run_boundary (Boundary u (Call_publish h) # bs) B = Some B' \<and> agrees t B'"
proof (cases "handle_matches s (Some h)")
  case True
  note f = agrees_fields [OF assms(1)]
  from True f(1) obtain n where n: "t_session (b_threads B) = Some (n, h)" using matches_session(2) by blast
  from f(5) [OF n] obtain m where "g_messaging s = Some m" by (auto simp: component_agrees_def)
  from command_agrees [OF assms(1) n assms(2) assms(4) [OF True this] assms(3)] show ?thesis .
next
  case False
  note f = agrees_fields [OF assms(1)]
  have "t_session (b_threads B) = None \<or> snd (the (t_session (b_threads B))) \<noteq> h"
    using False matches_session(2) [OF f(1)] by (cases "t_session (b_threads B)") auto
  then have "run_acts (map (Pair u) [Call_publish h, Step]) (b_threads B) = Some (b_threads B)"
    using f(3) assms(2) by (cases "t_session (b_threads B)") (auto simp: act_defs resting_def fun_upd_idem resting_unlocked)
  from lift_run [OF f(2) _ this] assms(2)
  have "run_boundary [Boundary u (Call_publish h), Boundary u Step] B = Some B" by (simp add: undying_def act_defs)
  with assms(1) assms(5) [OF False] show ?thesis by blast
qed

lemma publish_agrees:
  assumes "agrees s B" and "t_pc (b_threads B) u = Idle"
  shows "\<exists>bs B'. run_boundary (Boundary u (Call_publish h) # bs) B = Some B' \<and> agrees (snd (gcs_publish P (Some h) topic payload s)) B'"
  by (rule handle_call_agrees [OF assms gates_publish], erule within_publish) (simp add: gcs_publish_def)

lemma subscribe_agrees:
  assumes "agrees s B" and "t_pc (b_threads B) u = Idle"
  shows "\<exists>bs B'. run_boundary (Boundary u (Call_publish h) # bs) B = Some B' \<and> agrees (snd (gcs_subscribe P (Some h) topic port s)) B'"
  by (rule handle_call_agrees [OF assms gates_subscribe]) (auto simp: gcs_subscribe_def Let_def intro!: within_refl)

text \<open>A start stores the next session, whose component is new.\<close>

lemma production_agrees: "component_agrees (Some (production_messaging P ssl w)) mthreads_new"
  by (simp add: component_agrees_def no_receiver_def mthreads_new_def messaging_view_def production_messaging_def Messaging_new_def)

lemma components_within:
  "\<exists>s1. (\<exists>w. g_messaging s1 = Some (production_messaging P ssl w)) \<and> within s1 (init_components P ssl a cs s)"
proof -
  let ?s1 = "s\<lparr>g_session := Some (a, cs), g_receivingDisabled := False,
                 g_messaging := Some (production_messaging P ssl (world (g_proc s)))\<rparr>"
  let ?p = "snd (CoreSession_RegisterNewElementCallback P cs kMessagesKeyCallbackPattern (g_proc ?s1))"
  let ?s3 = "?s1\<lparr>g_proc := ?p, g_entities := Some (snd (EntityStore_LoadFromStore P cs EntityStore_new ?p))\<rparr>"
  have "init_components P ssl a cs s = RefreshDerivedJoins P ?s3"
    by (simp add: init_components_def Let_def case_prod_beta)
  moreover have "within ?s3 (RefreshDerivedJoins P ?s3)" by (rule within_refresh, rule within_refl) simp
  moreover have "g_messaging ?s3 = Some (production_messaging P ssl (world (g_proc s)))" by simp
  ultimately show ?thesis by metis
qed

lemma init_within:
  assumes ok: "ffi_ok P ssl s" and init: "gcs_init P ssl b s = (r, s')"
  obtains (same) "ffi_gates s' = ffi_gates s" "g_messaging s' = g_messaging s"
  | (started) a s1 w where "g_session s = None" "\<not> g_tearingDown s" "ffi_gates s' = (Some a, g_inFlight s, False, False)"
      "g_messaging s1 = Some (production_messaging P ssl w)" "within s1 s'"
proof (cases "g_session s")
  case (Some x)
  obtain a cs where x: "x = (a, cs)" by fastforce
  have "s' = s \<or> s' = s\<lparr>g_apiDlInitialized := True\<rparr>"
    using init gcs_init_existing [of s a cs P ssl b] Some x by (cases "g_tearingDown s") (simp_all add: gcs_init_def)
  then show thesis using same by auto
next
  case None
  from ok None show thesis
  proof (cases rule: gcs_init_new_cases [where b = b])
    case (booted config bt h p)
    let ?s1 = "s\<lparr>g_apiDlInitialized := True, g_sdkBootedHere := bt, g_exitHookRegistered := h, g_proc := p\<rparr>"
    have ok1: "ffi_ok P ssl ?s1" and none1: "g_session ?s1 = None" using ok None by simp_all
    from ok1 none1 show thesis
    proof (cases rule: init_session_cases [where config = config])
      case (running a cs joined q)
      have s': "s' = init_components P ssl a cs (?s1\<lparr>g_roomTopics := joined, g_proc := q\<rparr>)"
        using init booted(2) running(6) by simp
      have "ffi_gates s' = (Some a, g_inFlight s, False, False)"
        using booted(1) by (simp add: s' init_components_def Let_def case_prod_beta) (simp add: ffi_gates_def)
      moreover obtain s1 w where "g_messaging s1 = Some (production_messaging P ssl w)" "within s1 s'"
        using components_within s' by metis
      ultimately show thesis using started None booted(1) by blast
    qed (use init booted(2) same in auto)
  qed (use init same in auto)
qed

lemma init_agrees:
  assumes "ffi_ok P ssl s" and "agrees s B" and "t_pc (b_threads B) u = Idle"
  shows "\<exists>a bs B'. run_boundary (Boundary u (Call_init a) # bs) B = Some B' \<and> agrees (snd (gcs_init P ssl b s)) B'"
proof -
  obtain r s' where init: "gcs_init P ssl b s = (r, s')" by fastforce
  note f = agrees_fields [OF assms(2)]
  let ?T = "b_threads B"
  from assms(1) init show ?thesis
  proof (cases rule: init_within)
    case same
    have "run_acts (map (Pair u) [Call_init 0, Return]) ?T = Some ?T"
      using init_run(1) [OF f(3) assms(3)] by (simp add: runs_to_def)
    from lift_run [OF f(2) _ this] assms(3)
    have "run_boundary [Boundary u (Call_init 0), Boundary u Return] B = Some B" by (simp add: undying_def act_defs)
    with agrees_same [OF assms(2) same] init show ?thesis by fastforce
  next
    case (started a s1 w)
    let ?n = "t_next ?T"
    let ?T1 = "?T\<lparr>t_session := Some (?n, a), t_next := Suc ?n, t_receivingDisabled := False\<rparr>"
    let ?H = "goto u (Cmd_held ?n) (?T1\<lparr>t_mutex := Some u\<rparr>)"
    have none: "t_session ?T = None" "\<not> t_tearingDown ?T"
      using matches_session(1) [OF f(1)] matches_fields(4) [OF f(1)] started(1,2) by simp_all
    have "run_acts (map (Pair u) [Call_init a, Step]) ?T = Some ?H"
      using f(3) assms(3) none by (simp add: act_defs resting_def)
    from lift_run [OF f(2) _ this] assms(3)
    have enter: "run_boundary (map (Boundary u) [Call_init a, Step]) B = Some (B\<lparr>b_threads := ?H\<rparr>)"
      by (simp add: undying_def act_defs)
    have new: "component_agrees (g_messaging s1) (b_messaging (B\<lparr>b_threads := ?H\<rparr>) ?n)"
      using f(4) [of ?n] started(4) production_agrees by simp
    obtain bs M where bs: "run_boundary bs (B\<lparr>b_threads := ?H\<rparr>) = Some ((put_component ?n M B)\<lparr>b_threads := ?T1\<rparr>)"
        "component_agrees (g_messaging s') M"
      using held_run [OF _ _ _ _ new started(5), where T = ?T1 and u = u] f(2,3) assms(3) by (auto simp: put_component_def)
    have "matches s' ?T1" using started(2,3) matches_fields [OF f(1)] by (simp add: matches_def thread_gates_def)
    with bs(2) f(2,4) have "agrees s' ((put_component ?n M B)\<lparr>b_threads := ?T1\<rparr>)" by (simp add: agrees_def)
    moreover have "run_boundary (Boundary u (Call_init a) # Boundary u Step # bs) B = Some ((put_component ?n M B)\<lparr>b_threads := ?T1\<rparr>)"
      using run_boundary_trans [OF enter bs(1)] by simp
    ultimately show ?thesis using init by (metis snd_conv)
  qed
qed

section \<open>Deliveries and the archive worker\<close>

abbreviation delivers :: "delivery \<Rightarrow> maction list" where
  "delivers d \<equiv> [Deliver d, Dedupe d, Push d, Enqueue d]"

lemma delivery_agrees:
  assumes "component_agrees (Some m) M" and "admitted P topic bs m p = Some msg"
  shows "\<exists>M'. run_mactions any_act (delivers (msg, bs)) M = Some M' \<and> cm_id msg \<notin> set (mt_seen M) \<and>
    component_agrees (Some (fst (ApplyMessage P topic bs m p))) M'"
proof -
  have "cm_id msg \<notin> set (mt_seen M)"
    using admitted_fresh [OF assms(2)] assms(1) by (simp add: component_agrees_def messaging_view_def)
  then show ?thesis
    using assms(1)
    by (simp add: mact_defs Let_def ApplyMessage_admitted [OF assms(2)] component_agrees_def messaging_view_def remember_def
        archive_item_def no_receiver_def)
qed

lemma funnel_run:
  assumes "run_mactions any_act (delivers d) (b_messaging B n) = Some M" and "cm_id (fst d) \<notin> set (mt_seen (b_messaging B n))"
    and "t_pc (b_threads B) u = Br_window n" and "b_funnel B u = Outside"
  shows "run_boundary (map (Inside u) (delivers d)) B = Some ((put_component n M B)\<lparr>b_funnel := (b_funnel B)(u := Through)\<rparr>)"
proof -
  have "messaging_act (Deliver d) M = Some (M\<lparr>mt_opened := add_mset d (mt_opened M)\<rparr>)" for M by (simp add: mact_defs)
  with assms show ?thesis
    by (cases B) (auto simp: inside_step_def funnel_step_def put_component_def split: option.splits)
qed

lemma bridge_enter:
  assumes "b_funnel B = (\<lambda>_. Outside)" and "resting (b_threads B)" and "t_pc (b_threads B) u = Idle"
    and "\<not> t_receivingDisabled (b_threads B)" and "t_session (b_threads B) = Some (n, h)"
  shows "run_boundary [Boundary u Call_bridge, Boundary u Step] B =
    Some (B\<lparr>b_threads := goto u (Br_window n) ((b_threads B)\<lparr>t_inFlight := t_inFlight (b_threads B) + 1\<rparr>)\<rparr>)"
proof -
  have "run_acts (map (Pair u) [Call_bridge, Step]) (b_threads B) =
      Some (goto u (Br_window n) ((b_threads B)\<lparr>t_inFlight := t_inFlight (b_threads B) + 1\<rparr>))"
    using stuck_run [OF assms(2,3,4,5)] by (simp add: runs_to_def)
  from lift_run [OF assms(1) _ this] assms(3,4) show ?thesis by (simp add: undying_def act_defs)
qed

lemma bridge_leave:
  assumes "f = Outside \<or> f = Through" and "resting T" and "t_pc T u = Idle" and "b_funnel B = (\<lambda>_. Outside)(u := f)"
    and "b_threads B = goto u (Br_window n) (T\<lparr>t_inFlight := t_inFlight T + 1\<rparr>)"
  shows "run_boundary [Boundary u Step, Boundary u Step] B = Some (B\<lparr>b_threads := T, b_funnel := \<lambda>_. Outside\<rparr>)"
proof -
  have idle: "T\<lparr>t_pc := (t_pc T)(u := Idle)\<rparr> = T" using assms(3) by (cases T) (simp add: fun_upd_idem)
  have "t_mutex T = None" using assms(2) by (simp add: resting_def)
  with assms(1,4,5) idle show ?thesis
    by (auto simp: boundary_step_def may_go_on_def act_defs fun_upd_idem)
qed

lemma apply_agrees:
  assumes "agrees s B" and "t_pc (b_threads B) u = Idle" and "\<not> g_receivingDisabled s"
    and "t_session (b_threads B) = Some (n, h)" and "g_messaging s = Some m" and "ffi_gates t = ffi_gates s"
    and "g_messaging t = Some m \<or> (\<exists>P topic data p. g_messaging t = Some (fst (ApplyMessage P topic data m p)))"
  shows "\<exists>bs B'. run_boundary (Boundary u Call_bridge # bs) B = Some B' \<and> agrees t B'"
proof -
  note f = agrees_fields [OF assms(1)]
  let ?T = "b_threads B" and ?M = "b_messaging B n"
  let ?W = "goto u (Br_window n) (?T\<lparr>t_inFlight := t_inFlight ?T + 1\<rparr>)"
  have go: "\<not> t_receivingDisabled ?T" using matches_fields(3) [OF f(1)] assms(3) by simp
  note enter = bridge_enter [OF f(2,3) assms(2) go assms(4)]
  have comp: "component_agrees (Some m) ?M" using f(5) [OF assms(4)] assms(5) by simp
  have "\<exists>bs fn M. run_boundary bs (B\<lparr>b_threads := ?W\<rparr>) = Some ((put_component n M B)\<lparr>b_threads := ?W, b_funnel := (\<lambda>_. Outside)(u := fn)\<rparr>)
      \<and> (fn = Outside \<or> fn = Through) \<and> component_agrees (g_messaging t) M"
  proof (cases "g_messaging t = Some m")
    case True
    have "run_boundary [] (B\<lparr>b_threads := ?W\<rparr>) = Some ((put_component n ?M B)\<lparr>b_threads := ?W, b_funnel := (\<lambda>_. Outside)(u := Outside)\<rparr>)"
      using f(2) by (cases B) (simp add: put_component_def fun_upd_idem)
    with True comp show ?thesis by metis
  next
    case False
    with assms(7) obtain P topic data p where t: "g_messaging t = Some (fst (ApplyMessage P topic data m p))" by blast
    with False obtain msg where msg: "admitted P topic data m p = Some msg"
      by (cases "admitted P topic data m p") (auto simp: ApplyMessage_rejected)
    obtain M where M: "run_mactions any_act (delivers (msg, data)) ?M = Some M" "cm_id msg \<notin> set (mt_seen ?M)"
        "component_agrees (g_messaging t) M"
      using delivery_agrees [OF comp msg] t by auto
    have "run_boundary (map (Inside u) (delivers (msg, data))) (B\<lparr>b_threads := ?W\<rparr>) =
        Some ((put_component n M B)\<lparr>b_threads := ?W, b_funnel := (\<lambda>_. Outside)(u := Through)\<rparr>)"
      using funnel_run [of "(msg, data)" "B\<lparr>b_threads := ?W\<rparr>" n M u] M(1,2) f(2) by (simp add: goto_def put_component_def)
    with M(3) show ?thesis by blast
  qed
  then obtain bs fn M where bs: "run_boundary bs (B\<lparr>b_threads := ?W\<rparr>) = Some ((put_component n M B)\<lparr>b_threads := ?W, b_funnel := (\<lambda>_. Outside)(u := fn)\<rparr>)"
      "fn = Outside \<or> fn = Through" "component_agrees (g_messaging t) M" by blast
  have "run_boundary [Boundary u Step, Boundary u Step] ((put_component n M B)\<lparr>b_threads := ?W, b_funnel := (\<lambda>_. Outside)(u := fn)\<rparr>)
      = Some (put_component n M B)"
    using bridge_leave [OF bs(2) f(3) assms(2)] f(2) by (simp add: put_component_def)
  from run_boundary_trans [OF enter run_boundary_trans [OF bs(1) this]] agrees_put [OF assms(1,4,6) bs(3)]
  show ?thesis by fastforce
qed

lemma bridge_refused:
  assumes "agrees s B" and "t_pc (b_threads B) u = Idle" and "g_receivingDisabled s \<or> t_session (b_threads B) = None"
  shows "\<exists>bs. run_boundary (Boundary u Call_bridge # bs) B = Some B"
proof -
  note f = agrees_fields [OF assms(1)]
  let ?T = "b_threads B"
  have unlocked: "t_mutex ?T = None" using f(3) by (simp add: resting_def)
  have idle: "?T\<lparr>t_pc := (t_pc ?T)(u := Idle)\<rparr> = ?T" using assms(2) by (cases ?T) (simp add: fun_upd_idem)
  show ?thesis
  proof (cases "t_receivingDisabled ?T")
    case True
    then have "run_acts (map (Pair u) [Call_bridge]) ?T = Some ?T" using assms(2) by (simp add: act_defs)
    from lift_run [OF f(2) _ this] assms(2) have "run_boundary [Boundary u Call_bridge] B = Some B"
      by (simp add: undying_def split: option.split)
    then show ?thesis by blast
  next
    case False
    then have none: "t_session ?T = None" using assms(3) matches_fields(3) [OF f(1)] by simp
    have "run_acts (map (Pair u) [Call_bridge, Step]) ?T = Some ?T"
      using assms(2) False none unlocked idle by (simp add: act_defs)
    from lift_run [OF f(2) _ this] assms(2) False have "run_boundary [Boundary u Call_bridge, Boundary u Step] B = Some B"
      by (simp add: undying_def act_defs)
    then show ?thesis by blast
  qed
qed

text \<open>A bridge past its gate finds a session, or there is none.\<close>

lemma bridge_open:
  assumes "ffi_ok P ssl s" and "agrees s B"
  obtains (refused) "g_receivingDisabled s \<or> g_messaging s = None" "g_receivingDisabled s \<or> t_session (b_threads B) = None"
  | (open_to) n h m where "\<not> g_receivingDisabled s" "t_session (b_threads B) = Some (n, h)" "g_messaging s = Some m"
proof (cases "t_session (b_threads B)")
  case None
  then have "g_messaging s = None"
    using matches_session(1) [OF agrees_fields(1) [OF assms(2)]] ffi_ok_no_session [OF assms(1)] by blast
  with None refused show thesis by blast
next
  case (Some nh)
  obtain n h where nh: "nh = (n, h)" by fastforce
  with Some agrees_fields(5) [OF assms(2), of n h] obtain m where "g_messaging s = Some m" by (auto simp: component_agrees_def)
  with Some nh refused open_to show thesis by blast
qed

lemma live_agrees:
  assumes "ffi_ok P ssl s" and "agrees s B" and "t_pc (b_threads B) u = Idle"
  shows "\<exists>bs B'. run_boundary (Boundary u Call_bridge # bs) B = Some B' \<and> agrees (live_bridge P topic data s) B'"
  using assms(1,2)
proof (cases rule: bridge_open)
  case refused
  then have "live_bridge P topic data s = s" by (auto simp: live_bridge_def)
  with bridge_refused [OF assms(2,3) refused(2)] assms(2) show ?thesis by auto
next
  case (open_to n h m)
  have "g_messaging (live_bridge P topic data s) = Some (fst (ApplyMessage P topic data m (g_proc s)))"
    using open_to by (simp add: live_bridge_def OnLiveMessage_def Let_def case_prod_beta)
  then have "g_messaging (live_bridge P topic data s) = Some m \<or>
      (\<exists>P' t d q. g_messaging (live_bridge P topic data s) = Some (fst (ApplyMessage (P' :: 'a platform) t d m q)))" by blast
  from apply_agrees [OF assms(2,3) open_to(1,2,3) gates_live this] show ?thesis .
qed

lemma heal_agrees:
  assumes "ffi_ok P ssl s" and "agrees s B" and "t_pc (b_threads B) u = Idle"
  shows "\<exists>bs B'. run_boundary (Boundary u Call_bridge # bs) B = Some B' \<and> agrees (snd (heal_bridge P key val s)) B'"
  using assms(1,2)
proof (cases rule: bridge_open)
  case refused
  then have "snd (heal_bridge P key val s) = s" by (auto simp: heal_bridge_def)
  with bridge_refused [OF assms(2,3) refused(2)] assms(2) show ?thesis by auto
next
  case (open_to n h m)
  note f = agrees_fields [OF assms(2)]
  show ?thesis
  proof (cases "fst (heal_bridge P key val s)")
    case True
    have "g_messaging (snd (heal_bridge P key val s)) = Some m \<or>
        (\<exists>P' t d q. g_messaging (snd (heal_bridge P key val s)) = Some (fst (ApplyMessage (P' :: 'a platform) t d m q)))"
    proof (cases "OnMessageArrived P key val m (g_proc s)")
      case None
      with open_to show ?thesis by (simp add: heal_bridge_def Let_def)
    next
      case (Some mp)
      with open_to have "g_messaging (snd (heal_bridge P key val s)) = Some (fst mp)"
        by (simp add: heal_bridge_def Let_def case_prod_beta)
      moreover have "fst mp = m \<or> (\<exists>t. mp = ApplyMessage P t val m (g_proc s))"
        using Some by (auto simp: OnMessageArrived_def split: option.splits if_splits)
      ultimately show ?thesis by fastforce
    qed
    from apply_agrees [OF assms(2,3) open_to(1,2,3) gates_heal [OF True] this] show ?thesis .
  next
    case False
    with open_to have stuck: "snd (heal_bridge P key val s) = s\<lparr>g_inFlight := g_inFlight s + 1\<rparr>"
      by (auto simp: heal_bridge_def Let_def split: option.splits)
    let ?T1 = "(b_threads B)\<lparr>t_inFlight := t_inFlight (b_threads B) + 1\<rparr>"
    let ?W = "goto u (Br_window n) ?T1"
    have "matches (s\<lparr>g_inFlight := g_inFlight s + 1\<rparr>) ?W"
      using resting_stuck [of ?T1 u n] f(3) assms(3) matches_fields [OF f(1)]
      by (simp add: matches_def ffi_gates_def thread_gates_def goto_def)
    then have "agrees (s\<lparr>g_inFlight := g_inFlight s + 1\<rparr>) (B\<lparr>b_threads := ?W\<rparr>)"
      using assms(2) open_to(2) by (simp add: agrees_def goto_def)
    moreover have "run_boundary [Boundary u Call_bridge, Boundary u Step] B = Some (B\<lparr>b_threads := ?W\<rparr>)"
      using bridge_enter [OF f(2,3) assms(3) _ open_to(2)] open_to(1) matches_fields(3) [OF f(1)] by simp
    ultimately show ?thesis unfolding stuck by blast
  qed
qed

text \<open>A turn of the archive worker.\<close>

lemma archive_agrees:
  assumes "ffi_ok P ssl s" and "agrees s B"
  shows "\<exists>bs B'. run_boundary bs B = Some B' \<and> agrees (archive_turn P s) B'"
proof (cases "archive_turn P s = s")
  case True
  with assms(2) have "run_boundary [] B = Some B \<and> agrees (archive_turn P s) B" by simp
  then show ?thesis by blast
next
  case False
  then obtain m m' p where m: "g_messaging s = Some m" "ArchiveWorker_turn P (the_session s) m (g_proc s) = Worker_wrote m' p"
      "archive_turn P s = s\<lparr>g_messaging := Some m', g_proc := p\<rparr>"
    by (auto simp: archive_turn_def split: option.splits worker_turn.splits)
  note f = agrees_fields [OF assms(2)]
  have "g_session s \<noteq> None" using ffi_ok_no_session [OF assms(1)] m(1) by force
  then have "t_session (b_threads B) \<noteq> None" using matches_session(1) [OF f(1)] by simp
  then obtain n h where n: "t_session (b_threads B) = Some (n, h)" by auto
  let ?M = "b_messaging B n"
  have comp: "component_agrees (Some m) ?M" and stored: "n < t_next (b_threads B)" using f(5) [OF n] m(1) by simp_all
  from m(2) obtain item where queue: "m_archiveQueue m = item # m_archiveQueue m'" "m' = m\<lparr>m_archiveQueue := m_archiveQueue m'\<rparr>"
    by (auto simp: ArchiveWorker_turn_def split: list.splits if_splits)
  let ?M1 = "?M\<lparr>mt_queue := m_archiveQueue m', mt_worker := W_put item\<rparr>"
  let ?M2 = "?M1\<lparr>mt_put := mt_put ?M @ [item], mt_worker := W_loop\<rparr>"
  have takes: "messaging_act Worker_takes ?M = Some ?M1" and puts: "messaging_act Worker_puts ?M1 = Some ?M2"
    using comp queue(1) by (auto simp: component_agrees_def messaging_view_def mact_defs split: list.split)
  have "run_boundary [Worker n Worker_takes, Worker n Worker_puts] B = Some (put_component n ?M2 B)"
    using stored takes puts by (simp add: is_worker_def with_messaging_put)
  moreover have "m_seenIds m' = m_seenIds m" "m_archiveStopped m' = m_archiveStopped m"
    by (subst queue(2), simp)+
  then have "component_agrees (Some m') ?M2"
    using comp by (simp add: component_agrees_def messaging_view_def no_receiver_def)
  with m(3) have "agrees (archive_turn P s) (put_component n ?M2 B)"
    by (intro agrees_put [OF assms(2) n gates_archive]) simp
  ultimately show ?thesis by blast
qed

section \<open>Ends\<close>

text \<open>The destructor on the thread that tears the session down, and the worker meanwhile.\<close>

lemma drain_run:
  assumes "n < t_next (b_threads B)" and "mt_worker (b_messaging B n) = W_loop" and "mt_stopped (b_messaging B n)"
  shows "\<exists>bs. run_boundary bs B = Some (put_component n ((b_messaging B n)\<lparr>mt_queue := [],
    mt_put := mt_put (b_messaging B n) @ mt_queue (b_messaging B n), mt_worker := W_returned\<rparr>) B)"
  using assms
proof (induction "mt_queue (b_messaging B n)" arbitrary: B)
  case Nil
  let ?M = "b_messaging B n"
  have same: "?M\<lparr>mt_queue := [], mt_put := mt_put ?M @ mt_queue ?M, mt_worker := W_returned\<rparr> = ?M\<lparr>mt_worker := W_returned\<rparr>"
    using Nil.hyps by (cases ?M) simp
  have "run_boundary [Worker n Worker_ends] B = Some (put_component n (?M\<lparr>mt_worker := W_returned\<rparr>) B)"
    using Nil by (simp add: is_worker_def mact_defs with_messaging_put)
  then show ?case unfolding same by blast
next
  case (Cons item rest)
  let ?M = "b_messaging B n"
  let ?M1 = "?M\<lparr>mt_queue := rest, mt_put := mt_put ?M @ [item], mt_worker := W_loop\<rparr>"
  have turn: "run_boundary [Worker n Worker_takes, Worker n Worker_puts] B = Some (put_component n ?M1 B)"
    using Cons.hyps(2) [symmetric] Cons.prems by (simp add: is_worker_def mact_defs with_messaging_put)
  obtain bs where rest: "run_boundary bs (put_component n ?M1 B) = Some (put_component n (?M1\<lparr>mt_queue := [],
      mt_put := mt_put ?M1 @ mt_queue ?M1, mt_worker := W_returned\<rparr>) (put_component n ?M1 B))"
    using Cons.hyps(1) [of "put_component n ?M1 B"] Cons.prems by auto
  have same: "?M1\<lparr>mt_queue := [], mt_put := mt_put ?M1 @ mt_queue ?M1, mt_worker := W_returned\<rparr>
      = ?M\<lparr>mt_queue := [], mt_put := mt_put ?M @ mt_queue ?M, mt_worker := W_returned\<rparr>"
    using Cons.hyps(2) [symmetric] by simp
  from run_boundary_trans [OF turn rest] show ?case unfolding same put_component_fields by blast
qed

lemma destroy_run:
  assumes "t_pc (b_threads B) u = Sh_destroy (Some n) \<or> t_pc (b_threads B) u = Ex_destroy (Some n)"
    and "n < t_next (b_threads B)" and "component_agrees (Some m) (b_messaging B n)"
  shows "\<exists>bs M. run_boundary bs B = Some (put_component n M B) \<and> mt_closing M = D_done \<and>
    mt_put M = mt_put (b_messaging B n) @ m_archiveQueue m"
proof -
  let ?M = "b_messaging B n"
  let ?M1 = "?M\<lparr>mt_stopped := True, mt_closing := D_join\<rparr>"
  let ?M2 = "?M1\<lparr>mt_queue := [], mt_put := mt_put ?M1 @ mt_queue ?M1, mt_worker := W_returned\<rparr>"
  have M: "mt_closing ?M = D_none" "mt_worker ?M = W_loop" "mt_queue ?M = m_archiveQueue m"
    using assms(3) by (simp_all add: component_agrees_def messaging_view_def)
  have stop: "run_boundary [Inside u Stop] B = Some (put_component n ?M1 B)"
    using assms(1) M(1) by (auto simp: inside_step_def is_closing_def mact_defs with_messaging_put)
  obtain bs where drained: "run_boundary bs (put_component n ?M1 B) = Some (put_component n ?M2 B)"
    using drain_run [of n "put_component n ?M1 B"] assms(2) M(2) by auto
  have join: "run_boundary [Inside u Join] (put_component n ?M2 B) = Some (put_component n (?M2\<lparr>mt_closing := D_done\<rparr>) B)"
    using assms(1) by (auto simp: inside_step_def is_closing_def mact_defs with_messaging_put)
  from run_boundary_trans [OF stop run_boundary_trans [OF drained join]] M(3) show ?thesis by fastforce
qed

lemma agrees_ended:
  assumes "agrees s B" and "t_session (b_threads B) = Some (n, h)" and "matches t T" and "t_session T = None"
    and "t_next T = t_next (b_threads B)"
  shows "agrees t ((put_component n M B)\<lparr>b_threads := T\<rparr>)"
  using assms by (auto simp: agrees_def)

lemma outside_funnel: "b_funnel B = (\<lambda>_. Outside) \<Longrightarrow> B\<lparr>b_threads := T, b_funnel := (b_funnel B)(u := Outside)\<rparr> = B\<lparr>b_threads := T\<rparr>"
  by (cases B) (simp add: fun_upd_idem)

lemma shutdown_agrees:
  assumes "agrees s B" and "t_pc (b_threads B) u = Idle" and "gcs_shutdown P (Some h) s = Some s'"
  shows "\<exists>bs B'. run_boundary (Boundary u (Call_shutdown h) # bs) B = Some B' \<and> agrees s' B'"
proof (cases "handle_matches s (Some h)")
  case False
  note f = agrees_fields [OF assms(1)]
  have "t_session (b_threads B) = None \<or> snd (the (t_session (b_threads B))) \<noteq> h"
    using False matches_session(2) [OF f(1)] by (cases "t_session (b_threads B)") auto
  from shutdown_run(1) [OF f(3) assms(2) this] have "run_acts (map (Pair u) [Call_shutdown h, Step]) (b_threads B) = Some (b_threads B)"
    by (simp only: runs_to_def)
  from lift_run [OF f(2) _ this] assms(2)
  have "run_boundary [Boundary u (Call_shutdown h), Boundary u Step] B = Some B" by (simp add: undying_def act_defs)
  moreover have "s' = s" using assms(3) False by (simp add: gcs_shutdown_def)
  ultimately show ?thesis using assms(1) by blast
next
  case True
  note f = agrees_fields [OF assms(1)]
  let ?T = "b_threads B"
  from True f(1) obtain n where n: "t_session ?T = Some (n, h)" using matches_session(2) by blast
  have quiet: "t_inFlight ?T = 0" using gates_shutdown(2) [OF assms(3) True] matches_fields(2) [OF f(1)] by simp
  have unlocked: "t_mutex ?T = None" using f(3) by (simp add: resting_def)
  let ?R = "?T\<lparr>t_session := None, t_receivingDisabled := True, t_tearingDown := True\<rparr>"
  let ?D = "goto u (Sh_destroy (Some n)) ?R"
  let ?E = "?T\<lparr>t_session := None, t_destroyed := n # t_destroyed ?T, t_receivingDisabled := True, t_tearingDown := False\<rparr>"
  have "run_acts (map (Pair u) [Call_shutdown h, Step, Step]) ?T = Some ?D"
    using assms(2) n quiet unlocked by (cases ?T) (simp add: act_defs)
  from lift_run [OF f(2) _ this] assms(2) n quiet unlocked
  have enter: "run_boundary (map (Boundary u) [Call_shutdown h, Step, Step]) B = Some (B\<lparr>b_threads := ?D\<rparr>)"
    by (simp add: undying_def act_defs)
  obtain m where m: "g_messaging s = Some m" "component_agrees (Some m) (b_messaging B n)" "n < t_next ?T"
    using f(5) [OF n] by (auto simp: component_agrees_def)
  obtain bs M where bs: "run_boundary bs (B\<lparr>b_threads := ?D\<rparr>) = Some ((put_component n M B)\<lparr>b_threads := ?D\<rparr>)" "mt_closing M = D_done"
    using destroy_run [of "B\<lparr>b_threads := ?D\<rparr>" u n m] m by (auto simp: goto_def)
  have idle: "?T\<lparr>t_pc := (t_pc ?T)(u := Idle)\<rparr> = ?T" using assms(2) by (cases ?T) (simp add: fun_upd_idem)
  have leave: "run_boundary [Boundary u Step, Boundary u Step] ((put_component n M B)\<lparr>b_threads := ?D\<rparr>) = Some ((put_component n M B)\<lparr>b_threads := ?E\<rparr>)"
    using bs(2) f(2) unlocked assms(2)
    by (cases B; cases ?T) (simp add: boundary_step_def may_go_on_def act_defs put_component_def fun_upd_idem)
  have "matches s' ?E"
    using gates_shutdown(1) [OF assms(3)] True f(3) quiet by (simp add: matches_def thread_gates_def)
  from agrees_ended [OF assms(1) n this] have "agrees s' ((put_component n M B)\<lparr>b_threads := ?E\<rparr>)" by simp
  moreover have "run_boundary (Boundary u (Call_shutdown h) # [Boundary u Step, Boundary u Step] @ bs @ [Boundary u Step, Boundary u Step]) B
      = Some ((put_component n M B)\<lparr>b_threads := ?E\<rparr>)"
    using run_boundary_trans [OF enter run_boundary_trans [OF bs(1) leave]] by simp
  ultimately show ?thesis by blast
qed

lemma exit_kept:
  assumes "exit_hook P lk st now s = Some s'"
  obtains (abandoned) "ffi_gates s' = (map_option fst (g_session s), g_inFlight s, True, True)" "g_messaging s' = g_messaging s"
  | (torn_down) "ffi_gates s' = (None, g_inFlight s, True, True)"
  using assms
  by (auto simp: exit_hook_def TeardownSessionAndNode_def evict_globals_def ffi_gates_def Let_def case_prod_beta
      split: if_splits option.splits prod.splits)

lemma exit_agrees:
  assumes "agrees s B" and "t_pc (b_threads B) u = Idle" and "exit_hook P lk st now s = Some s'"
  shows "\<exists>bs B'. run_boundary (Boundary u Call_exit # bs) B = Some B' \<and> agrees s' B'"
proof -
  note f = agrees_fields [OF assms(1)]
  note rest = matches_fields [OF f(1)]
  let ?T = "b_threads B"
  have unlocked: "t_mutex ?T = None" using f(3) by (simp add: resting_def)
  from assms(3) show ?thesis
  proof (cases rule: exit_kept)
    case abandoned
    let ?A = "?T\<lparr>t_receivingDisabled := True, t_tearingDown := True\<rparr>"
    have "run_acts (map (Pair u) [Call_exit, Timeout]) ?T = Some ?A"
      using exit_run(1) [OF f(3) assms(2)] by (simp only: runs_to_def)
    from lift_run [OF f(2) _ this] assms(2)
    have "run_boundary [Boundary u Call_exit, Boundary u Timeout] B = Some (B\<lparr>b_threads := ?A\<rparr>)"
      by (simp add: undying_def act_defs)
    moreover have "matches s' ?A" using abandoned(1) rest by (simp add: matches_def thread_gates_def)
    then have "agrees s' (B\<lparr>b_threads := ?A\<rparr>)"
      using assms(1) abandoned(2) by (auto simp: agrees_def split: option.splits)
    ultimately show ?thesis by blast
  next
    case torn_down
    let ?x = "map_option fst (t_session ?T)"
    let ?R = "?T\<lparr>t_session := None, t_receivingDisabled := True, t_tearingDown := True\<rparr>"
    let ?D = "goto u (Ex_destroy ?x) ?R"
    let ?E = "destroy ?x ?R"
    have "\<exists>as. run_acts (map (Pair u) (Call_exit # as)) ?T = Some ?D \<and> stays_undying u (Call_exit # as) ?T"
    proof (cases "t_inFlight ?T = 0")
      case True
      have "run_acts (map (Pair u) [Call_exit, Step, Step]) ?T = Some ?D \<and> stays_undying u [Call_exit, Step, Step] ?T"
        using assms(2) True unlocked by (cases ?T) (simp add: act_defs undying_def)
      then show ?thesis by blast
    next
      case False
      have "run_acts (map (Pair u) [Call_exit, Step, Timeout, Step]) ?T = Some ?D \<and> stays_undying u [Call_exit, Step, Timeout, Step] ?T"
        using assms(2) False unlocked by (cases ?T) (simp add: act_defs undying_def)
      then show ?thesis by blast
    qed
    then obtain as where as: "run_acts (map (Pair u) (Call_exit # as)) ?T = Some ?D" "stays_undying u (Call_exit # as) ?T" by blast
    note enter = lift_run [OF f(2) as(2,1)]
    have matches: "matches s' ?E" using torn_down rest by (cases "t_session ?T") (simp_all add: matches_def thread_gates_def destroy_def)
    show ?thesis
    proof (cases "t_session ?T")
      case None
      have "run_boundary [Boundary u Step] (B\<lparr>b_threads := ?D\<rparr>) = Some (B\<lparr>b_threads := ?E\<rparr>)"
        using None f(2) unlocked assms(2)
        by (cases B; cases ?T) (simp add: boundary_step_def may_go_on_def act_defs fun_upd_idem)
      from run_boundary_trans [OF enter this]
      have "run_boundary (Boundary u Call_exit # map (Boundary u) as @ [Boundary u Step]) B = Some (B\<lparr>b_threads := ?E\<rparr>)" by simp
      moreover have "agrees s' (B\<lparr>b_threads := ?E\<rparr>)" using assms(1) matches None by (simp add: agrees_def destroy_def)
      ultimately show ?thesis by blast
    next
      case (Some nh)
      obtain n h where nh: "t_session ?T = Some (n, h)" using Some by (cases nh) simp
      obtain m where m: "g_messaging s = Some m" "component_agrees (Some m) (b_messaging B n)" "n < t_next ?T"
        using f(5) [OF nh] by (auto simp: component_agrees_def)
      obtain bs M where bs: "run_boundary bs (B\<lparr>b_threads := ?D\<rparr>) = Some ((put_component n M B)\<lparr>b_threads := ?D\<rparr>)" "mt_closing M = D_done"
        using destroy_run [of "B\<lparr>b_threads := ?D\<rparr>" u n m] m nh by (auto simp: goto_def)
      have "run_boundary [Boundary u Step] ((put_component n M B)\<lparr>b_threads := ?D\<rparr>) = Some ((put_component n M B)\<lparr>b_threads := ?E\<rparr>)"
        using nh bs(2) f(2) unlocked assms(2)
        by (cases B; cases ?T) (simp add: boundary_step_def may_go_on_def act_defs put_component_def fun_upd_idem)
      from run_boundary_trans [OF enter run_boundary_trans [OF bs(1) this]]
      have "run_boundary (Boundary u Call_exit # map (Boundary u) as @ bs @ [Boundary u Step]) B = Some ((put_component n M B)\<lparr>b_threads := ?E\<rparr>)" by simp
      moreover have "agrees s' ((put_component n M B)\<lparr>b_threads := ?E\<rparr>)"
        using agrees_ended [OF assms(1) nh matches] nh by (simp add: destroy_def)
      ultimately show ?thesis by blast
    qed
  qed
qed

section \<open>Property\<close>

lemma step_agrees:
  assumes "ffi_step P ssl s s'" and "ffi_ok P ssl s" and "agrees s B"
  shows "\<exists>bs B'. run_boundary bs B = Some B' \<and> agrees s' B'"
proof -
  obtain u where u: "t_pc (b_threads B) u = Idle" using idle_thread [OF agrees_fields(3) [OF assms(3)]] .
  have same: "\<exists>bs B'. run_boundary bs B = Some B' \<and> agrees s B'"
    by (rule exI [of _ "[]"]) (simp add: assms(3))
  have null: "\<not> handle_matches s None" by (simp add: handle_matches_def split: option.split)
  from assms(1) show ?thesis
  proof cases
    case (init b) then show ?thesis using init_agrees [OF assms(2,3) u] by metis
  next
    case (publish h topic payload)
    with publish_agrees [OF assms(3) u] same null show ?thesis by (cases h) (simp add: gcs_publish_def, metis)
  next
    case (subscribe h topic port)
    with subscribe_agrees [OF assms(3) u] same null show ?thesis by (cases h) (simp add: gcs_subscribe_def, metis)
  next
    case (shutdown h)
    with shutdown_agrees [OF assms(3) u] same null show ?thesis by (cases h) (simp add: gcs_shutdown_def, metis)
  next
    case exit then show ?thesis using exit_agrees [OF assms(3) u] by metis
  next
    case live then show ?thesis using live_agrees [OF assms(2,3) u] by metis
  next
    case heal then show ?thesis using heal_agrees [OF assms(2,3) u] by metis
  next
    case archive then show ?thesis using archive_agrees [OF assms(2,3)] by metis
  next
    case (outside p)
    have "agrees (s\<lparr>g_proc := p\<rparr>) B" by (rule agrees_same [OF assms(3)]) simp_all
    with outside have "run_boundary [] B = Some B \<and> agrees s' B" by simp
    then show ?thesis by blast
  qed
qed

lemma run_any_reachable:
  "boundary_reachable (\<lambda>_ _. True) B \<Longrightarrow> run_boundary bs B = Some B' \<Longrightarrow> boundary_reachable (\<lambda>_ _. True) B'"
  by (rule run_boundary_reachable) (auto simp: list_all_iff act_allowed_def split: bact.split)

lemma loaded_agrees: "agrees (ffi_loaded p) boundary_loaded"
proof -
  have "matches (ffi_loaded p) threads_loaded"
    by (simp add: matches_def resting_def ffi_gates_def thread_gates_def ffi_loaded_def threads_loaded_def)
  then show ?thesis by (simp add: agrees_def boundary_loaded_def threads_loaded_def)
qed

lemma reachable_agrees:
  assumes "ffi_reachable P ssl s"
  shows "\<exists>B. boundary_reachable (\<lambda>_ _. True) B \<and> agrees s B"
  using assms
proof induction
  case (loaded p)
  show ?case using loaded_agrees boundary_reachable.loaded by blast
next
  case (step s t)
  then show ?case using step_agrees [OF step(2) ffi_reachable_inv] run_any_reachable by meson
qed

text \<open>C13: every reachable state of the sequential boundary agrees with one the threads of the boundary and of the messaging
  components reach together, and from an agreeing state each operation is a run that a thread starts with its call and
  that ends in agreement: commands absorb history and send inside the component, deliveries pass the funnel, a turn of
  the archive worker is its two steps, and a shutdown or exit stops, drains and joins the component before its
  session is destroyed.\<close>

theorem operations_run_composed:
  assumes "ffi_reachable P ssl s" and "agrees s B" and "t_pc (b_threads B) u = Idle"
  shows "(\<exists>B0. boundary_reachable (\<lambda>_ _. True) B0 \<and> agrees s B0) \<and>
    (\<exists>bs B'. run_boundary (Boundary u (Call_publish h) # bs) B = Some B' \<and> agrees (snd (gcs_publish P (Some h) topic payload s)) B') \<and>
    (\<exists>bs B'. run_boundary (Boundary u (Call_publish h) # bs) B = Some B' \<and> agrees (snd (gcs_subscribe P (Some h) topic port s)) B') \<and>
    (\<exists>bs B'. run_boundary (Boundary u Call_bridge # bs) B = Some B' \<and> agrees (live_bridge P room data s) B') \<and>
    (\<exists>bs B'. run_boundary (Boundary u Call_bridge # bs) B = Some B' \<and> agrees (snd (heal_bridge P key val s)) B') \<and>
    (\<exists>a bs B'. run_boundary (Boundary u (Call_init a) # bs) B = Some B' \<and> agrees (snd (gcs_init P ssl b s)) B') \<and>
    (\<forall>s'. gcs_shutdown P (Some h) s = Some s' \<longrightarrow>
      (\<exists>bs B'. run_boundary (Boundary u (Call_shutdown h) # bs) B = Some B' \<and> agrees s' B')) \<and>
    (\<forall>s'. exit_hook P lk st now s = Some s' \<longrightarrow>
      (\<exists>bs B'. run_boundary (Boundary u Call_exit # bs) B = Some B' \<and> agrees s' B')) \<and>
    (\<exists>bs B'. run_boundary bs B = Some B' \<and> agrees (archive_turn P s) B')"
proof (intro conjI allI impI)
  note ok = ffi_reachable_inv [OF assms(1)]
  show "\<exists>bs B'. run_boundary (Boundary u Call_bridge # bs) B = Some B' \<and> agrees (live_bridge P room data s) B'"
    by (rule live_agrees [OF ok assms(2,3)])
  show "\<exists>bs B'. run_boundary (Boundary u Call_bridge # bs) B = Some B' \<and> agrees (snd (heal_bridge P key val s)) B'"
    by (rule heal_agrees [OF ok assms(2,3)])
  show "\<exists>a bs B'. run_boundary (Boundary u (Call_init a) # bs) B = Some B' \<and> agrees (snd (gcs_init P ssl b s)) B'"
    by (rule init_agrees [OF ok assms(2,3)])
  show "\<exists>bs B'. run_boundary bs B = Some B' \<and> agrees (archive_turn P s) B'"
    by (rule archive_agrees [OF ok assms(2)])
qed (blast intro: reachable_agrees [OF assms(1)] publish_agrees [OF assms(2,3)] subscribe_agrees [OF assms(2,3)]
    shutdown_agrees [OF assms(2,3)] exit_agrees [OF assms(2,3)])+

text \<open>A process that starts a session and shuts it down.\<close>

theorem operations_run_composed_witness:
  "\<exists>u v a as B1 bs B2 s'. run_boundary (Boundary u (Call_init a) # as) boundary_loaded = Some B1 \<and> agrees ref_ffi1 B1 \<and>
     gcs_shutdown ref_platform (Some 4) ref_ffi1 = Some s' \<and>
     run_boundary (Boundary v (Call_shutdown 4) # bs) B1 = Some B2 \<and> agrees s' B2"
proof -
  have start: "agrees ref_ffi0 boundary_loaded" unfolding ref_ffi0_def by (rule loaded_agrees)
  have "t_pc (b_threads boundary_loaded) 0 = Idle" by (simp add: boundary_loaded_def threads_loaded_def)
  from operations_run_composed [OF ref_reachable(1) start this, where b = "Some ref_config"] ref_init
  obtain a as B1 where B1: "run_boundary (Boundary 0 (Call_init a) # as) boundary_loaded = Some B1" "agrees ref_ffi1 B1"
    by (metis snd_conv)
  obtain v where v: "t_pc (b_threads B1) v = Idle" using idle_thread [OF agrees_fields(3) [OF B1(2)]] .
  obtain s' where s': "gcs_shutdown ref_platform (Some 4) ref_ffi1 = Some s'" by (simp add: gcs_shutdown_def Let_def)
  from operations_run_composed [OF ref_reachable(2) B1(2) v] s' obtain bs B2 where
    "run_boundary (Boundary v (Call_shutdown 4) # bs) B1 = Some B2" "agrees s' B2" by metis
  with B1 s' show ?thesis by blast
qed

end
