(* ===== verification/PushPlane.thy ===== *)
theory PushPlane
  imports FfiProps
begin

text \<open>
  The push plane as a whole (\<open>src/ffi/gcs_core_ffi.cpp\<close>, with what it calls): whatever an operation of the library
  hands to Dart is the serialisation of an event, goes to the registered port, and is handed over only while
  there is one. The header of \<open>gcs_core.h\<close> promises it: all state and all data arrive on the port as serialised events.
\<close>

section \<open>Extending what was posted\<close>

text \<open>The posts between two states of the process with the same listener.\<close>

definition pushes :: "'w platform \<Rightarrow> 'w proc \<Rightarrow> 'w proc \<Rightarrow> bool" where
  "pushes P p q \<longleftrightarrow> same_listener p q \<and>
     (\<exists>es. posted q = posted p @ map (\<lambda>e. (dart_port p, SerializeGcsEvent P e)) es \<and> (es = [] \<or> dart_attached p))"

lemma pushes_refl [simp, intro]: "pushes P p p"
  by (simp add: pushes_def)

lemma pushes_silent: "same_listener p q \<Longrightarrow> posted q = posted p \<Longrightarrow> pushes P p q"
  by (simp add: pushes_def)

lemma pushes_trans:
  assumes "pushes P p q" and "pushes P q r"
  shows "pushes P p r"
proof -
  from assms(1) obtain es where q: "same_listener p q" "es = [] \<or> dart_attached p"
    "posted q = posted p @ map (\<lambda>e. (dart_port p, SerializeGcsEvent P e)) es" by (auto simp: pushes_def)
  from assms(2) obtain es' where r: "same_listener q r" "es' = [] \<or> dart_attached q"
    "posted r = posted q @ map (\<lambda>e. (dart_port q, SerializeGcsEvent P e)) es'" by (auto simp: pushes_def)
  have "dart_port q = dart_port p" "dart_attached q = dart_attached p"
    using q(1) same_listener_attached by (auto simp: same_listener_def)
  with q r same_listener_trans show ?thesis
    unfolding pushes_def by (intro conjI exI [of _ "es @ es'"]) auto
qed

lemma pushes_PostToDart: "pushes P p (PostToDart P e p)"
proof (cases "dart_attached p")
  case True
  then show ?thesis
    by (auto simp: pushes_def PostToDart_attached same_listener_def intro: exI [of _ "[e]"])
qed (simp add: PostToDart_detached)

lemma pushes_post: "pushes P p q \<Longrightarrow> pushes P p (PostToDart P e q)"
  by (rule pushes_trans [OF _ pushes_PostToDart])

section \<open>Operations that push nothing\<close>

lemma posted_NextEntityId [simp]: "posted (snd (EntityStore_NextEntityId P pfx p)) = posted p"
  by (cases "entity_seed p")
    (simp_all add: NextEntityId_seeded NextEntityId_unseeded case_prod_beta frame_simps)

lemma posted_catalog:
  "posted (snd (snd (EntityStore_CreateSpace P s n a b es p))) = posted p"
  "posted (snd (snd (EntityStore_CreateRoom P s n par es p))) = posted p"
  "posted (snd (snd (EntityStore_UpdateSpace P s d es p))) = posted p"
  by (simp_all add: EntityStore_CreateSpace_def EntityStore_CreateRoom_def EntityStore_UpdateSpace_def
      AppendToManifest_def Let_def case_prod_beta frame_simps split: sum.split option.split)

lemmas catalog_silent = pushes_silent [OF same_listener_catalog(1) posted_catalog(1)]
  pushes_silent [OF same_listener_catalog(2) posted_catalog(2)] pushes_silent [OF same_listener_catalog(3) posted_catalog(3)]

lemma history_silent: "pushes P p (snd (snd (QueryHistory Q s t m p)))"
  by (rule pushes_silent [OF same_listener_history]) (simp add: QueryHistory_def Let_def case_prod_beta split: sum.split)

lemma register_silent: "pushes P p (snd (register_topic Q cs t p))"
  by (rule pushes_silent [OF same_listener_register])
    (simp add: register_topic_def case_prod_beta frame_simps split: sum.split)

lemma subscribe_silent: "pushes P p (snd (CoreSession_Subscribe Q s t p))"
  by (rule pushes_silent [OF same_listener_subscribe])
    (simp add: CoreSession_Subscribe_def GcsGlobalDb_Subscribe_def Let_def case_prod_beta split: option.split)

section \<open>The messaging component\<close>

lemma send_pushes:
  assumes "m_sink m = PostToDart P"
  shows "pushes P p (snd (snd (Messaging_SendMessage P s t b m p)))"
proof -
  obtain q e where final: "snd (snd (Messaging_SendMessage P s t b m p)) = PostToDart P e q"
    and q: "dart_port q = dart_port (after_echo P m t b p)" "dart_post_dl q = dart_post_dl (after_echo P m t b p)"
      "posted q = posted (after_echo P m t b p)"
    using SendMessage_last_push [of P s t b m p] assms by auto
  have "pushes P p (after_echo P m t b p)"
    unfolding after_echo_def assms
    by (rule pushes_post, rule pushes_silent) (simp_all add: same_listener_def frame_simps)
  moreover have "pushes P (after_echo P m t b p) q" by (rule pushes_silent) (simp_all add: same_listener_def q)
  ultimately have "pushes P p q" by (rule pushes_trans)
  then show ?thesis unfolding final by (rule pushes_post)
qed

lemma apply_pushes:
  assumes "m_sink m = PostToDart P"
  shows "pushes P p (snd (ApplyMessage P t bs m p))"
proof -
  have silent: "pushes P p (p\<lparr>world := w\<rparr>)" for w by (rule pushes_silent) (simp_all add: same_listener_def)
  then show ?thesis
    by (cases "admitted P t bs m p") (auto simp: ApplyMessage_rejected ApplyMessage_admitted assms intro: pushes_post)
qed

section \<open>The handlers\<close>

lemma pushes_notice: "pushes P p q \<Longrightarrow> pushes P p (PostErrorNotice P n q)"
  by (simp add: PostErrorNotice_def pushes_post)

lemma replay_pushes: "pushes P p (g_proc s) \<Longrightarrow> pushes P p (g_proc (PushMessageHistory P t s))"
  by (rule pushes_trans, assumption)
    (use history_silent [of P "g_proc s" P "the_session s" t "the_messaging s"] in
      \<open>auto simp: PushMessageHistory_def case_prod_beta intro: pushes_post split: sum.split\<close>)

lemma live_pushes: "pushes P p (g_proc s) \<Longrightarrow> pushes P p (g_proc (snd (SubscribeLive P t s)))"
  by (rule pushes_trans, assumption)
    (use subscribe_silent [of P "g_proc s" P "the_session s" t] in
      \<open>auto simp: SubscribeLive_def Let_def case_prod_beta the_session_def intro: pushes_notice\<close>)

lemma refresh_join_pushes: "pushes P p (g_proc s) \<Longrightarrow> pushes P p (g_proc (refresh_join P t s))"
  by (rule pushes_trans, assumption)
    (use register_silent [of P "g_proc s" P "the_session s" t] in
      \<open>auto simp: refresh_join_def Let_def intro!: live_pushes replay_pushes split: bool.split prod.split\<close>)

lemma refresh_pushes: "pushes P p (g_proc s) \<Longrightarrow> pushes P p (g_proc (RefreshDerivedJoins P s))"
proof -
  have "pushes P p (g_proc (foldl (\<lambda>s t. refresh_join P t s) s ts))" if "pushes P p (g_proc s)" for ts and s :: "'a ffi"
    using that by (induction ts arbitrary: s) (auto intro: refresh_join_pushes simp del: refresh_fold_fields)
  then show "pushes P p (g_proc s) \<Longrightarrow> ?thesis" by (simp add: RefreshDerivedJoins_def refresh_evict_def Let_def)
qed

lemmas handler_pushes = pushes_post pushes_notice replay_pushes live_pushes refresh_pushes pushes_refl

lemma join_pushes: "pushes P (g_proc s) (g_proc (snd (publish_join P t s)))"
  using register_silent [of P "g_proc s" P "the_session s" t]
  by (auto simp: publish_join_def Let_def case_prod_beta intro!: handler_pushes split: bool.split prod.split)

lemma send_command_pushes:
  assumes "m_sink (the_messaging s) = PostToDart P"
  shows "pushes P (g_proc s) (g_proc (snd (publish_send P t b s)))"
  using send_pushes [OF assms, of "g_proc s" "the_session s" t b]
  by (auto simp: publish_send_def Let_def case_prod_beta the_session_def the_messaging_def intro!: handler_pushes)

lemma refresh_and_post_pushes: "pushes P p (g_proc s) \<Longrightarrow> pushes P p (g_proc (refresh_and_post P s))"
  by (simp add: refresh_and_post_def Let_def handler_pushes)

lemma catalog_pushes:
  "pushes P (g_proc s) (g_proc (snd (publish_create_space P n a b s)))"
  "pushes P (g_proc s) (g_proc (snd (publish_create_room P n par s)))"
  "pushes P (g_proc s) (g_proc (snd (publish_update_space P i n a b s)))"
  using catalog_silent
  by (auto simp: publish_create_space_def publish_create_room_def publish_update_space_def Let_def case_prod_beta
      intro!: handler_pushes refresh_and_post_pushes split: prod.split)

lemma publish_pushes:
  assumes "ffi_ok P ssl s"
  shows "pushes P (g_proc s) (g_proc (snd (gcs_publish P h t b s)))"
proof (cases "handle_matches s h")
  case True
  then have "g_session s \<noteq> None" by (auto simp: handle_matches_def split: option.splits)
  from wired_sink [OF assms this] have "pushes P (g_proc s) (g_proc (snd (dispatch_command P c s)))" for c
    by (cases c) (simp_all add: join_pushes send_command_pushes catalog_pushes publish_not_set_def handler_pushes)
  then show ?thesis by (auto simp: gcs_publish_def intro: handler_pushes split: option.split)
qed (simp add: gcs_publish_def)

lemma bridges_push:
  assumes "ffi_ok P ssl s"
  shows "pushes P (g_proc s) (g_proc (live_bridge P t bs s))" and "pushes P (g_proc s) (g_proc (snd (heal_bridge P k bs s)))"
proof -
  have sink: "m_sink m = PostToDart P" if "g_messaging s = Some m" for m
    using that assms ffi_ok_no_session [OF assms] wired_sink [OF assms] by (cases "g_session s") (auto simp: the_messaging_def)
  have applied: "pushes P p b" if "ApplyMessage P t' bs m p = (a, b)" "g_messaging s = Some m" for t' m p a b
    using apply_pushes [OF sink [OF that(2)], of p t' bs] that(1) by simp
  show "pushes P (g_proc s) (g_proc (live_bridge P t bs s))"
    using applied by (auto simp: live_bridge_def OnLiveMessage_def Let_def split: option.split prod.split)
  show "pushes P (g_proc s) (g_proc (snd (heal_bridge P k bs s)))"
    using applied
    by (auto simp: heal_bridge_def OnMessageArrived_def Let_def split: option.splits prod.splits if_splits)
qed

section \<open>Start and end of a session\<close>

lemma silent_world [simp]: "pushes P p (p\<lparr>world := w\<rparr>)"
  by (rule pushes_silent) (simp_all add: same_listener_def)

lemma pushes_world: "pushes P p q \<Longrightarrow> pushes P p (q\<lparr>world := w\<rparr>)"
  by (rule pushes_trans [OF _ silent_world])

lemma join_smoke_silent: "pushes P p (snd (join_smoke Q cs ts p))"
proof (induction ts arbitrary: p)
  case (Cons t ts)
  from pushes_trans [OF register_silent Cons.IH] show ?case by (simp add: case_prod_beta)
qed simp

lemma initialize_silent: "gdb_ok (cs_db cs) \<Longrightarrow> pushes P p (snd (snd (CoreSession_Initialize Q cs p)))"
proof -
  assume ok: "gdb_ok (cs_db cs)"
  have "pushes P p (snd (snd (GcsGlobalDb_Initialize Q (cs_db cs) p)))"
    using Initialize_unfold [of Q "cs_db cs" p]
  proof (elim disjE exE)
    fix ps net assume eq: "GcsGlobalDb_Initialize Q (cs_db cs) p = GcsGlobalDb_Initialize_injected Q ps net (cs_db cs) p"
    show ?thesis unfolding eq using Initialize_injected_cases [OF ok, of ps net Q p] by auto
  qed simp
  then show ?thesis by (simp add: CoreSession_Initialize_def case_prod_beta)
qed

lemma db_shutdown_world: "\<exists>w. snd (GcsGlobalDb_Shutdown Q d p) = p\<lparr>world := w\<rparr>"
  by (auto simp: GcsGlobalDb_Shutdown_def Let_def case_prod_beta split: option.split intro: exI [of _ "world p"])

lemma shutdown_silent: "pushes P p (snd (CoreSession_Shutdown Q cs p))" "pushes P p (CoreSession_destroy Q cs p)"
proof -
  have db: "pushes P p (snd (GcsGlobalDb_Shutdown Q d p))" for d p
    using db_shutdown_world [of Q d p] by auto
  show session: "pushes P p (snd (CoreSession_Shutdown Q cs p))" for cs p
    using db by (simp add: CoreSession_Shutdown_def case_prod_beta)
  show "pushes P p (CoreSession_destroy Q cs p)"
    using db pushes_trans [OF session db] by (simp add: CoreSession_destroy_def case_prod_beta)
qed

lemma components_push:
  "pushes P p (g_proc s) \<Longrightarrow> pushes P p (g_proc (init_components P ssl a cs s))"
proof -
  have "pushes P q (snd (CoreSession_RegisterNewElementCallback P cs pat q))" for pat q
    by (rule pushes_silent)
      (simp_all add: CoreSession_RegisterNewElementCallback_def GcsGlobalDb_RegisterNewElementCallback_def same_listener_def
        case_prod_beta)
  then show "pushes P p (g_proc s) \<Longrightarrow> ?thesis"
    by (auto simp: init_components_def Let_def case_prod_beta intro!: refresh_pushes intro: pushes_trans)
qed

lemma init_session_pushes: "pushes P (g_proc s) (g_proc (snd (init_session P ssl config s)))"
proof -
  obtain a w1 where a: "new_address P (world (g_proc s)) = (a, w1)" by fastforce
  obtain r cs p2 where i: "CoreSession_Initialize P (CoreSession_new (cfg_db_path config)) ((g_proc s)\<lparr>world := w1\<rparr>) = (r, cs, p2)"
    by (metis prod.collapse)
  obtain joined p3 where j: "join_smoke P cs [kSmokeTopicA, kSmokeTopicB] p2 = (joined, p3)" by fastforce
  have p2: "pushes P (g_proc s) p2"
    using initialize_silent [OF CoreSession_new_ok, of P "(g_proc s)\<lparr>world := w1\<rparr>" P "cfg_db_path config"] i
      pushes_trans [OF silent_world] by auto
  with join_smoke_silent [of P p2 P cs "[kSmokeTopicA, kSmokeTopicB]"] j have p3: "pushes P (g_proc s) p3"
    by (auto intro: pushes_trans)
  have ending: "pushes P (g_proc s) (CoreSession_destroy P c' (if b then shutdown_sdk P (snd (CoreSession_Shutdown P c q))
      else snd (CoreSession_Shutdown P c q)))" if "pushes P (g_proc s) q" for q c c' b
    by (rule pushes_trans [OF _ shutdown_silent(2)])
      (simp add: shutdown_sdk_def pushes_world pushes_trans [OF that shutdown_silent(1)])
  show ?thesis
    using a i j ending [OF p2] ending [OF p3, of _ False] components_push [of P "g_proc s" "s\<lparr>g_roomTopics := g_roomTopics s @ joined, g_proc := p3\<rparr>" ssl] p3
    by (simp add: init_session_def Let_def case_prod_beta del: join_smoke.simps)
qed

lemma init_pushes: "pushes P (g_proc s) (g_proc (snd (gcs_init P ssl b s)))"
proof -
  have boot: "pushes P (g_proc s) (g_proc (snd (EnsureSdkBooted P config s)))" for config and s :: "'a ffi"
    by (simp add: EnsureSdkBooted_def Let_def case_prod_beta)
  have "pushes P (g_proc s) (g_proc (snd (init_session P ssl config s2)))" if "EnsureSdkBooted P config s1 = (b, s2)"
    "g_proc s1 = g_proc s" for config s1 b s2
    using boot [of s1 config] that pushes_trans [OF _ init_session_pushes] by auto
  moreover have "pushes P (g_proc s) (g_proc s2)" if "EnsureSdkBooted P config s1 = (b, s2)" "g_proc s1 = g_proc s" for config s1 b s2
    using boot [of s1 config] that by simp
  ultimately show ?thesis
    by (auto simp: gcs_init_def Let_def split: option.split prod.split bool.split)
qed

text \<open>Ending a session pushes nothing.\<close>

lemma shutdown_posted [simp]:
  "posted (snd (GcsGlobalDb_Shutdown Q d p)) = posted p" "posted (snd (CoreSession_Shutdown Q cs p)) = posted p"
  "posted (CoreSession_destroy Q cs p) = posted p"
proof -
  show db: "posted (snd (GcsGlobalDb_Shutdown Q d p)) = posted p" for d p using db_shutdown_world [of Q d p] by auto
  then show session: "posted (snd (CoreSession_Shutdown Q cs p)) = posted p" for cs p
    by (simp add: CoreSession_Shutdown_def case_prod_beta)
  show "posted (CoreSession_destroy Q cs p) = posted p"
    by (simp add: CoreSession_destroy_def case_prod_beta db session)
qed

lemma destroy_evicted_posted: "posted (destroy_evicted Q b evicted p) = posted p"
proof -
  have drained: "posted (snd (the (Messaging_destroy Q cs m q))) = posted q" for cs m q
  proof -
    have "posted (write_out Q cs queue q) = posted q" for queue
      by (induction queue arbitrary: q) (simp_all add: write_out_def frame_simps case_prod_beta)
    then show ?thesis by (simp add: Messaging_destroy_def ArchiveWorker_drains)
  qed
  show ?thesis
    by (simp add: destroy_evicted_def shutdown_sdk_def drained Let_def case_prod_beta split: option.split)
qed

lemma teardown_posted: "posted (g_proc (TeardownSessionAndNode P with_lock acquired s)) = posted (g_proc s)"
  by (simp add: TeardownSessionAndNode_def evict_globals_def destroy_evicted_posted Let_def split: option.split prod.split)

section \<open>Property\<close>

text \<open>C24: whatever a start, a command, a delivery over either bridge or a registration hands to Dart is the serialisation of an event and
  goes to the one registered port, which stays registered, and nothing is handed over while none is; a registration's
  events go to the port it registers; the archive worker, \<open>gcs_shutdown\<close> and the exit hook hand over nothing.\<close>

theorem push_plane_typed:
  assumes "ffi_reachable P ssl s"
  shows "pushes P (g_proc s) (g_proc (snd (gcs_init P ssl configBytes s)))
    \<and> pushes P (g_proc s) (g_proc (snd (gcs_publish P session topic payloadBytes s)))
    \<and> pushes P (g_proc s) (g_proc (live_bridge P roomTopic valueBytes s))
    \<and> pushes P (g_proc s) (g_proc (snd (heal_bridge P key valueBytes s)))
    \<and> (case gcs_subscribe P session topic dartPort s of (status, t) \<Rightarrow>
         if status = GCS_OK then pushes P ((g_proc s)\<lparr>dart_port := dartPort\<rparr>) (g_proc t) else t = s)
    \<and> posted (g_proc (archive_turn P s)) = posted (g_proc s)
    \<and> (case gcs_shutdown P session s of None \<Rightarrow> True | Some t \<Rightarrow> posted (g_proc t) = posted (g_proc s))
    \<and> (case exit_hook P try_lock start now s of None \<Rightarrow> True | Some t \<Rightarrow> posted (g_proc t) = posted (g_proc s))"
proof (intro conjI)
  note ok = ffi_reachable_inv [OF assms]
  show "pushes P (g_proc s) (g_proc (snd (gcs_init P ssl configBytes s)))" by (rule init_pushes)
  show "pushes P (g_proc s) (g_proc (snd (gcs_publish P session topic payloadBytes s)))" by (rule publish_pushes [OF ok])
  show "pushes P (g_proc s) (g_proc (live_bridge P roomTopic valueBytes s))" by (rule bridges_push [OF ok])
  show "pushes P (g_proc s) (g_proc (snd (heal_bridge P key valueBytes s)))" by (rule bridges_push [OF ok])
  show "case gcs_subscribe P session topic dartPort s of (status, t) \<Rightarrow>
      if status = GCS_OK then pushes P ((g_proc s)\<lparr>dart_port := dartPort\<rparr>) (g_proc t) else t = s"
    by (simp add: gcs_subscribe_def Let_def Post_def pushes_post)
  show "posted (g_proc (archive_turn P s)) = posted (g_proc s)"
    by (simp add: archive_turn_def ArchiveWorker_turn_def frame_simps split: option.split list.split worker_turn.split)
  show "case gcs_shutdown P session s of None \<Rightarrow> True | Some t \<Rightarrow> posted (g_proc t) = posted (g_proc s)"
    by (simp add: gcs_shutdown_def Let_def teardown_posted)
  show "case exit_hook P try_lock start now s of None \<Rightarrow> True | Some t \<Rightarrow> posted (g_proc t) = posted (g_proc s)"
    by (simp add: exit_hook_def teardown_posted split: option.split prod.split)
qed

theorem push_plane_typed_witness:
  "\<exists>t. gcs_subscribe ref_platform (Some 4) (Some ''events'') 5 ref_ffi1 = (GCS_OK, t) \<and> length (posted (g_proc t)) = 3 \<and>
     pushes ref_platform ((g_proc ref_ffi1)\<lparr>dart_port := 5\<rparr>) (g_proc t)"
proof -
  let ?t = "snd (gcs_subscribe ref_platform (Some 4) (Some ''events'') 5 ref_ffi1)"
  have run: "gcs_subscribe ref_platform (Some 4) (Some ''events'') 5 ref_ffi1 = (GCS_OK, ?t)"
    by (simp add: gcs_subscribe_def Let_def)
  have "dart_post_dl (g_proc ref_ffi1)" "posted (g_proc ref_ffi1) = []" by (simp_all add: ref_ffi1_def ref_proc_def)
  then have "length (posted (g_proc ?t)) = 3"
    by (simp add: gcs_subscribe_def Let_def Post_def PostToDart_posts)
  with run push_plane_typed [OF ref_reachable(2), of None "Some 4" "Some ''events''" None "[]" "[]" "[]" 5] show ?thesis by force
qed

end
