(* ===== verification/DartApi.thy ===== *)
theory DartApi
  imports DartPort
begin

text \<open>
  The dynamically linked Dart API (\<open>src/ffi/dart_api_dl.c\<close>, \<open>dart_api_dl.h\<close>,
  \<open>internal/dart_api_dl_impl.h\<close>, \<open>dart_version.h\<close>): the table of symbols a Dart VM hands over, the
  search of a symbol in it, and the initialisation of the \<open>_DL\<close> function pointers, one of which is
  the \<open>Dart_PostCObject_DL\<close> every push of the C boundary goes through. A function is a handle; the
  entries are the memory from the table's pointer on, so a search may run past its end.
\<close>

section \<open>The table\<close>

text \<open>A null name ends the table.\<close>

record DartApiEntry =
  entry_name :: "string option"
  entry_function :: "handle option"

record DartApi =
  api_major :: "32 word"
  api_minor :: "32 word"
  api_functions :: "DartApiEntry list"

definition DART_API_DL_MAJOR_VERSION :: "32 word" where
  "DART_API_DL_MAJOR_VERSION = 2"

definition DART_API_DL_MINOR_VERSION :: "32 word" where
  "DART_API_DL_MINOR_VERSION = 6"

text \<open>\<open>None\<close>: the search leaves the memory of the table, which has no null name.\<close>

fun FindFunctionPointer :: "DartApiEntry list \<Rightarrow> string \<Rightarrow> handle option option" where
  "FindFunctionPointer [] name = None"
| "FindFunctionPointer (e # entries) name =
     (case entry_name e of
        None \<Rightarrow> Some None
      | Some n \<Rightarrow> if n = name then Some (entry_function e) else FindFunctionPointer entries name)"

section \<open>The symbols\<close>

definition DART_NATIVE_API_DL_SYMBOLS :: "string list" where
  "DART_NATIVE_API_DL_SYMBOLS =
    [''Dart_PostCObject'', ''Dart_PostInteger'', ''Dart_NewNativePort'',
     ''Dart_CloseNativePort'']"

definition DART_API_DL_SYMBOLS :: "string list" where
  "DART_API_DL_SYMBOLS =
    [''Dart_IsError'', ''Dart_IsApiError'', ''Dart_IsUnhandledExceptionError'',
     ''Dart_IsCompilationError'', ''Dart_IsFatalError'', ''Dart_GetError'',
     ''Dart_ErrorHasException'', ''Dart_ErrorGetException'', ''Dart_ErrorGetStackTrace'',
     ''Dart_NewApiError'', ''Dart_NewCompilationError'', ''Dart_NewUnhandledExceptionError'',
     ''Dart_PropagateError'', ''Dart_HandleFromPersistent'', ''Dart_HandleFromWeakPersistent'',
     ''Dart_NewPersistentHandle'', ''Dart_SetPersistentHandle'', ''Dart_DeletePersistentHandle'',
     ''Dart_NewWeakPersistentHandle'', ''Dart_DeleteWeakPersistentHandle'',
     ''Dart_NewFinalizableHandle'', ''Dart_DeleteFinalizableHandle'', ''Dart_CurrentIsolate'',
     ''Dart_ExitIsolate'', ''Dart_EnterIsolate'', ''Dart_GetMainPortId'', ''Dart_Post'',
     ''Dart_NewSendPort'', ''Dart_NewSendPortEx'', ''Dart_SendPortGetId'',
     ''Dart_SendPortGetIdEx'', ''Dart_GetCurrentThreadOwnsIsolate'', ''Dart_EnterScope'',
     ''Dart_ExitScope'', ''Dart_IsNull'', ''Dart_Null'']"

definition DART_API_DEPRECATED_DL_SYMBOLS :: "string list" where
  "DART_API_DEPRECATED_DL_SYMBOLS =
    [''Dart_UpdateExternalSize'', ''Dart_UpdateFinalizableExternalSize'']"

definition DART_API_ALL_DL_SYMBOLS :: "string list" where
  "DART_API_ALL_DL_SYMBOLS = DART_NATIVE_API_DL_SYMBOLS @ DART_API_DL_SYMBOLS"

section \<open>The function pointers\<close>

text \<open>
  A \<open>_DL\<close> pointer holds a function of the VM or the stub of a deprecated symbol, which prints a
  line and does nothing else.
\<close>

datatype dl_pointer = Dl_null | Dl_vm handle | Dl_deprecated string

definition deprecated_stub :: "string \<Rightarrow> string" where
  "deprecated_stub name = name @ '' is a nop, it has been deprecated''"

definition dl_loaded :: "string \<Rightarrow> dl_pointer" where
  "dl_loaded name = Dl_null"

definition dl_of :: "handle option \<Rightarrow> dl_pointer" where
  "dl_of f = (case f of None \<Rightarrow> Dl_null | Some h \<Rightarrow> Dl_vm h)"

text \<open>The assignments one after the other; \<open>None\<close> when a search leaves the table.\<close>

fun dl_init_symbols ::
  "DartApiEntry list \<Rightarrow> string list \<Rightarrow> (string \<Rightarrow> dl_pointer) \<Rightarrow> (string \<Rightarrow> dl_pointer) option" where
  "dl_init_symbols entries [] dl = Some dl"
| "dl_init_symbols entries (name # names) dl =
     (case FindFunctionPointer entries name of
        None \<Rightarrow> None
      | Some f \<Rightarrow> dl_init_symbols entries names (dl(name := dl_of f)))"

fun dl_init_deprecated :: "string list \<Rightarrow> (string \<Rightarrow> dl_pointer) \<Rightarrow> string \<Rightarrow> dl_pointer" where
  "dl_init_deprecated [] dl = dl"
| "dl_init_deprecated (name # names) dl =
     dl_init_deprecated names (dl(name := Dl_deprecated (deprecated_stub name)))"

definition Dart_InitializeApiDL ::
  "DartApi \<Rightarrow> (string \<Rightarrow> dl_pointer) \<Rightarrow> (int \<times> (string \<Rightarrow> dl_pointer)) option" where
  "Dart_InitializeApiDL api dl =
     (if api_major api \<noteq> DART_API_DL_MAJOR_VERSION then Some (- 1, dl)
      else case dl_init_symbols (api_functions api) DART_API_ALL_DL_SYMBOLS dl of
             None \<Rightarrow> None
           | Some dl1 \<Rightarrow> Some (0, dl_init_deprecated DART_API_DEPRECATED_DL_SYMBOLS dl1))"

text \<open>What the push plane of the C boundary sees of it: whether \<open>Dart_PostCObject_DL\<close> is null.\<close>

definition with_dart_api :: "(string \<Rightarrow> dl_pointer) \<Rightarrow> 'w proc \<Rightarrow> 'w proc" where
  "with_dart_api dl p = p\<lparr>dart_post_dl := (dl ''Dart_PostCObject'' \<noteq> Dl_null)\<rparr>"

section \<open>Searching and initialising\<close>

text \<open>The table up to its end, as a partial map.\<close>

definition terminated :: "DartApiEntry list \<Rightarrow> bool" where
  "terminated entries \<longleftrightarrow> (\<exists>e \<in> set entries. entry_name e = None)"

fun listed_entries :: "DartApiEntry list \<Rightarrow> (string \<times> handle option) list" where
  "listed_entries [] = []"
| "listed_entries (e # entries) =
     (case entry_name e of None \<Rightarrow> [] | Some n \<Rightarrow> (n, entry_function e) # listed_entries entries)"

definition vm_symbol :: "DartApiEntry list \<Rightarrow> string \<Rightarrow> dl_pointer" where
  "vm_symbol entries name =
     (case map_of (listed_entries entries) name of None \<Rightarrow> Dl_null | Some f \<Rightarrow> dl_of f)"

lemma FindFunctionPointer_listed:
  "terminated entries \<Longrightarrow> FindFunctionPointer entries name =
     Some (case map_of (listed_entries entries) name of None \<Rightarrow> None | Some f \<Rightarrow> f)"
proof (induction entries)
  case (Cons e entries)
  then have "entry_name e = None \<or> terminated entries" by (auto simp: terminated_def)
  with Cons.IH show ?case by (cases "entry_name e") auto
qed (simp add: terminated_def)

lemma FindFunctionPointer_terminated:
  "terminated entries \<Longrightarrow> \<exists>f. FindFunctionPointer entries name = Some f \<and> dl_of f = vm_symbol entries name"
  using FindFunctionPointer_listed [of entries name]
  by (auto simp: vm_symbol_def dl_of_def split: option.splits)

lemma dl_init_symbols_terminated:
  "terminated entries \<Longrightarrow>
   dl_init_symbols entries names dl = Some (\<lambda>n. if n \<in> set names then vm_symbol entries n else dl n)"
proof (induction names arbitrary: dl)
  case (Cons name names)
  from FindFunctionPointer_terminated [OF Cons.prems, of name] obtain f where
    "FindFunctionPointer entries name = Some f" "dl_of f = vm_symbol entries name" by blast
  with Cons show ?case by (auto simp: fun_eq_iff)
qed simp

lemma dl_init_deprecated_eq:
  "dl_init_deprecated names dl = (\<lambda>n. if n \<in> set names then Dl_deprecated (deprecated_stub n) else dl n)"
  by (induction names arbitrary: dl) (auto simp: fun_eq_iff)

lemma symbols_disjoint: "set DART_API_ALL_DL_SYMBOLS \<inter> set DART_API_DEPRECATED_DL_SYMBOLS = {}"
  by (simp add: DART_API_ALL_DL_SYMBOLS_def DART_NATIVE_API_DL_SYMBOLS_def DART_API_DL_SYMBOLS_def
      DART_API_DEPRECATED_DL_SYMBOLS_def)

section \<open>Properties\<close>

text \<open>C35: On a terminated table the initialisation always ends; a VM of another major version is refused and
  no pointer changes; otherwise every symbol gets the function of its first entry, a symbol the VM
  does not list becomes null, the deprecated ones get their stubs, nothing else changes, and pushes
  to a registered port are delivered from then on exactly when the VM lists \<open>Dart_PostCObject\<close>.\<close>

theorem dart_api_initialised:
  assumes "terminated (api_functions api)"
  shows "\<exists>r dl'. Dart_InitializeApiDL api dl = Some (r, dl')
    \<and> (if api_major api \<noteq> DART_API_DL_MAJOR_VERSION then r = - 1 \<and> dl' = dl
       else r = 0 \<and> dl' = (\<lambda>name.
         if name \<in> set DART_API_ALL_DL_SYMBOLS then vm_symbol (api_functions api) name
         else if name \<in> set DART_API_DEPRECATED_DL_SYMBOLS then Dl_deprecated (deprecated_stub name)
         else dl name)
         \<and> PostToDart P e (with_dart_api dl' p) = (with_dart_api dl' p)\<lparr>posted :=
             posted p @ (if dart_port p \<noteq> 0 \<and> vm_symbol (api_functions api) ''Dart_PostCObject'' \<noteq> Dl_null
                         then [(dart_port p, SerializeGcsEvent P e)] else [])\<rparr>)"
proof (cases "api_major api = DART_API_DL_MAJOR_VERSION")
  case False
  then show ?thesis by (simp add: Dart_InitializeApiDL_def)
next
  case True
  let ?dl = "\<lambda>name. if name \<in> set DART_API_ALL_DL_SYMBOLS then vm_symbol (api_functions api) name
     else if name \<in> set DART_API_DEPRECATED_DL_SYMBOLS then Dl_deprecated (deprecated_stub name) else dl name"
  have "Dart_InitializeApiDL api dl = Some (0, ?dl)"
    using True symbols_disjoint
    by (auto simp: Dart_InitializeApiDL_def dl_init_symbols_terminated [OF assms] dl_init_deprecated_eq fun_eq_iff)
  moreover have "''Dart_PostCObject'' \<in> set DART_API_ALL_DL_SYMBOLS"
    by (simp add: DART_API_ALL_DL_SYMBOLS_def DART_NATIVE_API_DL_SYMBOLS_def)
  then have "PostToDart P e (with_dart_api ?dl p) = (with_dart_api ?dl p)\<lparr>posted :=
             posted p @ (if dart_port p \<noteq> 0 \<and> vm_symbol (api_functions api) ''Dart_PostCObject'' \<noteq> Dl_null
                         then [(dart_port p, SerializeGcsEvent P e)] else [])\<rparr>"
    by (simp add: with_dart_api_def PostToDart_posts Let_def)
  ultimately show ?thesis using True by (intro exI [of _ 0] exI [of _ ?dl]) simp
qed

definition ref_dart_api :: DartApi where
  "ref_dart_api = \<lparr>api_major = 2, api_minor = 6, api_functions =
     [\<lparr>entry_name = Some ''Dart_PostInteger'', entry_function = Some 11\<rparr>,
      \<lparr>entry_name = Some ''Dart_PostCObject'', entry_function = Some 7\<rparr>,
      \<lparr>entry_name = None, entry_function = None\<rparr>]\<rparr>"

theorem dart_api_initialised_witness:
  "\<exists>dl'. Dart_InitializeApiDL ref_dart_api dl_loaded = Some (0, dl') \<and> dl' ''Dart_PostCObject'' = Dl_vm 7
     \<and> dl' ''Dart_IsError'' = Dl_null
     \<and> dl' ''Dart_UpdateExternalSize'' = Dl_deprecated (deprecated_stub ''Dart_UpdateExternalSize'')"
proof -
  have "terminated (api_functions ref_dart_api)" by (simp add: terminated_def ref_dart_api_def)
  from dart_api_initialised [OF this, of dl_loaded undefined "Ev_error ''x''" undefined]
  obtain r dl' where run: "Dart_InitializeApiDL ref_dart_api dl_loaded = Some (r, dl')" and "r = 0"
    and dl': "dl' = (\<lambda>name.
         if name \<in> set DART_API_ALL_DL_SYMBOLS then vm_symbol (api_functions ref_dart_api) name
         else if name \<in> set DART_API_DEPRECATED_DL_SYMBOLS then Dl_deprecated (deprecated_stub name)
         else dl_loaded name)"
    by (auto simp: ref_dart_api_def DART_API_DL_MAJOR_VERSION_def)
  have "dl' ''Dart_PostCObject'' = Dl_vm 7 \<and> dl' ''Dart_IsError'' = Dl_null
     \<and> dl' ''Dart_UpdateExternalSize'' = Dl_deprecated (deprecated_stub ''Dart_UpdateExternalSize'')"
    by (simp add: dl' vm_symbol_def dl_of_def ref_dart_api_def DART_API_ALL_DL_SYMBOLS_def
        DART_NATIVE_API_DL_SYMBOLS_def DART_API_DL_SYMBOLS_def DART_API_DEPRECATED_DL_SYMBOLS_def)
  with run \<open>r = 0\<close> show ?thesis by blast
qed

end
