(* ===== verification/Logging.thy ===== *)
theory Logging
  imports Ffi
begin

text \<open>
  The logging facade (\<open>src/lib/gcs_storage/common/logging.hpp\<close>): the process-wide file sink, the
  registry of named loggers, and the default logger behind unnamed log calls. spdlog itself is
  modelled by what the facade stores in it: sinks with a level, loggers with sinks and a level. Whether the
  file of a rotating sink can be opened is an argument of the call that opens it.
\<close>

section \<open>Levels, sinks and loggers\<close>

datatype spd_level = Trace | Debug | Info | Warn | Err | Critical

fun level_rank :: "spd_level \<Rightarrow> nat" where
  "level_rank Trace = 0" | "level_rank Debug = 1" | "level_rank Info = 2"
| "level_rank Warn = 3" | "level_rank Err = 4" | "level_rank Critical = 5"

instantiation spd_level :: linorder
begin

definition less_eq_spd_level :: "spd_level \<Rightarrow> spd_level \<Rightarrow> bool" where
  "less_eq_spd_level a b \<longleftrightarrow> level_rank a \<le> level_rank b"

definition less_spd_level :: "spd_level \<Rightarrow> spd_level \<Rightarrow> bool" where
  "less_spd_level a b \<longleftrightarrow> level_rank a < level_rank b"

instance
proof
  fix a b :: spd_level
  assume "a \<le> b" and "b \<le> a"
  then show "a = b" by (cases a; cases b) (simp_all add: less_eq_spd_level_def)
qed (auto simp: less_eq_spd_level_def less_spd_level_def)

end

datatype log_sink = Console_sink spd_level | File_sink string nat nat spd_level

fun sink_level :: "log_sink \<Rightarrow> spd_level" where
  "sink_level (Console_sink l) = l"
| "sink_level (File_sink path maxBytes maxFiles l) = l"

record spd_logger =
  lg_name :: string
  lg_sinks :: "log_sink list"
  lg_level :: spd_level
  lg_flush_on :: spd_level
  lg_pattern :: string

text \<open>The sinks a message of a level reaches: both the logger's and the sink's level let it pass.\<close>

definition sinks_reached :: "spd_logger \<Rightarrow> spd_level \<Rightarrow> log_sink list" where
  "sinks_reached lg l = (if lg_level lg \<le> l then filter (\<lambda>s. sink_level s \<le> l) (lg_sinks lg) else [])"

section \<open>The facade\<close>

definition kGcsLogFileName :: string where
  "kGcsLogFileName = ''gcs_chat.log''"

definition kGcsLogMaxBytes :: nat where
  "kGcsLogMaxBytes = 5 * 1024 * 1024"

definition kGcsLogMaxFiles :: nat where
  "kGcsLogMaxFiles = 3"

definition log_pattern :: string where
  "log_pattern = ''[%Y-%m-%d %H:%M:%S.%e] [%^%l%$] [%n] %v''"

text \<open>\<open>default_logger\<close> is \<open>None\<close> while it is the one spdlog starts with.\<close>

record logging =
  shared_file_sink :: "log_sink option"
  registry :: "string \<Rightarrow> spd_logger option"
  default_logger :: "spd_logger option"

definition logging_loaded :: logging where
  "logging_loaded = \<lparr>shared_file_sink = None, registry = (\<lambda>_. None), default_logger = None\<rparr>"

text \<open>The first base path wins; a file that cannot be opened (the exception caught) changes nothing.\<close>

definition SetGcsFileLogBasePath :: "string \<Rightarrow> bool \<Rightarrow> logging \<Rightarrow> logging" where
  "SetGcsFileLogBasePath base_path opens s =
     (if shared_file_sink s \<noteq> None then s
      else if opens
      then s\<lparr>shared_file_sink := Some (File_sink (path_append base_path kGcsLogFileName)
               kGcsLogMaxBytes kGcsLogMaxFiles Debug)\<rparr>
      else s)"

definition CreateLogger :: "string \<Rightarrow> logging \<Rightarrow> spd_logger \<times> logging" where
  "CreateLogger tag s =
     (let name = ''Gcs/'' @ tag
      in case registry s name of
           Some existing \<Rightarrow> (existing, s)
         | None \<Rightarrow>
             let sinks = [Console_sink Info] @
                   (case shared_file_sink s of None \<Rightarrow> [] | Some file_sink \<Rightarrow> [file_sink]);
                 logger = \<lparr>lg_name = name, lg_sinks = sinks, lg_level = Debug, lg_flush_on = Debug,
                           lg_pattern = log_pattern\<rparr>
             in (logger, s\<lparr>registry := (registry s)(name \<mapsto> logger)\<rparr>))"

definition ApplyFileSinkToDefaultLogger :: "logging \<Rightarrow> logging" where
  "ApplyFileSinkToDefaultLogger s =
     (case shared_file_sink s of
        None \<Rightarrow> s
      | Some file_sink \<Rightarrow>
          s\<lparr>default_logger := Some \<lparr>lg_name = ''gcs'', lg_sinks = [Console_sink Info, file_sink],
             lg_level = Debug, lg_flush_on = Debug, lg_pattern = log_pattern\<rparr>\<rparr>)"

section \<open>Runs\<close>

datatype log_op = Set_path string bool | Create string | Apply_default

fun log_apply :: "log_op \<Rightarrow> logging \<Rightarrow> logging" where
  "log_apply (Set_path p opens) s = SetGcsFileLogBasePath p opens s"
| "log_apply (Create tag) s = snd (CreateLogger tag s)"
| "log_apply Apply_default s = ApplyFileSinkToDefaultLogger s"

definition log_run :: "log_op list \<Rightarrow> logging \<Rightarrow> logging" where
  "log_run ops s = foldl (\<lambda>s op. log_apply op s) s ops"

text \<open>The base path of the first call whose file could be opened.\<close>

fun first_opened :: "log_op list \<Rightarrow> string option" where
  "first_opened [] = None"
| "first_opened (Set_path p opens # ops) = (if opens then Some p else first_opened ops)"
| "first_opened (_ # ops) = first_opened ops"

definition file_sink_at :: "string \<Rightarrow> log_sink" where
  "file_sink_at p = File_sink (path_append p kGcsLogFileName) kGcsLogMaxBytes kGcsLogMaxFiles Debug"

definition component_logger :: "string \<Rightarrow> string option \<Rightarrow> spd_logger" where
  "component_logger tag path = \<lparr>lg_name = ''Gcs/'' @ tag,
     lg_sinks = Console_sink Info # (case path of None \<Rightarrow> [] | Some p \<Rightarrow> [file_sink_at p]),
     lg_level = Debug, lg_flush_on = Debug, lg_pattern = log_pattern\<rparr>"

lemma log_run_simps [simp]: "log_run [] s = s" "log_run (op # ops) s = log_run ops (log_apply op s)"
  by (simp_all add: log_run_def)

lemma log_run_append: "log_run (ops @ ops') s = log_run ops' (log_run ops s)"
  by (simp add: log_run_def)

lemma log_apply_shared [simp]:
  "shared_file_sink (snd (CreateLogger tag s)) = shared_file_sink s"
  "shared_file_sink (ApplyFileSinkToDefaultLogger s) = shared_file_sink s"
  by (simp_all add: CreateLogger_def ApplyFileSinkToDefaultLogger_def Let_def split: option.split)

lemma log_run_configured: "shared_file_sink s = Some f \<Longrightarrow> shared_file_sink (log_run ops s) = Some f"
proof (induction ops arbitrary: s)
  case (Cons op ops)
  then have "shared_file_sink (log_apply op s) = Some f" by (cases op) (simp_all add: SetGcsFileLogBasePath_def)
  with Cons.IH show ?case by simp
qed simp

lemma log_run_first_path:
  "shared_file_sink s = None \<Longrightarrow> shared_file_sink (log_run ops s) = map_option file_sink_at (first_opened ops)"
proof (induction ops arbitrary: s rule: first_opened.induct)
  case (2 p opens ops)
  show ?case
  proof (cases opens)
    case True
    with 2 have "shared_file_sink (SetGcsFileLogBasePath p opens s) = Some (file_sink_at p)"
      by (simp add: SetGcsFileLogBasePath_def file_sink_at_def)
    from log_run_configured [OF this] True show ?thesis by simp
  next
    case False
    with 2 show ?thesis by (simp add: SetGcsFileLogBasePath_def)
  qed
qed simp_all

lemma log_apply_registered: "registry s name = Some lg \<Longrightarrow> registry (log_apply op s) name = Some lg"
  by (cases op) (auto simp: SetGcsFileLogBasePath_def CreateLogger_def ApplyFileSinkToDefaultLogger_def Let_def
      split: option.splits)

lemma log_run_registered: "registry s name = Some lg \<Longrightarrow> registry (log_run ops s) name = Some lg"
  by (induction ops arbitrary: s) (simp_all add: log_apply_registered)

lemma log_apply_unregistered:
  "registry s (''Gcs/'' @ tag) = None \<Longrightarrow> op \<noteq> Create tag \<Longrightarrow> registry (log_apply op s) (''Gcs/'' @ tag) = None"
  by (cases op) (auto simp: SetGcsFileLogBasePath_def CreateLogger_def ApplyFileSinkToDefaultLogger_def Let_def
      split: option.splits)

lemma log_run_unregistered:
  "registry s (''Gcs/'' @ tag) = None \<Longrightarrow> Create tag \<notin> set ops \<Longrightarrow> registry (log_run ops s) (''Gcs/'' @ tag) = None"
proof (induction ops arbitrary: s)
  case (Cons op ops)
  from log_apply_unregistered [OF Cons.prems(1), of op] Cons.prems(2)
  have "registry (log_apply op s) (''Gcs/'' @ tag) = None" by auto
  from Cons.IH [OF this] Cons.prems(2) show ?case by simp
qed simp

section \<open>Properties\<close>

text \<open>A component's logger is fixed by its first creation: it writes to the console and, exactly when a
  base path had been opened before, to the file under the first path that could be opened, and no
  later path, creation or default-logger call changes it. Debug messages reach the file only.\<close>

theorem component_logger_fixed:
  assumes "Create tag \<notin> set before"
  shows "registry (log_run (before @ Create tag # after) logging_loaded) (''Gcs/'' @ tag)
      = Some (component_logger tag (first_opened before))
    \<and> fst (CreateLogger tag (log_run (before @ Create tag # after) logging_loaded))
      = component_logger tag (first_opened before)
    \<and> sinks_reached (component_logger tag path) Debug = (case path of None \<Rightarrow> [] | Some p \<Rightarrow> [file_sink_at p])"
proof -
  let ?s = "log_run before logging_loaded"
  have none: "registry ?s (''Gcs/'' @ tag) = None"
    by (rule log_run_unregistered [OF _ assms]) (simp add: logging_loaded_def)
  have shared: "shared_file_sink ?s = map_option file_sink_at (first_opened before)"
    by (rule log_run_first_path) (simp add: logging_loaded_def)
  have "registry (log_apply (Create tag) ?s) (''Gcs/'' @ tag) = Some (component_logger tag (first_opened before))"
    using none shared by (simp add: CreateLogger_def component_logger_def Let_def split: option.split)
  then have reg: "registry (log_run (before @ Create tag # after) logging_loaded) (''Gcs/'' @ tag)
      = Some (component_logger tag (first_opened before))"
    unfolding log_run_append log_run_simps by (rule log_run_registered)
  then have "fst (CreateLogger tag (log_run (before @ Create tag # after) logging_loaded))
      = component_logger tag (first_opened before)"
    by (simp add: CreateLogger_def Let_def)
  with reg show ?thesis
    by (simp add: sinks_reached_def component_logger_def file_sink_at_def less_eq_spd_level_def split: option.split)
qed

text \<open>The first start of a session finds its base path unwritable; a second one with a writable path.\<close>

theorem component_logger_fixed_witness:
  "lg_sinks (fst (CreateLogger ''GcsGlobalDb''
      (log_run [Set_path ''/ro'' False, Create ''GcsGlobalDb'', Set_path ''/rw'' True, Apply_default] logging_loaded)))
    = [Console_sink Info]
   \<and> shared_file_sink (log_run [Set_path ''/ro'' False, Create ''GcsGlobalDb'', Set_path ''/rw'' True] logging_loaded)
    = Some (file_sink_at ''/rw'')"
proof -
  have "Create ''GcsGlobalDb'' \<notin> set [Set_path ''/ro'' False]" by simp
  from component_logger_fixed [OF this, of "[Set_path ''/rw'' True, Apply_default]" None]
  have "lg_sinks (fst (CreateLogger ''GcsGlobalDb''
      (log_run [Set_path ''/ro'' False, Create ''GcsGlobalDb'', Set_path ''/rw'' True, Apply_default] logging_loaded)))
    = [Console_sink Info]" by (simp add: component_logger_def)
  moreover have "shared_file_sink logging_loaded = None" by (simp add: logging_loaded_def)
  note log_run_first_path [OF this, of "[Set_path ''/ro'' False, Create ''GcsGlobalDb'', Set_path ''/rw'' True]"]
  ultimately show ?thesis by simp
qed

end
