(* ===== verification/InitLogging.thy ===== *)
theory InitLogging
  imports Logging FfiProps
begin

text \<open>
  The logging of a process over its sessions: the calls \<open>gcs_init\<close> (\<open>src/ffi/gcs_core_ffi.cpp\<close>) makes of the facade before it
  boots the node, and the one the constructor of the store makes (\<open>src/lib/gcs_storage/gcs_global_db.cpp\<close>), which runs
  once the node is there. Whether the log file under a base path can be opened is a function of the path and
  the outside world; that opening it creates the file is not followed further.
\<close>

section \<open>The calls of one start\<close>

text \<open>The configuration of a call that gets past the checks.\<close>

definition accepted_config :: "'w platform \<Rightarrow> bytes option \<Rightarrow> 'w ffi \<Rightarrow> GcsConfig option" where
  "accepted_config P configBytes s =
     (if g_tearingDown s \<or> g_session s \<noteq> None \<or> configBytes = None \<or> configBytes = Some [] \<or> length (the configBytes) > int_max
      then None
      else case parse_config (proto P) (the configBytes) of
             None \<Rightarrow> None
           | Some config \<Rightarrow> (if cfg_codec config \<noteq> CODEC_PROTOBUF then None else Some config))"

definition boot :: "'w platform \<Rightarrow> GcsConfig \<Rightarrow> 'w ffi \<Rightarrow> bool \<times> 'w ffi" where
  "boot P config s = EnsureSdkBooted P config (s\<lparr>g_apiDlInitialized := True\<rparr>)"

text \<open>What such a call does after the logging is set up.\<close>

lemma gcs_init_accepted:
  "accepted_config P b s = Some config \<Longrightarrow>
     gcs_init P ssl b s = (case boot P config s of (False, s2) \<Rightarrow> (None, s2) | (True, s2) \<Rightarrow> init_session P ssl config s2)"
  by (auto simp: accepted_config_def gcs_init_def boot_def Let_def split: if_splits option.splits)

lemma gcs_init_not_accepted:
  "accepted_config P b s = None \<Longrightarrow>
     gcs_init P ssl b s = (if g_tearingDown s then None else map_option fst (g_session s),
       if g_tearingDown s then s else s\<lparr>g_apiDlInitialized := True\<rparr>)"
  by (cases "g_session s") (auto simp: accepted_config_def gcs_init_def Let_def split: if_splits option.splits)

definition kStoreTag :: string where
  "kStoreTag = ''GcsGlobalDb''"

definition store_logger :: "logging \<Rightarrow> spd_logger option" where
  "store_logger l = registry l (''Gcs/'' @ kStoreTag)"

definition init_logging :: "'w platform \<Rightarrow> (string \<Rightarrow> 'w \<Rightarrow> bool) \<Rightarrow> bytes option \<Rightarrow> 'w ffi \<Rightarrow> logging \<Rightarrow> logging" where
  "init_logging P opens configBytes s l =
     (case accepted_config P configBytes s of
        None \<Rightarrow> l
      | Some config \<Rightarrow>
          (let w = world (g_proc s);
               base = SessionBasePath P config w;
               l1 = ApplyFileSinkToDefaultLogger (SetGcsFileLogBasePath base (opens base w) l)
           in if fst (boot P config s) then snd (CreateLogger kStoreTag l1) else l1))"

section \<open>What a process logs to\<close>

text \<open>Whether a call constructs a store, and the path of the log file it could open.\<close>

definition constructs_store :: "'w platform \<Rightarrow> bytes option \<Rightarrow> 'w ffi \<Rightarrow> bool" where
  "constructs_store P b s = (case accepted_config P b s of None \<Rightarrow> False | Some config \<Rightarrow> fst (boot P config s))"

definition opened_path :: "'w platform \<Rightarrow> (string \<Rightarrow> 'w \<Rightarrow> bool) \<Rightarrow> bytes option \<Rightarrow> 'w ffi \<Rightarrow> string option" where
  "opened_path P opens b s =
     (case accepted_config P b s of
        None \<Rightarrow> None
      | Some config \<Rightarrow>
          (let base = SessionBasePath P config (world (g_proc s)) in if opens base (world (g_proc s)) then Some base else None))"

text \<open>The first path opened by any call, and the first opened by the time the first store is constructed.\<close>

fun first_path :: "'w platform \<Rightarrow> (string \<Rightarrow> 'w \<Rightarrow> bool) \<Rightarrow> (bytes option \<times> 'w ffi) list \<Rightarrow> string option" where
  "first_path P opens [] = None"
| "first_path P opens ((b, s) # calls) =
     (case opened_path P opens b s of Some p \<Rightarrow> Some p | None \<Rightarrow> first_path P opens calls)"

fun store_path :: "'w platform \<Rightarrow> (string \<Rightarrow> 'w \<Rightarrow> bool) \<Rightarrow> (bytes option \<times> 'w ffi) list \<Rightarrow> string option" where
  "store_path P opens [] = None"
| "store_path P opens ((b, s) # calls) =
     (case opened_path P opens b s of
        Some p \<Rightarrow> Some p
      | None \<Rightarrow> (if constructs_store P b s then None else store_path P opens calls))"

definition default_logger_at :: "string \<Rightarrow> spd_logger" where
  "default_logger_at p = \<lparr>lg_name = ''gcs'', lg_sinks = [Console_sink Info, file_sink_at p],
     lg_level = Debug, lg_flush_on = Debug, lg_pattern = log_pattern\<rparr>"

definition logging_after :: "'w platform \<Rightarrow> (string \<Rightarrow> 'w \<Rightarrow> bool) \<Rightarrow> (bytes option \<times> 'w ffi) list \<Rightarrow> logging" where
  "logging_after P opens calls = foldl (\<lambda>l (b, s). init_logging P opens b s l) logging_loaded calls"

lemma first_path_snoc: "first_path P opens (calls @ [(b, s)]) =
    (case first_path P opens calls of Some p \<Rightarrow> Some p | None \<Rightarrow> opened_path P opens b s)"
  by (induction P opens calls rule: first_path.induct) (auto split: option.split)

lemma store_path_snoc: "store_path P opens (calls @ [(b, s)]) =
    (if \<exists>(b', s') \<in> set calls. constructs_store P b' s' then store_path P opens calls
     else case first_path P opens calls of Some p \<Rightarrow> Some p | None \<Rightarrow> opened_path P opens b s)"
  by (induction P opens calls rule: store_path.induct) (auto split: option.split)

lemma no_accepted_config:
  "accepted_config P b s = None \<Longrightarrow> opened_path P opens b s = None \<and> \<not> constructs_store P b s \<and> init_logging P opens b s l = l"
  by (simp add: opened_path_def constructs_store_def init_logging_def)

text \<open>One call: the sink, the default logger and the logger of the store.\<close>

lemma init_logging_effect:
  assumes sink: "shared_file_sink l = map_option file_sink_at path" and default: "default_logger l = map_option default_logger_at path"
    and now_def: "now = (case path of Some p \<Rightarrow> Some p | None \<Rightarrow> opened_path P opens b s)"
  shows "shared_file_sink (init_logging P opens b s l) = map_option file_sink_at now"
    and "default_logger (init_logging P opens b s l) = map_option default_logger_at now"
    and "store_logger (init_logging P opens b s l) =
      (if store_logger l = None \<and> constructs_store P b s then Some (component_logger kStoreTag now)
       else store_logger l)"
proof -
  have "shared_file_sink (init_logging P opens b s l) = map_option file_sink_at now
    \<and> default_logger (init_logging P opens b s l) = map_option default_logger_at now
    \<and> store_logger (init_logging P opens b s l) =
      (if store_logger l = None \<and> constructs_store P b s then Some (component_logger kStoreTag now)
       else store_logger l)"
  proof (cases "accepted_config P b s")
    case None
    with no_accepted_config [OF this] sink default show ?thesis by (simp add: now_def split: option.split)
  next
    case (Some config)
    then show ?thesis using sink default
      by (cases path; cases "store_logger l")
        (simp_all add: store_logger_def init_logging_def opened_path_def constructs_store_def now_def SetGcsFileLogBasePath_def
          ApplyFileSinkToDefaultLogger_def CreateLogger_def component_logger_def default_logger_at_def file_sink_at_def Let_def)
  qed
  then show "shared_file_sink (init_logging P opens b s l) = map_option file_sink_at now"
    and "default_logger (init_logging P opens b s l) = map_option default_logger_at now"
    and "store_logger (init_logging P opens b s l) =
      (if store_logger l = None \<and> constructs_store P b s then Some (component_logger kStoreTag now)
       else store_logger l)" by blast+
qed

lemma logging_after_calls:
  "shared_file_sink (logging_after P opens calls) = map_option file_sink_at (first_path P opens calls)
   \<and> default_logger (logging_after P opens calls) = map_option default_logger_at (first_path P opens calls)
   \<and> store_logger (logging_after P opens calls) =
       (if \<exists>(b, s) \<in> set calls. constructs_store P b s then Some (component_logger kStoreTag (store_path P opens calls)) else None)"
proof (induction calls rule: rev_induct)
  case Nil
  show ?case by (simp add: logging_after_def logging_loaded_def store_logger_def)
next
  case (snoc call calls)
  obtain b s where call: "call = (b, s)" by fastforce
  have "logging_after P opens (calls @ [call]) = init_logging P opens b s (logging_after P opens calls)"
    by (simp add: logging_after_def call)
  with init_logging_effect [where l = "logging_after P opens calls" and path = "first_path P opens calls" and P = P
      and opens = opens and b = b and s = s, OF _ _ refl] snoc.IH show ?case
    by (simp add: call first_path_snoc store_path_snoc)
qed

section \<open>Property\<close>

text \<open>C36: over any calls of \<open>gcs_init\<close> of a process the default logger writes to the console and the log file of the first
  accepted call that could open one, and the logger of the store to that file exactly when the opening did not come
  after the first construction of a store: later sessions keep its first logger. A call that returns a new session
  has constructed a store, and one that finds a session, a teardown or an invalid configuration leaves the logging alone.\<close>

theorem session_logging:
  "default_logger (logging_after P opens calls) = map_option default_logger_at (first_path P opens calls)
   \<and> store_logger (logging_after P opens calls) =
       (if \<exists>(b, s) \<in> set calls. constructs_store P b s then Some (component_logger kStoreTag (store_path P opens calls)) else None)
   \<and> (\<forall>b s. g_session s = None \<and> fst (gcs_init P ssl b s) \<noteq> None \<longrightarrow> constructs_store P b s)
   \<and> (\<forall>b s l. accepted_config P b s = None \<longrightarrow> init_logging P opens b s l = l \<and> fst (gcs_init P ssl b s)
        = (if g_tearingDown s then None else map_option fst (g_session s)))"
proof (intro conjI allI impI)
  fix b s assume new: "g_session s = None \<and> fst (gcs_init P ssl b s) \<noteq> None"
  then obtain config where config: "accepted_config P b s = Some config"
    using gcs_init_not_accepted [of P b s ssl] by (cases "accepted_config P b s") (auto split: if_splits)
  with new gcs_init_accepted [OF config, of ssl] show "constructs_store P b s"
    by (auto simp: constructs_store_def split: prod.splits bool.splits)
qed (simp_all add: logging_after_calls no_accepted_config gcs_init_not_accepted)

text \<open>Three calls: no configuration, a session under \<open>data\<close>, and one more call on it.\<close>

theorem session_logging_witness:
  "store_logger (logging_after ref_platform (\<lambda>p _. p = ''data'') [(None, ref_ffi0), (Some ref_config, ref_ffi0), (Some ref_config, ref_ffi1)])
     = Some (component_logger kStoreTag (Some ''data''))
   \<and> default_logger (logging_after ref_platform (\<lambda>p _. p = ''data'') [(None, ref_ffi0), (Some ref_config, ref_ffi0), (Some ref_config, ref_ffi1)])
     = Some (default_logger_at ''data'')"
proof -
  let ?opens = "\<lambda>p (_ :: ref_world). p = ''data''"
  let ?calls = "[(None, ref_ffi0), (Some ref_config, ref_ffi0), (Some ref_config, ref_ffi1)]"
  let ?cfg = "\<lparr>cfg_db_path = ''data/db'', cfg_codec = CODEC_PROTOBUF, cfg_mnemonic = []\<rparr>"
  note logging = session_logging [of ref_platform ?opens ?calls ref_ssl]
  have s0: "g_session ref_ffi0 = None" "\<not> g_tearingDown ref_ffi0" by (simp_all add: ref_ffi0_def ffi_loaded_def)
  have none: "accepted_config ref_platform None ref_ffi0 = None" by (simp add: accepted_config_def)
  have "parse_config (proto ref_platform) ref_config = Some ?cfg"
    unfolding ref_config_def by (simp add: ref_platform_def ref_codec_def parse_with_def config_of_fields_def)
  moreover have "\<not> length ref_config > int_max" "ref_config \<noteq> []"
    by (simp_all add: ref_config_def enc_fields_def int_max_def)
  ultimately have "accepted_config ref_platform (Some ref_config) ref_ffi0 = Some ?cfg" using s0 by (simp add: accepted_config_def)
  then have "opened_path ref_platform ?opens (Some ref_config) ref_ffi0 = Some ''data''"
    by (simp add: opened_path_def SessionBasePath_def parent_path_def Let_def)
  moreover have "constructs_store ref_platform (Some ref_config) ref_ffi0" using logging s0 ref_init by force
  ultimately show ?thesis using logging no_accepted_config [OF none, of ?opens logging_loaded] by simp
qed

end
