(* ===== verification/RunnerUtils.thy ===== *)
theory RunnerUtils
  imports Prelude
begin

text \<open>
  The command line of the Windows runner (\<open>src/app/windows/runner/utils.cpp\<close>): the UTF-16 arguments converted to
  UTF-8. A \<open>wchar_t\<close> string is the list of its units before the terminator. \<open>WideCharToMultiByte\<close> is a parameter:
  it takes the length argument (\<open>-1\<close>: up to and with the terminator), the units, and the size of the buffer, and gives
  its result and the bytes it wrote. \<open>max_size\<close> is that of \<open>std::string\<close>; \<open>can_alloc\<close> says which buffer sizes can
  be allocated, and an allocation that fails is \<open>None\<close>, the exception that leaves the function. A command line has
  fewer than \<open>2 ^ 15\<close> units, so the cast of \<open>wcslen\<close> to \<open>int\<close> is exact.
\<close>

type_synonym wide_string = "16 word list"
type_synonym wide_to_multi = "int \<Rightarrow> wide_string \<Rightarrow> int \<Rightarrow> int \<times> bytes"

text \<open>The first \<open>n\<close> bytes of a buffer replaced by what a call wrote.\<close>

definition overwritten :: "bytes \<Rightarrow> bytes \<Rightarrow> bytes" where
  "overwritten new buf = new @ drop (length new) buf"

definition Utf8FromUtf16 ::
  "wide_to_multi \<Rightarrow> nat \<Rightarrow> (nat \<Rightarrow> bool) \<Rightarrow> wide_string option \<Rightarrow> bytes option" where
  "Utf8FromUtf16 WideCharToMultiByte max_size can_alloc utf16_string =
     (case utf16_string of
        None \<Rightarrow> Some []
      | Some units \<Rightarrow>
          let target_length = (word_of_int (fst (WideCharToMultiByte (-1) units 0)) :: uint32) - 1;
              input_length = int (length units)
          in if target_length = 0 \<or> unat target_length > max_size then Some []
             else if \<not> can_alloc (unat target_length) then None
             else let utf8_string = replicate (unat target_length) (CHR 0x00);
                      (converted_length, written) =
                        WideCharToMultiByte input_length units (sint target_length)
                  in if converted_length = 0 then Some [] else Some (overwritten written utf8_string))"

text \<open>The arguments after the program's name, in order; the first exception ends the loop.\<close>

fun convert_arguments :: "(wide_string option \<Rightarrow> bytes option) \<Rightarrow> wide_string list \<Rightarrow> bytes list option" where
  "convert_arguments conv [] = Some []"
| "convert_arguments conv (arg # args) =
     (case conv (Some arg) of
        None \<Rightarrow> None
      | Some s \<Rightarrow> (case convert_arguments conv args of None \<Rightarrow> None | Some ss \<Rightarrow> Some (s # ss)))"

definition GetCommandLineArguments ::
  "wide_to_multi \<Rightarrow> nat \<Rightarrow> (nat \<Rightarrow> bool) \<Rightarrow> wide_string list option \<Rightarrow> bytes list option" where
  "GetCommandLineArguments WideCharToMultiByte max_size can_alloc argv =
     (case argv of
        None \<Rightarrow> Some []
      | Some args \<Rightarrow> convert_arguments (Utf8FromUtf16 WideCharToMultiByte max_size can_alloc) (drop 1 args))"

text \<open>
  The documented behaviour of \<open>WideCharToMultiByte\<close> for UTF-8 with \<open>WC_ERR_INVALID_CHARS\<close>, for an encoding
  \<open>enc\<close> that is undefined on ill-formed input: the size with the terminator for an empty buffer, the bytes where
  they fit, and \<open>0\<close> on ill-formed input, with nothing written.
\<close>

definition wide_law :: "wide_to_multi \<Rightarrow> (wide_string \<Rightarrow> bytes option) \<Rightarrow> bool" where
  "wide_law conv enc \<longleftrightarrow> enc [] = Some [] \<and>
     (\<forall>units. enc units = None \<longrightarrow> conv (-1) units 0 = (0, []) \<and> (\<forall>n. conv (int (length units)) units n = (0, []))) \<and>
     (\<forall>units bs. enc units = Some bs \<longrightarrow> int (length bs) + 1 < 2 ^ 31 \<longrightarrow>
        conv (-1) units 0 = (int (length bs) + 1, []) \<and>
        (units \<noteq> [] \<longrightarrow> bs \<noteq> [] \<and> (\<forall>n \<ge> int (length bs). conv (int (length units)) units n = (int (length bs), bs))))"

lemma target_length_valid:
  assumes "int n + 1 < 2 ^ 31"
  shows "(word_of_int (int n + 1) :: uint32) - 1 = word_of_nat n" and "unat (word_of_nat n :: uint32) = n"
    and "sint (word_of_nat n :: uint32) = int n"
proof -
  show "(word_of_int (int n + 1) :: uint32) - 1 = word_of_nat n" by (simp flip: wi_hom_add)
  have small: "n < 2 ^ 31" using assms by simp
  then show unat: "unat (word_of_nat n :: uint32) = n" by (simp add: unsigned_of_nat take_bit_nat_eq_self)
  have "sint (word_of_nat n :: uint32) = signed_take_bit 31 (int n)"
    using signed_of_nat [where 'a = int and 'b = 32 and n = n] by simp
  then show "sint (word_of_nat n :: uint32) = int n" using small by (simp add: signed_take_bit_int_eq_self)
qed

text \<open>What one argument comes out as.\<close>

lemma utf8_null: "Utf8FromUtf16 conv max_size can_alloc None = Some []"
  by (simp add: Utf8FromUtf16_def)

lemma utf8_valid:
  assumes "wide_law conv enc" and "2 ^ 32 \<le> max_size"
    and "enc units = Some bs" and "int (length bs) + 1 < 2 ^ 31" and "can_alloc (length bs)"
  shows "Utf8FromUtf16 conv max_size can_alloc (Some units) = Some bs"
proof (cases "units = []")
  case True
  with assms have "bs = []" "fst (conv (-1) units 0) = 1" by (auto simp: wide_law_def)
  then show ?thesis by (simp add: Utf8FromUtf16_def Let_def)
next
  case False
  with assms have conv: "fst (conv (-1) units 0) = int (length bs) + 1" "bs \<noteq> []"
    "conv (int (length units)) units (int (length bs)) = (int (length bs), bs)" by (auto simp: wide_law_def)
  have "(word_of_nat (length bs) :: uint32) \<noteq> 0"
    using target_length_valid(2) [OF assms(4)] conv(2) by (metis length_0_conv unat_0)
  moreover have "\<not> max_size < length bs" using assms(2,4) by simp
  ultimately show ?thesis
    using conv assms(5) target_length_valid [OF assms(4)]
    by (simp add: Utf8FromUtf16_def Let_def overwritten_def)
qed

lemma utf8_invalid:
  assumes "wide_law conv enc" and "2 ^ 32 \<le> max_size" and "enc units = None"
  shows "Utf8FromUtf16 conv max_size can_alloc (Some units) = (if can_alloc (2 ^ 32 - 1) then Some [] else None)"
proof -
  from assms have "conv (-1) units 0 = (0, [])" "\<And>n. conv (int (length units)) units n = (0, [])"
    by (auto simp: wide_law_def)
  moreover have "\<not> max_size < 4294967295" using assms(2) by simp
  ultimately show ?thesis by (simp add: Utf8FromUtf16_def Let_def unsigned_minus_1_eq_mask mask_eq_exp_minus_1)
qed

lemma convert_arguments_Some:
  "(\<And>a. a \<in> set args \<Longrightarrow> conv (Some a) = Some (f a)) \<Longrightarrow> convert_arguments conv args = Some (map f args)"
  by (induction args) simp_all

lemma convert_arguments_None: "a \<in> set args \<Longrightarrow> conv (Some a) = None \<Longrightarrow> convert_arguments conv args = None"
  by (induction args) (auto split: option.split)

section \<open>Property\<close>

text \<open>C40: the arguments after the program's name come out in order, each as its UTF-8 encoding or, where it is ill
  formed, as the empty string; but for an ill-formed one a buffer of \<open>2 ^ 32 - 1\<close> bytes is allocated first, because
  the length \<open>0\<close> of the failed call is decremented below zero before it is checked, and where that buffer
  cannot be had the conversion throws.\<close>

theorem command_line_converted:
  assumes "wide_law conv enc" and "2 ^ 32 \<le> max_size"
    and "\<And>a bs. a \<in> set (drop 1 args) \<Longrightarrow> enc a = Some bs \<Longrightarrow> int (length bs) + 1 < 2 ^ 31 \<and> can_alloc (length bs)"
  shows "GetCommandLineArguments conv max_size can_alloc (Some args) =
    (if (\<exists>a \<in> set (drop 1 args). enc a = None) \<and> \<not> can_alloc (2 ^ 32 - 1) then None
     else Some (map (\<lambda>a. case enc a of None \<Rightarrow> [] | Some bs \<Rightarrow> bs) (drop 1 args)))"
proof (cases "(\<exists>a \<in> set (drop 1 args). enc a = None) \<and> \<not> can_alloc (2 ^ 32 - 1)")
  case True
  then obtain a where a: "a \<in> set (drop 1 args)" "enc a = None" by blast
  have "Utf8FromUtf16 conv max_size can_alloc (Some a) = None"
    using utf8_invalid [OF assms(1,2) a(2), of can_alloc] True by simp
  with convert_arguments_None [OF a(1)] True show ?thesis by (simp add: GetCommandLineArguments_def)
next
  case False
  have "Utf8FromUtf16 conv max_size can_alloc (Some a) = Some (case enc a of None \<Rightarrow> [] | Some bs \<Rightarrow> bs)"
    if "a \<in> set (drop 1 args)" for a
    using utf8_invalid [OF assms(1,2), of a can_alloc] utf8_valid [OF assms(1,2), of a _ can_alloc] assms(3) [OF that] False that
    by (cases "enc a") auto
  then have "convert_arguments (Utf8FromUtf16 conv max_size can_alloc) (drop 1 args)
      = Some (map (\<lambda>a. case enc a of None \<Rightarrow> [] | Some bs \<Rightarrow> bs) (drop 1 args))"
    by (rule convert_arguments_Some)
  with False show ?thesis
    by (simp only: GetCommandLineArguments_def option.case if_False)
qed

text \<open>A conversion for ASCII.\<close>

definition ref_units :: "wide_string \<Rightarrow> bytes option" where
  "ref_units units = (if \<forall>u \<in> set units. u < 128 then Some (map (\<lambda>u. char_of (unat u)) units) else None)"

definition ref_wide :: wide_to_multi where
  "ref_wide n units cap =
     (case ref_units units of
        None \<Rightarrow> (0, [])
      | Some bs \<Rightarrow> if n = -1 \<and> cap = 0 then (int (length bs) + 1, [])
                  else if 0 < n \<and> int (length bs) \<le> cap then (int (length bs), bs) else (0, []))"

lemma ref_wide_law: "wide_law ref_wide ref_units"
  by (auto simp: wide_law_def ref_wide_def ref_units_def split: if_splits)

theorem command_line_converted_witness:
  "GetCommandLineArguments ref_wide (2 ^ 63 - 1) (\<lambda>n. n < 2 ^ 31) (Some [[0x78], [0x68, 0x69]]) = Some [''hi''] \<and>
   GetCommandLineArguments ref_wide (2 ^ 63 - 1) (\<lambda>n. n < 2 ^ 31) (Some [[0x78], [0xD800]]) = None"
proof -
  have hi: "ref_units [0x68, 0x69] = Some ''hi''" by (simp add: ref_units_def) code_simp
  have bad: "ref_units [0xD800] = None" by (simp add: ref_units_def)
  have "length bs < 2147483647" if "Some ''hi'' = Some bs" for bs using that by auto
  then have "GetCommandLineArguments ref_wide (2 ^ 63 - 1) (\<lambda>n. n < 2 ^ 31) (Some [[0x78], [0x68, 0x69]]) = Some [''hi'']"
    using command_line_converted [OF ref_wide_law, of "2 ^ 63 - 1" "[[0x78], [0x68, 0x69]]" "\<lambda>n. n < 2 ^ 31"] hi by force
  moreover have "GetCommandLineArguments ref_wide (2 ^ 63 - 1) (\<lambda>n. n < 2 ^ 31) (Some [[0x78], [0xD800]]) = None"
    using command_line_converted [OF ref_wide_law, of "2 ^ 63 - 1" "[[0x78], [0xD800]]" "\<lambda>n. n < 2 ^ 31"] bad by simp
  ultimately show ?thesis ..
qed

end
