(* ===== verification/WindowRunner.thy ===== *)
theory WindowRunner
  imports RunnerUtils
begin

text \<open>
  The window of the Windows runner (\<open>src/app/windows/runner\<close>: \<open>win32_window.h\<close>, \<open>win32_window.cpp\<close>,
  \<open>flutter_window.h\<close>, \<open>flutter_window.cpp\<close>, \<open>main.cpp\<close>): the life of the one window object of the program, the
  window class shared by all, the messages, and the message loop.

  Windows and the Flutter engine are parameters. What the code asks of them is the list \<open>calls\<close>, and each answer is a
  function of the calls so far, so that nothing is assumed about it. A window procedure runs while \<open>CreateWindow\<close>
  and \<open>DestroyWindow\<close> are executing: the answers hold the messages that are sent then. The messages \<open>DefWindowProc\<close>
  sends from inside a handler come after that handler here, since every handler returns right after
  that call. A message keeps of its parameters what the code reads. Products with the double scale factor are a
  parameter as well.
\<close>

section \<open>The system\<close>

type_synonym hwnd = nat

record rect =
  rc_left :: uint32
  rc_top :: uint32
  rc_right :: uint32
  rc_bottom :: uint32

datatype message =
    WM_NCCREATE | WM_DESTROY | WM_DPICHANGED rect | WM_SIZE | WM_ACTIVATE | WM_DWMCOLORIZATIONCOLORCHANGED
  | WM_FONTCHANGE | WM_other nat

datatype os_call =
    Register_class | Unregister_class | Load_User32 | Enable_non_client_dpi hwnd | Free_User32
  | Create_window wide_string uint32 uint32 uint32 uint32 | Destroy_window hwnd | Post_quit int
  | Set_window_pos hwnd uint32 uint32 uint32 uint32 | Move_window hwnd uint32 uint32 uint32 uint32
  | Set_focus hwnd | Set_parent hwnd "hwnd option" | Show_window "hwnd option" | Set_dark_mode hwnd bool
  | Def_window_proc "hwnd option" message
  | Controller_new uint32 uint32 | Controller_deleted | Controller_proc hwnd message | Reload_fonts
  | Register_plugins | Next_frame_callback | Force_redraw
  | Attach_console | Alloc_console | Reopen_stdout | Dup_stdout int | Reopen_stderr | Sync_streams | Resync_output
  | Co_initialize | Co_uninitialize | Entrypoint_arguments "bytes list"

text \<open>A controller: whether it has an engine, and the window of its view.\<close>

record controller =
  has_engine :: bool
  native_view :: "hwnd option"

text \<open>
  What the calls so far are answered with. \<open>created\<close>: the handle, the messages sent to it, and whether the
  creation succeeds. \<open>user32\<close>: whether the library loads, and whether it has the function.
\<close>

record system =
  client_rect :: "os_call list \<Rightarrow> hwnd option \<Rightarrow> rect"
  light_mode :: "os_call list \<Rightarrow> uint32 option"
  default_proc :: "os_call list \<Rightarrow> hwnd option \<Rightarrow> message \<Rightarrow> int64"
  user32 :: "os_call list \<Rightarrow> bool \<times> bool"
  monitor_dpi :: "os_call list \<Rightarrow> uint32 \<Rightarrow> uint32 \<Rightarrow> uint32"
  times_scale :: "uint32 \<Rightarrow> uint32 \<Rightarrow> uint32"
  created :: "os_call list \<Rightarrow> hwnd \<times> message list \<times> bool"
  destroy_sends :: "os_call list \<Rightarrow> hwnd \<Rightarrow> message list"
  show_answer :: "os_call list \<Rightarrow> bool"
  new_controller :: "os_call list \<Rightarrow> controller"
  controller_proc :: "os_call list \<Rightarrow> hwnd \<Rightarrow> message \<Rightarrow> int64 option"
  call_succeeds :: "os_call list \<Rightarrow> bool"
  debugger_present :: bool

section \<open>State\<close>

text \<open>The class whose virtual functions a call reaches: in the base destructor that of the base.\<close>

datatype window_class = Win32Window | FlutterWindow

record window =
  dynamic_type :: window_class
  quit_on_close :: bool
  window_handle :: "hwnd option"
  child_content :: "hwnd option"
  flutter_controller :: "controller option"
  g_active_window_count :: int
  class_registered :: bool
  user_data :: "hwnd list"
  calls :: "os_call list"

text \<open>
  Where a function does not return: a null controller is followed, an exception is not caught, or \<open>DestroyWindow\<close> is
  called while a \<open>WM_DESTROY\<close> is handled, which does not happen (\<open>WndProc_faults\<close> below).
\<close>

datatype fault = Null_controller | Uncaught_exception | Nested_destroy

definition os :: "os_call \<Rightarrow> window \<Rightarrow> window" where
  "os c w = w\<lparr>calls := calls w @ [c]\<rparr>"

section \<open>The window class\<close>

definition GetWindowClass :: "window \<Rightarrow> window" where
  "GetWindowClass w = (if class_registered w then w else (os Register_class w)\<lparr>class_registered := True\<rparr>)"

definition UnregisterWindowClass :: "window \<Rightarrow> window" where
  "UnregisterWindowClass w = (os Unregister_class w)\<lparr>class_registered := False\<rparr>"

definition EnableFullDpiSupportIfAvailable :: "system \<Rightarrow> hwnd \<Rightarrow> window \<Rightarrow> window" where
  "EnableFullDpiSupportIfAvailable S hwnd w =
     (let (loaded, available) = user32 S (calls w); w1 = os Load_User32 w in
      if \<not> loaded then w1
      else os Free_User32 (if available then os (Enable_non_client_dpi hwnd) w1 else w1))"

section \<open>Simple operations\<close>

definition GetClientArea :: "system \<Rightarrow> window \<Rightarrow> rect" where
  "GetClientArea S w = client_rect S (calls w) (window_handle w)"

definition GetHandle :: "window \<Rightarrow> hwnd option" where
  "GetHandle w = window_handle w"

definition SetQuitOnClose :: "bool \<Rightarrow> window \<Rightarrow> window" where
  "SetQuitOnClose quit w = w\<lparr>quit_on_close := quit\<rparr>"

definition Show :: "system \<Rightarrow> window \<Rightarrow> bool \<times> window" where
  "Show S w = (let w1 = os (Show_window (window_handle w)) w in (show_answer S (calls w1), w1))"

definition SetChildContent :: "system \<Rightarrow> hwnd \<Rightarrow> window \<Rightarrow> window" where
  "SetChildContent S content w =
     (let w1 = os (Set_parent content (window_handle w)) (w\<lparr>child_content := Some content\<rparr>);
          frame = GetClientArea S w1
      in os (Set_focus content)
           (os (Move_window content (rc_left frame) (rc_top frame) (rc_right frame - rc_left frame) (rc_bottom frame - rc_top frame)) w1))"

definition UpdateTheme :: "system \<Rightarrow> hwnd \<Rightarrow> window \<Rightarrow> window" where
  "UpdateTheme S hwnd w =
     (case light_mode S (calls w) of None \<Rightarrow> w | Some mode \<Rightarrow> os (Set_dark_mode hwnd (mode = 0)) w)"

section \<open>Virtual functions\<close>

definition FlutterWindow_OnCreate :: "system \<Rightarrow> window \<Rightarrow> bool \<times> window" where
  "FlutterWindow_OnCreate S w =
     (let frame = GetClientArea S w;
          w1 = os (Controller_new (rc_right frame - rc_left frame) (rc_bottom frame - rc_top frame)) w;
          c = new_controller S (calls w1);
          w2 = w1\<lparr>flutter_controller := Some c\<rparr>
      in if \<not> has_engine c then (False, w2)
         else case native_view c of
                None \<Rightarrow> (False, w2)
              | Some view \<Rightarrow>
                  (True, os Force_redraw (os Next_frame_callback (SetChildContent S view (os Register_plugins w2)))))"

definition OnCreate :: "system \<Rightarrow> window \<Rightarrow> bool \<times> window" where
  "OnCreate S w = (case dynamic_type w of Win32Window \<Rightarrow> (True, w) | FlutterWindow \<Rightarrow> FlutterWindow_OnCreate S w)"

definition drop_controller :: "window \<Rightarrow> window" where
  "drop_controller w =
     (if flutter_controller w \<noteq> None then (os Controller_deleted w)\<lparr>flutter_controller := None\<rparr> else w)"

definition OnDestroy :: "window \<Rightarrow> window" where
  "OnDestroy w = (case dynamic_type w of Win32Window \<Rightarrow> w | FlutterWindow \<Rightarrow> drop_controller w)"

section \<open>Destruction and messages\<close>

text \<open>\<open>Destroy\<close>, with what a call of \<open>DestroyWindow\<close> does.\<close>

definition Destroy_by :: "(hwnd \<Rightarrow> window \<Rightarrow> fault + window) \<Rightarrow> window \<Rightarrow> fault + window" where
  "Destroy_by destroy_window w =
     (let w1 = OnDestroy w in
      case (case window_handle w1 of
              None \<Rightarrow> Inr w1
            | Some h \<Rightarrow>
                (case destroy_window h w1 of Inl e \<Rightarrow> Inl e | Inr w2 \<Rightarrow> Inr (w2\<lparr>window_handle := None\<rparr>))) of
        Inl e \<Rightarrow> Inl e
      | Inr w3 \<Rightarrow> Inr (if g_active_window_count w3 = 0 then UnregisterWindowClass w3 else w3))"

definition DefWindowProc :: "system \<Rightarrow> hwnd option \<Rightarrow> message \<Rightarrow> window \<Rightarrow> int64 \<times> window" where
  "DefWindowProc S hwnd msg w = (default_proc S (calls w) hwnd msg, os (Def_window_proc hwnd msg) w)"

fun Win32Window_MessageHandler :: "system \<Rightarrow> hwnd \<Rightarrow> message \<Rightarrow> window \<Rightarrow> fault + (int64 \<times> window)" where
  "Win32Window_MessageHandler S hwnd WM_DESTROY w =
     (case Destroy_by (\<lambda>_ _. Inl Nested_destroy) (w\<lparr>window_handle := None\<rparr>) of
        Inl e \<Rightarrow> Inl e
      | Inr w1 \<Rightarrow> Inr (0, if quit_on_close w1 then os (Post_quit 0) w1 else w1))"
| "Win32Window_MessageHandler S hwnd (WM_DPICHANGED r) w =
     Inr (0, os (Set_window_pos hwnd (rc_left r) (rc_top r) (rc_right r - rc_left r) (rc_bottom r - rc_top r)) w)"
| "Win32Window_MessageHandler S hwnd WM_SIZE w =
     (let r = GetClientArea S w in
      Inr (0, case child_content w of
                None \<Rightarrow> w
              | Some child \<Rightarrow> os (Move_window child (rc_left r) (rc_top r) (rc_right r - rc_left r) (rc_bottom r - rc_top r)) w))"
| "Win32Window_MessageHandler S hwnd WM_ACTIVATE w =
     Inr (0, case child_content w of None \<Rightarrow> w | Some child \<Rightarrow> os (Set_focus child) w)"
| "Win32Window_MessageHandler S hwnd WM_DWMCOLORIZATIONCOLORCHANGED w = Inr (0, UpdateTheme S hwnd w)"
| "Win32Window_MessageHandler S hwnd msg w = Inr (DefWindowProc S (window_handle w) msg w)"

definition FlutterWindow_MessageHandler :: "system \<Rightarrow> hwnd \<Rightarrow> message \<Rightarrow> window \<Rightarrow> fault + (int64 \<times> window)" where
  "FlutterWindow_MessageHandler S hwnd msg w =
     (let (answer, w1) =
        (case flutter_controller w of
           None \<Rightarrow> (None, w)
         | Some _ \<Rightarrow> (controller_proc S (calls w) hwnd msg, os (Controller_proc hwnd msg) w))
      in case answer of
           Some r \<Rightarrow> Inr (r, w1)
         | None \<Rightarrow>
             if msg = WM_FONTCHANGE
             then (case flutter_controller w1 of
                     None \<Rightarrow> Inl Null_controller
                   | Some c \<Rightarrow>
                       if has_engine c then Win32Window_MessageHandler S hwnd msg (os Reload_fonts w1)
                       else Inl Null_controller)
             else Win32Window_MessageHandler S hwnd msg w1)"

definition MessageHandler :: "system \<Rightarrow> hwnd \<Rightarrow> message \<Rightarrow> window \<Rightarrow> fault + (int64 \<times> window)" where
  "MessageHandler S hwnd msg w =
     (case dynamic_type w of
        Win32Window \<Rightarrow> Win32Window_MessageHandler S hwnd msg w
      | FlutterWindow \<Rightarrow> FlutterWindow_MessageHandler S hwnd msg w)"

definition WndProc :: "system \<Rightarrow> hwnd \<Rightarrow> message \<Rightarrow> window \<Rightarrow> fault + (int64 \<times> window)" where
  "WndProc S hwnd msg w =
     (if msg = WM_NCCREATE
      then Inr (DefWindowProc S (Some hwnd) msg
                 ((EnableFullDpiSupportIfAvailable S hwnd (w\<lparr>user_data := List.insert hwnd (user_data w)\<rparr>))
                   \<lparr>window_handle := Some hwnd\<rparr>))
      else if hwnd \<in> set (user_data w) then MessageHandler S hwnd msg w
      else Inr (DefWindowProc S (Some hwnd) msg w))"

text \<open>Messages sent while a call of the system is executing.\<close>

fun deliver :: "system \<Rightarrow> hwnd \<Rightarrow> message list \<Rightarrow> window \<Rightarrow> fault + window" where
  "deliver S hwnd [] w = Inr w"
| "deliver S hwnd (msg # msgs) w =
     (case WndProc S hwnd msg w of Inl e \<Rightarrow> Inl e | Inr (_, w1) \<Rightarrow> deliver S hwnd msgs w1)"

definition forget_window :: "hwnd \<Rightarrow> window \<Rightarrow> window" where
  "forget_window h w = w\<lparr>user_data := removeAll h (user_data w)\<rparr>"

definition DestroyWindow :: "system \<Rightarrow> hwnd \<Rightarrow> window \<Rightarrow> fault + window" where
  "DestroyWindow S h w =
     (let w1 = os (Destroy_window h) w in
      case deliver S h (destroy_sends S (calls w1) h) w1 of Inl e \<Rightarrow> Inl e | Inr w2 \<Rightarrow> Inr (forget_window h w2))"

definition Destroy :: "system \<Rightarrow> window \<Rightarrow> fault + window" where
  "Destroy S w = Destroy_by (DestroyWindow S) w"

section \<open>Creation\<close>

definition CreateWindow ::
  "system \<Rightarrow> wide_string \<Rightarrow> uint32 \<Rightarrow> uint32 \<Rightarrow> uint32 \<Rightarrow> uint32 \<Rightarrow> window \<Rightarrow> fault + (hwnd option \<times> window)" where
  "CreateWindow S title x y width height w =
     (let w1 = os (Create_window title x y width height) w; (h, msgs, ok) = created S (calls w1) in
      case deliver S h msgs w1 of
        Inl e \<Rightarrow> Inl e
      | Inr w2 \<Rightarrow> Inr (if ok then (Some h, w2) else (None, forget_window h w2)))"

definition Create ::
  "system \<Rightarrow> wide_string \<Rightarrow> uint32 \<times> uint32 \<Rightarrow> uint32 \<times> uint32 \<Rightarrow> window \<Rightarrow> fault + (bool \<times> window)" where
  "Create S title origin extent w =
     (case Destroy S w of
        Inl e \<Rightarrow> Inl e
      | Inr w1 \<Rightarrow>
          (let w2 = GetWindowClass w1;
               (x, y) = origin;
               (width, height) = extent;
               dpi = monitor_dpi S (calls w2) x y;
               Scale = (\<lambda>v. times_scale S v dpi)
           in case CreateWindow S title (Scale x) (Scale y) (Scale width) (Scale height) w2 of
                Inl e \<Rightarrow> Inl e
              | Inr (None, w3) \<Rightarrow> Inr (False, w3)
              | Inr (Some hwnd, w3) \<Rightarrow> Inr (OnCreate S (UpdateTheme S hwnd w3))))"

text \<open>The constructor, on the statics of the process, and the destructors of the class and its base.\<close>

definition FlutterWindow_new :: "int \<Rightarrow> bool \<Rightarrow> os_call list \<Rightarrow> window" where
  "FlutterWindow_new count registered done =
     \<lparr>dynamic_type = FlutterWindow, quit_on_close = False, window_handle = None, child_content = None,
      flutter_controller = None, g_active_window_count = count + 1, class_registered = registered,
      user_data = [], calls = done\<rparr>"

definition FlutterWindow_destroy :: "system \<Rightarrow> window \<Rightarrow> fault + window" where
  "FlutterWindow_destroy S w =
     (let w1 = (drop_controller w)\<lparr>dynamic_type := Win32Window\<rparr> in
      Destroy S (w1\<lparr>g_active_window_count := g_active_window_count w1 - 1\<rparr>))"

section \<open>The program\<close>

text \<open>The console (\<open>utils.cpp\<close>), when the program was started from a debugger.\<close>

definition asked :: "system \<Rightarrow> os_call \<Rightarrow> os_call list \<Rightarrow> bool \<times> os_call list" where
  "asked S c done = (call_succeeds S (done @ [c]), done @ [c])"

definition CreateAndAttachConsole :: "system \<Rightarrow> os_call list \<Rightarrow> os_call list" where
  "CreateAndAttachConsole S done =
     (case asked S Alloc_console done of
        (False, done1) \<Rightarrow> done1
      | (True, done1) \<Rightarrow>
          (let (reopened, done2) = asked S Reopen_stdout done1;
               done3 = (if reopened then done2 else done2 @ [Dup_stdout 1]);
               (reopened', done4) = asked S Reopen_stderr done3;
               done5 = (if reopened' then done4 else done4 @ [Dup_stdout 2])
           in done5 @ [Sync_streams, Resync_output]))"

text \<open>What a turn of the loop meets: a message of a window of the class, the end of a window, or the quit message.\<close>

datatype turn = Dispatched hwnd message | Window_gone hwnd | Quit

text \<open>\<open>False\<close>: the turns are used up and the loop is waiting.\<close>

fun pump :: "system \<Rightarrow> turn list \<Rightarrow> window \<Rightarrow> fault + (bool \<times> window)" where
  "pump S [] w = Inr (False, w)"
| "pump S (Quit # turns) w = Inr (True, w)"
| "pump S (Window_gone h # turns) w = pump S turns (forget_window h w)"
| "pump S (Dispatched h msg # turns) w =
     (case WndProc S h msg w of Inl e \<Rightarrow> Inl e | Inr (_, w1) \<Rightarrow> pump S turns w1)"

datatype exit_code = Waiting | EXIT_SUCCESS | EXIT_FAILURE

definition leave :: "system \<Rightarrow> exit_code \<Rightarrow> window \<Rightarrow> fault + (exit_code \<times> window)" where
  "leave S code w = (case FlutterWindow_destroy S w of Inl e \<Rightarrow> Inl e | Inr w1 \<Rightarrow> Inr (code, w1))"

definition before_window :: "system \<Rightarrow> os_call list" where
  "before_window S =
     (let (attached, done) = asked S Attach_console [];
          done1 = (if \<not> attached \<and> debugger_present S then CreateAndAttachConsole S done else done)
      in done1 @ [Co_initialize])"

definition wWinMain ::
  "system \<Rightarrow> bytes list option \<Rightarrow> wide_string \<Rightarrow> turn list \<Rightarrow> fault + (exit_code \<times> window)" where
  "wWinMain S arguments title turns =
     (case arguments of
        None \<Rightarrow> Inl Uncaught_exception
      | Some args \<Rightarrow>
          (case Create S title (10, 10) (1280, 720)
                  (FlutterWindow_new 0 False (before_window S @ [Entrypoint_arguments args])) of
             Inl e \<Rightarrow> Inl e
           | Inr (False, w) \<Rightarrow> leave S EXIT_FAILURE w
           | Inr (True, w) \<Rightarrow>
               (case pump S turns (SetQuitOnClose True w) of
                  Inl e \<Rightarrow> Inl e
                | Inr (False, w1) \<Rightarrow> Inr (Waiting, w1)
                | Inr (True, w1) \<Rightarrow> leave S EXIT_SUCCESS (os Co_uninitialize w1))))"

end
