(* ===== verification/WindowProps.thy ===== *)
theory WindowProps
  imports WindowRunner
begin

text \<open>
  The life of the runner's window: which calls create and release it, what each message does to it, and
  where a handler does not return.
\<close>

section \<open>The part of the state and of the calls that matters\<close>

fun lifecycle :: "os_call \<Rightarrow> bool" where
  "lifecycle Register_class = True"
| "lifecycle Unregister_class = True"
| "lifecycle (Create_window t x y w h) = True"
| "lifecycle (Destroy_window h) = True"
| "lifecycle (Post_quit n) = True"
| "lifecycle (Controller_new w h) = True"
| "lifecycle Controller_deleted = True"
| "lifecycle Co_initialize = True"
| "lifecycle Co_uninitialize = True"
| "lifecycle _ = False"

definition lifecycle_calls :: "window \<Rightarrow> os_call list" where
  "lifecycle_calls w = filter lifecycle (calls w)"

definition fields :: "window \<Rightarrow> window" where
  "fields w = w\<lparr>calls := []\<rparr>"

lemma os_effect [simp]:
  "calls (os c w) = calls w @ [c]" "fields (os c w) = fields w"
  "lifecycle_calls (os c w) = (if lifecycle c then lifecycle_calls w @ [c] else lifecycle_calls w)"
  "window_handle (os c w) = window_handle w" "dynamic_type (os c w) = dynamic_type w"
  "quit_on_close (os c w) = quit_on_close w" "flutter_controller (os c w) = flutter_controller w"
  "g_active_window_count (os c w) = g_active_window_count w" "class_registered (os c w) = class_registered w"
  "user_data (os c w) = user_data w" "child_content (os c w) = child_content w"
  by (simp_all add: os_def fields_def lifecycle_calls_def)

lemma fields_eqD:
  assumes "fields v = fields w"
  shows "dynamic_type v = dynamic_type w" "quit_on_close v = quit_on_close w" "window_handle v = window_handle w"
    "child_content v = child_content w" "flutter_controller v = flutter_controller w"
    "g_active_window_count v = g_active_window_count w" "class_registered v = class_registered w" "user_data v = user_data w"
  using assms by (cases v; cases w; simp add: fields_def)+

lemma lifecycle_calls_frame [simp]:
  "lifecycle_calls (w\<lparr>window_handle := h\<rparr>) = lifecycle_calls w"
  "lifecycle_calls (w\<lparr>class_registered := b\<rparr>) = lifecycle_calls w"
  "lifecycle_calls (w\<lparr>user_data := u\<rparr>) = lifecycle_calls w"
  "lifecycle_calls (w\<lparr>flutter_controller := c\<rparr>) = lifecycle_calls w"
  "lifecycle_calls (w\<lparr>dynamic_type := t\<rparr>) = lifecycle_calls w"
  "lifecycle_calls (w\<lparr>g_active_window_count := n\<rparr>) = lifecycle_calls w"
  "lifecycle_calls (w\<lparr>quit_on_close := q\<rparr>) = lifecycle_calls w"
  "lifecycle_calls (w\<lparr>child_content := k\<rparr>) = lifecycle_calls w"
  by (simp_all add: lifecycle_calls_def)

lemmas window_defs = UnregisterWindowClass_def forget_window_def drop_controller_def OnDestroy_def

section \<open>Messages\<close>

text \<open>A message that neither creates nor destroys leaves every field alone, whoever handles it.\<close>

lemma base_handler_quiet:
  assumes "msg \<noteq> WM_DESTROY"
  shows "\<exists>r w'. Win32Window_MessageHandler S h msg w = Inr (r, w') \<and> fields w' = fields w \<and> lifecycle_calls w' = lifecycle_calls w"
  using assms by (cases msg) (auto simp: UpdateTheme_def DefWindowProc_def Let_def split: option.split)

lemma WndProc_quiet:
  assumes "WndProc S h msg w = Inr (r, w')" and "msg \<noteq> WM_DESTROY" and "msg \<noteq> WM_NCCREATE"
  shows "fields w' = fields w \<and> lifecycle_calls w' = lifecycle_calls w"
proof -
  have base: "fields w' = fields v \<and> lifecycle_calls w' = lifecycle_calls v"
    if "Win32Window_MessageHandler S h msg v = Inr (r, w')" for v
    using that base_handler_quiet [OF assms(2), of S h v] by auto
  show ?thesis
    using assms(1,3)
    by (auto simp: WndProc_def MessageHandler_def FlutterWindow_MessageHandler_def DefWindowProc_def
        split: if_splits window_class.splits option.splits dest!: base)
qed

text \<open>While a \<open>WM_DESTROY\<close> is handled there is no window to destroy.\<close>

lemma Destroy_detached:
  "window_handle w = None \<Longrightarrow> Destroy_by d w =
     Inr (if g_active_window_count w = 0 then UnregisterWindowClass (OnDestroy w) else OnDestroy w)"
  by (auto simp: Destroy_by_def window_defs Let_def split: window_class.split)

lemma base_destroy_message:
  "Win32Window_MessageHandler S h WM_DESTROY w =
     (let w1 = OnDestroy (w\<lparr>window_handle := None\<rparr>);
          w2 = (if g_active_window_count w = 0 then UnregisterWindowClass w1 else w1)
      in Inr (0, if quit_on_close w then os (Post_quit 0) w2 else w2))"
proof -
  have quit: "quit_on_close (OnDestroy v) = quit_on_close v" for v
    by (auto simp: window_defs split: window_class.split)
  show ?thesis by (simp add: Destroy_detached Let_def quit UnregisterWindowClass_def)
qed

lemma base_handler_returns: "\<exists>r w'. Win32Window_MessageHandler S h msg w = Inr (r, w')"
proof (cases "msg = WM_DESTROY")
  case True
  then show ?thesis by (simp only: base_destroy_message Let_def) blast
qed (use base_handler_quiet in blast)

lemma WndProc_fault:
  assumes "WndProc S h msg w = Inl e"
  shows "e = Null_controller \<and> msg = WM_FONTCHANGE \<and> h \<in> set (user_data w) \<and> dynamic_type w = FlutterWindow \<and>
    (\<forall>c. flutter_controller w = Some c \<longrightarrow> \<not> has_engine c)"
proof -
  have no: "Win32Window_MessageHandler S h m v \<noteq> Inl e" for m v
    using base_handler_returns [of S h m v] by auto
  show ?thesis
    using assms no
    by (auto simp: WndProc_def MessageHandler_def FlutterWindow_MessageHandler_def
        split: if_splits window_class.splits option.splits)
qed

text \<open>The calls that create or destroy a window, or start or end COM. No message leads to one.\<close>

definition window_call :: "os_call \<Rightarrow> bool" where
  "window_call c \<longleftrightarrow> (case c of Create_window _ _ _ _ _ \<Rightarrow> True | Destroy_window _ \<Rightarrow> True
     | Co_initialize \<Rightarrow> True | Co_uninitialize \<Rightarrow> True | _ \<Rightarrow> False)"

definition window_calls :: "window \<Rightarrow> os_call list" where
  "window_calls w = filter window_call (calls w)"

lemma window_calls_lifecycle: "window_calls w = filter window_call (lifecycle_calls w)"
proof -
  have "filter window_call cs = filter window_call (filter lifecycle cs)" for cs
    unfolding filter_filter by (rule filter_cong [OF refl]) (auto simp: window_call_def split: os_call.splits)
  then show ?thesis by (simp add: window_calls_def lifecycle_calls_def)
qed

lemma window_calls_simps [simp]:
  "window_calls (os c w) = (if window_call c then window_calls w @ [c] else window_calls w)"
  "\<not> window_call Unregister_class" "\<not> window_call (Post_quit n)" "\<not> window_call Controller_deleted"
  "\<not> window_call Register_class" "\<not> window_call Load_User32" "\<not> window_call Free_User32"
  "\<not> window_call (Enable_non_client_dpi h)" "\<not> window_call (Def_window_proc g m)" "window_call Co_uninitialize"
  "\<not> window_call (Set_dark_mode h dark)" "\<not> window_call (Controller_new a b)" "\<not> window_call Register_plugins"
  "\<not> window_call Next_frame_callback" "\<not> window_call Force_redraw" "\<not> window_call (Set_parent h g)"
  "\<not> window_call (Set_focus h)" "\<not> window_call (Move_window h x y a b)" "window_call Co_initialize"
  "window_call (Destroy_window h)" "window_call (Create_window t x y a b)"
  by (simp_all add: window_calls_def window_call_def)

lemma window_calls_frame [simp]:
  "window_calls (w\<lparr>window_handle := h\<rparr>) = window_calls w"
  "window_calls (w\<lparr>class_registered := b\<rparr>) = window_calls w"
  "window_calls (w\<lparr>user_data := u\<rparr>) = window_calls w"
  "window_calls (w\<lparr>flutter_controller := c\<rparr>) = window_calls w"
  "window_calls (w\<lparr>dynamic_type := t\<rparr>) = window_calls w"
  "window_calls (w\<lparr>g_active_window_count := n\<rparr>) = window_calls w"
  "window_calls (w\<lparr>quit_on_close := q\<rparr>) = window_calls w"
  by (simp_all add: window_calls_def)

text \<open>What every message, run of messages and loop keeps: the type, the count, and no call of a window.\<close>

definition kept :: "window \<Rightarrow> window_class \<times> int \<times> os_call list" where
  "kept w = (dynamic_type w, g_active_window_count w, window_calls w)"

lemma kept_quiet: "fields w' = fields w \<Longrightarrow> lifecycle_calls w' = lifecycle_calls w \<Longrightarrow> kept w' = kept w"
  using fields_eqD(1,6) [of w' w] by (simp add: kept_def window_calls_lifecycle)

lemma kept_simps [simp]:
  "\<not> window_call c \<Longrightarrow> kept (os c w) = kept w"
  "kept (w\<lparr>window_handle := h\<rparr>) = kept w" "kept (w\<lparr>class_registered := b\<rparr>) = kept w"
  "kept (w\<lparr>user_data := u\<rparr>) = kept w" "kept (w\<lparr>flutter_controller := c'\<rparr>) = kept w"
  "kept (w\<lparr>quit_on_close := q\<rparr>) = kept w"
  by (simp_all add: kept_def)

lemma kept_OnDestroy [simp]: "kept (OnDestroy w) = kept w" "kept (UnregisterWindowClass w) = kept w"
  "kept (forget_window h w) = kept w"
  by (simp_all add: window_defs split: window_class.split)

lemma kept_base_destroy:
  "Win32Window_MessageHandler S h WM_DESTROY w = Inr (r, w') \<Longrightarrow> kept w' = kept w"
  by (auto simp: base_destroy_message Let_def simp del: Win32Window_MessageHandler.simps)

lemma WndProc_kept:
  assumes "WndProc S h msg w = Inr (r, w')"
  shows "kept w' = kept w"
proof -
  consider "msg = WM_DESTROY" | "msg = WM_NCCREATE" | "msg \<noteq> WM_DESTROY" "msg \<noteq> WM_NCCREATE" by blast
  then show ?thesis
  proof cases
    case 1
    have c: "\<not> window_call (Controller_proc h WM_DESTROY)" by (simp add: window_call_def)
    from 1 assms show ?thesis
      by (auto simp: WndProc_def MessageHandler_def FlutterWindow_MessageHandler_def DefWindowProc_def c
          simp del: Win32Window_MessageHandler.simps dest: kept_base_destroy
          split: if_splits window_class.splits option.splits)
  next
    case 2
    with assms show ?thesis
      by (auto simp: WndProc_def DefWindowProc_def EnableFullDpiSupportIfAvailable_def Let_def case_prod_beta)
  next
    case 3
    with WndProc_quiet [OF assms] show ?thesis by (blast intro: kept_quiet)
  qed
qed

lemma deliver_kept: "deliver S h msgs w = Inr w' \<Longrightarrow> kept w' = kept w"
proof (induction msgs arbitrary: w)
  case (Cons msg msgs)
  from Cons.prems obtain r w1 where step: "WndProc S h msg w = Inr (r, w1)" "deliver S h msgs w1 = Inr w'"
    by (auto split: sum.splits)
  from Cons.IH [OF step(2)] WndProc_kept [OF step(1)] show ?case by simp
qed simp

lemma deliver_fault: "deliver S h msgs w = Inl e \<Longrightarrow> e = Null_controller \<and> WM_FONTCHANGE \<in> set msgs"
proof (induction msgs arbitrary: w)
  case (Cons msg msgs)
  show ?case
  proof (cases "WndProc S h msg w")
    case (Inl e')
    with Cons.prems WndProc_fault [OF Inl] show ?thesis by simp
  next
    case (Inr rw)
    with Cons.prems Cons.IH [of "snd rw"] show ?thesis by (cases rw) simp
  qed
qed simp

lemma deliver_quiet:
  assumes "WM_DESTROY \<notin> set msgs" and "WM_NCCREATE \<notin> set msgs" and "deliver S h msgs w = Inr w'"
  shows "fields w' = fields w \<and> lifecycle_calls w' = lifecycle_calls w"
  using assms
proof (induction msgs arbitrary: w)
  case (Cons msg msgs)
  from Cons.prems(3) obtain r w1 where step: "WndProc S h msg w = Inr (r, w1)" "deliver S h msgs w1 = Inr w'"
    by (auto split: sum.splits)
  from Cons.IH [OF _ _ step(2)] WndProc_quiet [OF step(1)] Cons.prems(1,2) show ?case by auto
qed simp

lemma deliver_append:
  "deliver S h (as @ bs) w = (case deliver S h as w of Inl e \<Rightarrow> Inl e | Inr w1 \<Rightarrow> deliver S h bs w1)"
  by (induction as arbitrary: w) (simp_all split: sum.split)

lemma deliver_base:
  assumes "dynamic_type w = Win32Window"
  shows "\<exists>w'. deliver S h msgs w = Inr w'"
  using assms
proof (induction msgs arbitrary: w)
  case (Cons msg msgs)
  then have "WndProc S h msg w \<noteq> Inl e" for e using WndProc_fault [of S h msg w e] by auto
  then obtain r w1 where step: "WndProc S h msg w = Inr (r, w1)" by (metis sum.exhaust surj_pair)
  with Cons.prems have "dynamic_type w1 = Win32Window" using WndProc_kept [OF step] by (simp add: kept_def)
  with Cons.IH step show ?case by simp
qed simp

section \<open>Teardown\<close>

text \<open>What Windows documents of \<open>DestroyWindow\<close>: among what it sends to the window is \<open>WM_DESTROY\<close>, once.\<close>

definition sends_destroy :: "system \<Rightarrow> hwnd \<Rightarrow> bool" where
  "sends_destroy S h \<longleftrightarrow>
     (\<forall>done. filter (\<lambda>msg. msg = WM_DESTROY \<or> msg = WM_NCCREATE) (destroy_sends S done h) = [WM_DESTROY])"

text \<open>The calls that the last window of the class leads to.\<close>

definition unregistration :: "int \<Rightarrow> os_call list" where
  "unregistration count = (if count = 0 then [Unregister_class] else [])"

lemma deliver_teardown:
  assumes "dynamic_type w = Win32Window" and "h \<in> set (user_data w)"
    and "filter (\<lambda>msg. msg = WM_DESTROY \<or> msg = WM_NCCREATE) msgs = [WM_DESTROY]"
  shows "\<exists>w'. deliver S h msgs w = Inr w' \<and> window_handle w' = None \<and> dynamic_type w' = Win32Window \<and>
    flutter_controller w' = flutter_controller w \<and> g_active_window_count w' = g_active_window_count w \<and>
    lifecycle_calls w' = lifecycle_calls w @ unregistration (g_active_window_count w)
      @ (if quit_on_close w then [Post_quit 0] else [])"
proof -
  from assms(3) obtain pre post where msgs: "msgs = pre @ WM_DESTROY # post"
    and pre: "WM_DESTROY \<notin> set pre" "WM_NCCREATE \<notin> set pre" and post: "WM_DESTROY \<notin> set post" "WM_NCCREATE \<notin> set post"
    unfolding filter_eq_Cons_iff by (auto simp: eq_commute [of "[]"] filter_empty_conv)
  obtain w1 where w1: "deliver S h pre w = Inr w1" using deliver_base [OF assms(1)] by blast
  note q1 = deliver_quiet [OF pre w1]
  note f1 = fields_eqD [OF conjunct1 [OF q1]]
  let ?w2 = "if g_active_window_count w = 0 then UnregisterWindowClass (w1\<lparr>window_handle := None\<rparr>) else w1\<lparr>window_handle := None\<rparr>"
  let ?w3 = "if quit_on_close w then os (Post_quit 0) ?w2 else ?w2"
  have step: "WndProc S h WM_DESTROY w1 = Inr (0, ?w3)"
    using assms(1,2) f1 by (simp add: WndProc_def MessageHandler_def base_destroy_message OnDestroy_def Let_def
        del: Win32Window_MessageHandler.simps)
  have w3: "dynamic_type ?w3 = Win32Window" "window_handle ?w3 = None" "flutter_controller ?w3 = flutter_controller w"
    "g_active_window_count ?w3 = g_active_window_count w"
    "lifecycle_calls ?w3 = lifecycle_calls w @ unregistration (g_active_window_count w) @ (if quit_on_close w then [Post_quit 0] else [])"
    using assms(1) f1 conjunct2 [OF q1] by (simp_all add: window_defs unregistration_def)
  obtain w4 where w4: "deliver S h post ?w3 = Inr w4" using deliver_base [OF w3(1)] by blast
  note q4 = deliver_quiet [OF post w4]
  note f4 = fields_eqD [OF conjunct1 [OF q4]]
  have "deliver S h msgs w = Inr w4" using w1 step w4 by (simp add: msgs deliver_append)
  with w3 f4 conjunct2 [OF q4] show ?thesis by simp
qed

lemma Destroy_base:
  assumes "dynamic_type w = Win32Window" and "window_handle w = Some h" and "h \<in> set (user_data w)" and "sends_destroy S h"
  shows "\<exists>w'. Destroy S w = Inr w' \<and> window_handle w' = None \<and> dynamic_type w' = Win32Window \<and>
    flutter_controller w' = flutter_controller w \<and> g_active_window_count w' = g_active_window_count w \<and>
    lifecycle_calls w' = lifecycle_calls w @ [Destroy_window h] @ unregistration (g_active_window_count w)
      @ (if quit_on_close w then [Post_quit 0] else []) @ unregistration (g_active_window_count w)"
proof -
  let ?w1 = "os (Destroy_window h) w"
  from assms(4) have "filter (\<lambda>msg. msg = WM_DESTROY \<or> msg = WM_NCCREATE) (destroy_sends S (calls ?w1) h) = [WM_DESTROY]"
    by (simp add: sends_destroy_def)
  from deliver_teardown [of ?w1 h, OF _ _ this, where S = S] assms(1,3) obtain w2 where
    w2: "deliver S h (destroy_sends S (calls ?w1) h) ?w1 = Inr w2" "window_handle w2 = None" "dynamic_type w2 = Win32Window"
      "flutter_controller w2 = flutter_controller w" "g_active_window_count w2 = g_active_window_count w"
      "lifecycle_calls w2 = lifecycle_calls w @ [Destroy_window h] @ unregistration (g_active_window_count w)
         @ (if quit_on_close w then [Post_quit 0] else [])" by auto
  let ?w3 = "(forget_window h w2)\<lparr>window_handle := None\<rparr>"
  have "DestroyWindow S h w = Inr (forget_window h w2)" using w2(1) by (simp add: DestroyWindow_def Let_def)
  then have "Destroy S w = Inr (if g_active_window_count ?w3 = 0 then UnregisterWindowClass ?w3 else ?w3)"
    using assms(1,2) by (simp add: Destroy_def Destroy_by_def OnDestroy_def)
  with w2 show ?thesis by (simp add: window_defs unregistration_def)
qed

section \<open>The program\<close>

lemma Create_kept:
  assumes "Create S title origin extent (FlutterWindow_new n registered done) = Inr (ok, w)"
  obtains x y width height where "kept w = (FlutterWindow, n + 1, filter window_call done @ [Create_window title x y width height])"
    | "n + 1 = 0"
proof (cases "n + 1 = 0")
  case False
  let ?w = "FlutterWindow_new n registered done"
  have w: "kept ?w = (FlutterWindow, n + 1, filter window_call done)"
    by (simp add: kept_def FlutterWindow_new_def window_calls_def)
  have "Destroy S ?w = Inr ?w"
    using False by (simp add: Destroy_def Destroy_detached FlutterWindow_new_def OnDestroy_def drop_controller_def)
  with assms obtain x y width height h w1 where
    made: "CreateWindow S title x y width height (GetWindowClass ?w) = Inr (h, w1)"
    and w1: "case h of None \<Rightarrow> w = w1 | Some hwnd \<Rightarrow> OnCreate S (UpdateTheme S hwnd w1) = (ok, w)"
    by (auto simp: Create_def Let_def case_prod_beta split: sum.splits option.splits)
  have registered: "kept (GetWindowClass ?w) = kept ?w" by (simp add: GetWindowClass_def)
  have theme: "kept (UpdateTheme S hwnd v) = kept v" for hwnd v by (simp add: UpdateTheme_def split: option.split)
  have on: "kept (snd (OnCreate S v)) = kept v" for v
    by (simp add: OnCreate_def FlutterWindow_OnCreate_def SetChildContent_def Let_def split: window_class.split option.split)
      (simp add: kept_def window_calls_def)
  let ?v = "os (Create_window title x y width height) (GetWindowClass ?w)"
  obtain h0 msgs good where created: "created S (calls ?v) = (h0, msgs, good)" by (metis prod.collapse)
  with made obtain w2 where deliver: "deliver S h0 msgs ?v = Inr w2" and w1': "w1 = (if good then w2 else forget_window h0 w2)"
    by (cases "deliver S h0 msgs ?v") (auto simp: CreateWindow_def Let_def split: if_splits)
  have kept1: "kept w1 = (FlutterWindow, n + 1, filter window_call done @ [Create_window title x y width height])"
    using deliver_kept [OF deliver] registered w by (simp add: w1') (simp add: kept_def)
  show thesis
  proof (rule that(1), cases h)
    case None
    with w1 kept1 show "kept w = (FlutterWindow, n + 1, filter window_call done @ [Create_window title x y width height])" by simp
  next
    case (Some hwnd)
    with w1 have "w = snd (OnCreate S (UpdateTheme S hwnd w1))" by simp
    with on theme kept1 show "kept w = (FlutterWindow, n + 1, filter window_call done @ [Create_window title x y width height])" by simp
  qed
qed (rule that(2))

lemma WndProc_base_controller:
  assumes "WndProc S h msg w = Inr (r, w')" and "dynamic_type w = Win32Window"
  shows "flutter_controller w' = flutter_controller w"
proof -
  consider "msg = WM_DESTROY" | "msg = WM_NCCREATE" | "msg \<noteq> WM_DESTROY" "msg \<noteq> WM_NCCREATE" by blast
  then show ?thesis
  proof cases
    case 1
    with assms show ?thesis
      by (auto simp: WndProc_def MessageHandler_def DefWindowProc_def base_destroy_message window_defs Let_def
          simp del: Win32Window_MessageHandler.simps split: if_splits)
  next
    case 2
    with assms show ?thesis
      by (auto simp: WndProc_def DefWindowProc_def EnableFullDpiSupportIfAvailable_def Let_def case_prod_beta)
  next
    case 3
    with WndProc_quiet [OF assms(1)] show ?thesis by (blast dest: fields_eqD(5))
  qed
qed

lemma deliver_base_controller:
  "deliver S h msgs w = Inr w' \<Longrightarrow> dynamic_type w = Win32Window \<Longrightarrow> flutter_controller w' = flutter_controller w"
proof (induction msgs arbitrary: w)
  case (Cons msg msgs)
  from Cons.prems(1) obtain r w1 where step: "WndProc S h msg w = Inr (r, w1)" "deliver S h msgs w1 = Inr w'"
    by (auto split: sum.splits)
  from WndProc_kept [OF step(1)] Cons.prems(2) have "dynamic_type w1 = Win32Window" by (simp add: kept_def)
  with Cons.IH [OF step(2)] WndProc_base_controller [OF step(1) Cons.prems(2)] show ?case by simp
qed simp

text \<open>The destructor, whatever the system sends.\<close>

lemma FlutterWindow_destroy_effect:
  assumes "kept w = (FlutterWindow, 1, cs)"
  shows "\<exists>w' dels. FlutterWindow_destroy S w = Inr w' \<and> window_handle w' = None \<and> flutter_controller w' = None \<and>
    \<not> class_registered w' \<and> g_active_window_count w' = 0 \<and> window_calls w' = cs @ dels \<and>
    length dels \<le> 1 \<and> set dels \<subseteq> range Destroy_window"
proof -
  define v where "v = (drop_controller w)\<lparr>dynamic_type := Win32Window,
    g_active_window_count := g_active_window_count (drop_controller w) - 1\<rparr>"
  have v: "dynamic_type v = Win32Window" "g_active_window_count v = 0" "flutter_controller v = None" "window_calls v = cs"
    using assms by (auto simp: v_def drop_controller_def kept_def)
  have run: "FlutterWindow_destroy S w = Destroy S v" by (simp add: FlutterWindow_destroy_def v_def Let_def)
  show ?thesis
  proof (cases "window_handle v")
    case None
    with v show ?thesis
      by (intro exI [of _ "UnregisterWindowClass v"] exI [of _ "[]"])
        (simp add: run Destroy_def Destroy_detached OnDestroy_def UnregisterWindowClass_def)
  next
    case (Some h)
    let ?v = "os (Destroy_window h) v"
    obtain w1 where w1: "deliver S h (destroy_sends S (calls ?v) h) ?v = Inr w1"
      using deliver_base [of ?v S h] v(1) by auto
    have kept: "kept w1 = (Win32Window, 0, cs @ [Destroy_window h])" "flutter_controller w1 = None"
      using deliver_kept [OF w1] deliver_base_controller [OF w1] v by (simp_all add: kept_def)
    let ?w2 = "(forget_window h w1)\<lparr>window_handle := None\<rparr>"
    have "DestroyWindow S h v = Inr (forget_window h w1)" using w1 by (simp add: DestroyWindow_def Let_def)
    then have "Destroy S v = Inr (UnregisterWindowClass ?w2)"
      using Some v(1) kept by (simp add: Destroy_def Destroy_by_def OnDestroy_def forget_window_def kept_def)
    with kept show ?thesis
      by (intro exI [of _ "UnregisterWindowClass ?w2"] exI [of _ "[Destroy_window h]"])
        (simp add: run UnregisterWindowClass_def forget_window_def kept_def)
  qed
qed

lemma Create_fault:
  assumes "Create S title origin extent (FlutterWindow_new n registered done) = Inl e" and "n + 1 \<noteq> 0"
  shows "e = Null_controller"
proof -
  have "Destroy S (FlutterWindow_new n registered done) = Inr (FlutterWindow_new n registered done)"
    using assms(2) by (simp add: Destroy_def Destroy_detached FlutterWindow_new_def OnDestroy_def drop_controller_def)
  with assms(1) show ?thesis
    by (auto simp: Create_def CreateWindow_def Let_def case_prod_beta split: sum.splits option.splits if_splits dest: deliver_fault)
qed

lemma pump_kept: "pump S turns w = Inr (left, w') \<Longrightarrow> kept w' = kept w"
proof (induction S turns w rule: pump.induct)
  case (4 S h msg turns w)
  from "4.prems" obtain r w1 where step: "WndProc S h msg w = Inr (r, w1)" "pump S turns w1 = Inr (left, w')"
    by (auto split: sum.splits)
  from "4.IH" [OF step(1) refl step(2)] WndProc_kept [OF step(1)] show ?case by simp
qed simp_all

lemma pump_fault: "pump S turns w = Inl e \<Longrightarrow> e = Null_controller"
proof (induction S turns w rule: pump.induct)
  case (4 S h msg turns w)
  show ?case
  proof (cases "WndProc S h msg w")
    case (Inl e')
    with "4.prems" WndProc_fault [OF Inl] show ?thesis by simp
  next
    case (Inr rw)
    with "4.prems" "4.IH" [OF Inr, of "fst rw" "snd rw"] show ?thesis by (cases rw) simp
  qed
qed simp_all

lemma before_window_calls: "filter window_call (before_window S @ [Entrypoint_arguments args]) = [Co_initialize]"
proof -
  have no: "\<not> window_call Attach_console" "\<not> window_call Alloc_console" "\<not> window_call Reopen_stdout" "\<not> window_call (Dup_stdout n)"
    "\<not> window_call Reopen_stderr" "\<not> window_call Sync_streams" "\<not> window_call Resync_output"
    "\<not> window_call (Entrypoint_arguments args)" for n
    by (simp_all add: window_call_def)
  then have "filter window_call (CreateAndAttachConsole S cs) = filter window_call cs" for cs
    by (simp add: CreateAndAttachConsole_def asked_def Let_def split: bool.split)
  with no show ?thesis by (simp add: before_window_def asked_def Let_def)
qed

section \<open>Properties\<close>

text \<open>Where a message makes the window follow a controller it does not have.\<close>

definition follows_null :: "system \<Rightarrow> hwnd \<Rightarrow> message \<Rightarrow> window \<Rightarrow> bool" where
  "follows_null S h msg w \<longleftrightarrow> msg = WM_FONTCHANGE \<and> h \<in> set (user_data w) \<and> dynamic_type w = FlutterWindow \<and>
     (case flutter_controller w of None \<Rightarrow> True | Some c \<Rightarrow> \<not> has_engine c \<and> controller_proc S (calls w) h msg = None)"

text \<open>Where Flutter answers a message itself.\<close>

definition answered :: "system \<Rightarrow> hwnd \<Rightarrow> message \<Rightarrow> window \<Rightarrow> bool" where
  "answered S h msg w \<longleftrightarrow> dynamic_type w = FlutterWindow \<and> flutter_controller w \<noteq> None \<and> controller_proc S (calls w) h msg \<noteq> None"

text \<open>C37: the window procedure returns on every message of every window, but for a font change that reaches the Flutter
  window while it has no controller or one without an engine, where it follows a null pointer. The first message binds
  the handle; the destroy message unbinds it, gives the controller up, unregisters the class when no window
  object is left and posts the quit message when the window is to quit; no other message changes the object.\<close>

theorem window_messages:
  "case WndProc S h msg w of
     Inl e \<Rightarrow> e = Null_controller \<and> follows_null S h msg w
   | Inr (r, w') \<Rightarrow> \<not> follows_null S h msg w \<and>
       (if msg = WM_NCCREATE then window_handle w' = Some h \<and> h \<in> set (user_data w') \<and> lifecycle_calls w' = lifecycle_calls w
        else if msg = WM_DESTROY \<and> h \<in> set (user_data w) \<and> \<not> answered S h msg w
        then window_handle w' = None \<and> (if dynamic_type w = FlutterWindow then flutter_controller w' = None else True) \<and>
          lifecycle_calls w' = lifecycle_calls w
            @ (if dynamic_type w = FlutterWindow \<and> flutter_controller w \<noteq> None then [Controller_deleted] else [])
            @ unregistration (g_active_window_count w) @ (if quit_on_close w then [Post_quit 0] else [])
        else fields w' = fields w \<and> lifecycle_calls w' = lifecycle_calls w)"
proof (cases "WndProc S h msg w")
  case (Inl e)
  note fault = WndProc_fault [OF Inl]
  then have "follows_null S h msg w"
    using Inl by (auto simp: follows_null_def WndProc_def MessageHandler_def FlutterWindow_MessageHandler_def
        split: option.splits)
  with fault Inl show ?thesis by simp
next
  case (Inr rw)
  obtain r w' where rw: "rw = (r, w')" by fastforce
  have sound: "\<not> follows_null S h msg w"
    using Inr by (auto simp: follows_null_def WndProc_def MessageHandler_def FlutterWindow_MessageHandler_def
        split: option.splits if_splits)
  consider "msg = WM_NCCREATE" | "msg = WM_DESTROY" | "msg \<noteq> WM_NCCREATE" "msg \<noteq> WM_DESTROY" by blast
  then show ?thesis
  proof cases
    case 1
    with Inr rw sound show ?thesis
      by (auto simp: WndProc_def DefWindowProc_def EnableFullDpiSupportIfAvailable_def Let_def case_prod_beta)
  next
    case 2
    with Inr rw sound show ?thesis
      by (auto simp: WndProc_def MessageHandler_def FlutterWindow_MessageHandler_def DefWindowProc_def answered_def
          base_destroy_message window_defs unregistration_def Let_def
          simp del: Win32Window_MessageHandler.simps split: if_splits window_class.splits option.splits)
  next
    case 3
    with WndProc_quiet [of S h msg w r w'] Inr rw sound show ?thesis by simp
  qed
qed

text \<open>C38: the destructor of a window that still has its handle destroys that window once and leaves neither handle nor
  controller; it posts the quit message exactly when the window is to quit; and as the last window of the class it
  unregisters the class twice, first while the window is being destroyed.\<close>

theorem window_teardown:
  assumes "window_handle w = Some h" and "h \<in> set (user_data w)" and "sends_destroy S h"
  shows "\<exists>w'. FlutterWindow_destroy S w = Inr w' \<and> window_handle w' = None \<and> flutter_controller w' = None
    \<and> g_active_window_count w' = g_active_window_count w - 1
    \<and> lifecycle_calls w' = lifecycle_calls w @ (if flutter_controller w \<noteq> None then [Controller_deleted] else [])
        @ [Destroy_window h] @ (if g_active_window_count w = 1 then [Unregister_class] else [])
        @ (if quit_on_close w then [Post_quit 0] else []) @ (if g_active_window_count w = 1 then [Unregister_class] else [])"
proof -
  let ?v = "(drop_controller w)\<lparr>dynamic_type := Win32Window, g_active_window_count := g_active_window_count w - 1\<rparr>"
  have "FlutterWindow_destroy S w = Destroy S ?v" by (simp add: FlutterWindow_destroy_def drop_controller_def Let_def)
  with Destroy_base [of ?v h S] assms show ?thesis by (auto simp: drop_controller_def unregistration_def)
qed

text \<open>A system that answers every question the same, and a window on it.\<close>

definition ref_system :: system where
  "ref_system = \<lparr>client_rect = (\<lambda>_ _. \<lparr>rc_left = 0, rc_top = 0, rc_right = 100, rc_bottom = 50\<rparr>), light_mode = (\<lambda>_. None),
     default_proc = (\<lambda>_ _ _. 0), user32 = (\<lambda>_. (False, False)), monitor_dpi = (\<lambda>_ _ _. 96), times_scale = (\<lambda>v _. v),
     created = (\<lambda>_. (7, [WM_NCCREATE, WM_SIZE], True)), destroy_sends = (\<lambda>_ _. [WM_ACTIVATE, WM_DESTROY, WM_other 130]),
     show_answer = (\<lambda>_. False), new_controller = (\<lambda>_. \<lparr>has_engine = True, native_view = Some 8\<rparr>),
     controller_proc = (\<lambda>_ _ _. None), call_succeeds = (\<lambda>_. True), debugger_present = False\<rparr>"

definition ref_window :: window where
  "ref_window = (FlutterWindow_new 0 True [])
     \<lparr>window_handle := Some 7, user_data := [7], flutter_controller := Some \<lparr>has_engine = True, native_view = Some 8\<rparr>\<rparr>"

theorem window_teardown_witness:
  "\<exists>w'. FlutterWindow_destroy ref_system ref_window = Inr w' \<and>
     lifecycle_calls w' = [Controller_deleted, Destroy_window 7, Unregister_class, Unregister_class]"
proof -
  have "window_handle ref_window = Some 7" "7 \<in> set (user_data ref_window)" "sends_destroy ref_system 7"
    by (simp_all add: ref_window_def FlutterWindow_new_def sends_destroy_def ref_system_def)
  from window_teardown [OF this] show ?thesis
    by (auto simp: ref_window_def FlutterWindow_new_def lifecycle_calls_def)
qed

text \<open>C39: a run of the program creates one window, between starting and ending COM, and however it ends it has called
  for the destruction of at most that window and left no handle, no controller and no registered class; it ends
  COM exactly when it leaves by the loop. It does not return only where converting the arguments threw or a null
  controller was followed.\<close>

theorem runner_program:
  "case wWinMain S arguments title turns of
     Inl e \<Rightarrow> e = (if arguments = None then Uncaught_exception else Null_controller)
   | Inr (code, w) \<Rightarrow> \<exists>x y width height dels.
       window_calls w = [Co_initialize, Create_window title x y width height]
         @ (if code = EXIT_SUCCESS then [Co_uninitialize] else []) @ dels \<and>
       (if code = Waiting then dels = [] \<and> g_active_window_count w = 1
        else length dels \<le> 1 \<and> set dels \<subseteq> range Destroy_window \<and> window_handle w = None \<and> flutter_controller w = None
          \<and> \<not> class_registered w \<and> g_active_window_count w = 0)"
proof (cases arguments)
  case (Some args)
  let ?done = "before_window S @ [Entrypoint_arguments args]"
  let ?create = "Create S title (10, 10) (1280, 720) (FlutterWindow_new 0 False ?done)"
  show ?thesis
  proof (cases ?create)
    case (Inl e)
    with Create_fault [OF Inl] Some show ?thesis by (simp add: wWinMain_def)
  next
    case (Inr ow)
    obtain good w where ow: "ow = (good, w)" by fastforce
    with Inr have run: "?create = Inr (good, w)" by simp
    obtain x y width height where kept: "kept w = (FlutterWindow, 1, [Co_initialize, Create_window title x y width height])"
      using Create_kept [OF run, unfolded before_window_calls] by force
    show ?thesis
    proof (cases good)
      case False
      with run Some FlutterWindow_destroy_effect [OF kept, of S] show ?thesis
        by (auto simp: wWinMain_def leave_def)
    next
      case True
      have kept': "kept (SetQuitOnClose True w) = kept w" by (simp add: SetQuitOnClose_def)
      show ?thesis
      proof (cases "pump S turns (SetQuitOnClose True w)")
        case (Inl e)
        with pump_fault [OF Inl] True run Some show ?thesis by (simp add: wWinMain_def)
      next
        case (Inr lw)
        obtain left w1 where lw: "lw = (left, w1)" by fastforce
        with Inr pump_kept kept' kept have kept1: "kept w1 = (FlutterWindow, 1, [Co_initialize, Create_window title x y width height])"
          by metis
        then have kept2: "kept (os Co_uninitialize w1) =
            (FlutterWindow, 1, [Co_initialize, Create_window title x y width height, Co_uninitialize])"
          by (simp add: kept_def)
        from kept1 FlutterWindow_destroy_effect [OF kept2, of S] True run Some Inr lw show ?thesis
          by (cases left) (auto simp: wWinMain_def leave_def kept_def)
      qed
    qed
  qed
qed (simp add: wWinMain_def)

end
