(* ===== verification/LinuxRunner.thy ===== *)
theory LinuxRunner
  imports Prelude
begin

text \<open>
  The Linux runner (\<open>src/app/linux/runner\<close>: \<open>my_application.cc\<close>, \<open>main.cc\<close>): the application object, the functions its
  class hands to GLib, and who owns the vector of arguments the object keeps.

  GLib, GTK and the Flutter engine are parameters: what the code asks of them is the list \<open>asked_for\<close>, and each answer is a
  function of the calls so far. A vector of strings on the heap has an address and is there until it is freed. GLib runs the functions of the class: those that run
  inside \<open>g_application_register\<close>, \<open>g_application_activate\<close>, \<open>g_application_run\<close> and \<open>g_object_unref\<close> are answers as well.
\<close>

section \<open>The toolkit\<close>

text \<open>The virtual functions that take no argument; \<open>local_command_line\<close> is a function of its own below.\<close>

datatype vfunc = Activate | Startup | Shutdown_app | Dispose

datatype gtk_call =
    Set_prgname bytes | Application_new bytes bool
  | Window_new | Header_bar_new | Header_bar_show | Header_bar_title bytes | Header_bar_close_button bool
  | Window_titlebar | Window_title bytes | Window_default_size int int | Window_show
  | Project_new | Project_arguments "bytes list option" | View_new | View_show | View_add
  | View_register_plugins | View_grab_focus | Project_unref
  | Application_register | Warn_registration bytes | Error_free | Application_activate
  | Parent_startup | Parent_shutdown | Parent_dispose | Application_run | Application_unref

text \<open>
  \<open>windowing_x11\<close>: \<open>GDK_WINDOWING_X11\<close> of the build. \<open>x11_screen\<close>: nothing for a screen of another kind, otherwise the
  name of the window manager, if it has one. \<open>registered\<close>: the functions run meanwhile and the error message.
\<close>

record toolkit =
  windowing_x11 :: bool
  application_id :: bytes
  x11_screen :: "gtk_call list \<Rightarrow> bytes option option"
  registered :: "gtk_call list \<Rightarrow> vfunc list \<times> bytes option"
  activated :: "gtk_call list \<Rightarrow> vfunc list"
  loop_runs :: "gtk_call list \<Rightarrow> vfunc list"
  unref_runs :: "gtk_call list \<Rightarrow> vfunc list"

section \<open>State\<close>

record my_application =
  dart_entrypoint_arguments :: "nat option"
  strvs :: "nat \<Rightarrow> bytes list option"
  next_strv :: nat
  freed :: "nat list"
  asked_for :: "gtk_call list"

text \<open>Where the behaviour is undefined: a read past the terminator of \<open>argv\<close>, of a freed vector, or a second free.\<close>

datatype misuse = Past_terminator | Read_freed | Freed_twice

definition ask :: "gtk_call \<Rightarrow> my_application \<Rightarrow> my_application" where
  "ask c a = a\<lparr>asked_for := asked_for a @ [c]\<rparr>"

definition ask_all :: "gtk_call list \<Rightarrow> my_application \<Rightarrow> my_application" where
  "ask_all cs a = a\<lparr>asked_for := asked_for a @ cs\<rparr>"

text \<open>\<open>g_strdupv\<close> and \<open>g_strfreev\<close>, which takes a null pointer, and reading a vector up to its terminator.\<close>

definition g_strdupv :: "bytes list \<Rightarrow> my_application \<Rightarrow> nat \<times> my_application" where
  "g_strdupv v a = (next_strv a, a\<lparr>strvs := (strvs a)(next_strv a \<mapsto> v), next_strv := next_strv a + 1\<rparr>)"

definition g_strfreev :: "nat option \<Rightarrow> my_application \<Rightarrow> misuse + my_application" where
  "g_strfreev p a =
     (case p of
        None \<Rightarrow> Inr a
      | Some n \<Rightarrow> (if strvs a n = None then Inl Freed_twice else Inr (a\<lparr>strvs := (strvs a)(n := None), freed := freed a @ [n]\<rparr>)))"

definition read_strv :: "nat option \<Rightarrow> my_application \<Rightarrow> misuse + bytes list option" where
  "read_strv p a =
     (case p of
        None \<Rightarrow> Inr None
      | Some n \<Rightarrow> (case strvs a n of None \<Rightarrow> Inl Read_freed | Some v \<Rightarrow> Inr (Some v)))"

section \<open>The functions of the class\<close>

definition use_header_bar :: "toolkit \<Rightarrow> my_application \<Rightarrow> bool" where
  "use_header_bar T a =
     (if windowing_x11 T
      then (case x11_screen T (asked_for a) of None \<Rightarrow> True | Some wm_name \<Rightarrow> wm_name = Some ''GNOME Shell'')
      else True)"

definition my_application_activate :: "toolkit \<Rightarrow> my_application \<Rightarrow> misuse + my_application" where
  "my_application_activate T a =
     (let a1 = ask Window_new a;
          a2 = ask_all (if use_header_bar T a1
                        then [Header_bar_new, Header_bar_show, Header_bar_title ''flutter_app'', Header_bar_close_button True, Window_titlebar]
                        else [Window_title ''flutter_app'']) a1;
          a3 = ask_all [Window_default_size 1280 720, Window_show, Project_new] a2
      in case read_strv (dart_entrypoint_arguments a3) a3 of
           Inl e \<Rightarrow> Inl e
         | Inr arguments \<Rightarrow>
             Inr (ask_all [Project_arguments arguments, View_new, View_show, View_add, View_register_plugins, View_grab_focus, Project_unref] a3))"

definition my_application_startup :: "my_application \<Rightarrow> my_application" where
  "my_application_startup a = ask Parent_startup a"

definition my_application_shutdown :: "my_application \<Rightarrow> my_application" where
  "my_application_shutdown a = ask Parent_shutdown a"

definition my_application_dispose :: "my_application \<Rightarrow> misuse + my_application" where
  "my_application_dispose a =
     (case g_strfreev (dart_entrypoint_arguments a) (a\<lparr>dart_entrypoint_arguments := None\<rparr>) of
        Inl e \<Rightarrow> Inl e
      | Inr a1 \<Rightarrow> Inr (ask Parent_dispose a1))"

text \<open>The slots of the class, as \<open>my_application_class_init\<close> fills them, and the functions GLib runs one after another.\<close>

fun my_application_class :: "toolkit \<Rightarrow> vfunc \<Rightarrow> my_application \<Rightarrow> misuse + my_application" where
  "my_application_class T Activate a = my_application_activate T a"
| "my_application_class T Startup a = Inr (my_application_startup a)"
| "my_application_class T Shutdown_app a = Inr (my_application_shutdown a)"
| "my_application_class T Dispose a = my_application_dispose a"

fun emit :: "toolkit \<Rightarrow> vfunc list \<Rightarrow> my_application \<Rightarrow> misuse + my_application" where
  "emit T [] a = Inr a"
| "emit T (f # fs) a = (case my_application_class T f a of Inl e \<Rightarrow> Inl e | Inr a1 \<Rightarrow> emit T fs a1)"

text \<open>The status of the exit, with the result \<open>TRUE\<close> that both returns have.\<close>

definition my_application_local_command_line ::
  "toolkit \<Rightarrow> bytes list \<Rightarrow> my_application \<Rightarrow> misuse + (bool \<times> int \<times> my_application)" where
  "my_application_local_command_line T arguments a =
     (if arguments = [] then Inl Past_terminator
      else
        (let (p, a1) = g_strdupv (tl arguments) a;
             a2 = ask Application_register (a1\<lparr>dart_entrypoint_arguments := Some p\<rparr>);
             (meanwhile, error) = registered T (asked_for a2)
         in case emit T meanwhile a2 of
              Inl e \<Rightarrow> Inl e
            | Inr a3 \<Rightarrow>
                (case error of
                   Some message \<Rightarrow> Inr (True, 1, ask_all [Warn_registration message, Error_free] a3)
                 | None \<Rightarrow>
                     (let a4 = ask Application_activate a3 in
                      case emit T (activated T (asked_for a4)) a4 of
                        Inl e \<Rightarrow> Inl e
                      | Inr a5 \<Rightarrow> Inr (True, 0, a5)))))"

section \<open>The program\<close>

definition my_application_new :: "toolkit \<Rightarrow> my_application" where
  "my_application_new T =
     \<lparr>dart_entrypoint_arguments = None, strvs = (\<lambda>_. None), next_strv = 0, freed = [],
      asked_for = [Set_prgname (application_id T), Application_new (application_id T) True]\<rparr>"

text \<open>
  \<open>main\<close>: \<open>g_application_run\<close> first runs \<open>local_command_line\<close>, whose result \<open>TRUE\<close> ends the handling of the command line, then the
  loop and the end of the application, and returns the status; leaving \<open>main\<close> releases the object.
\<close>

definition linux_main :: "toolkit \<Rightarrow> bytes list \<Rightarrow> misuse + (int \<times> my_application)" where
  "linux_main T argv =
     (case my_application_local_command_line T argv (ask Application_run (my_application_new T)) of
        Inl e \<Rightarrow> Inl e
      | Inr (_, status, a1) \<Rightarrow>
          (case emit T (loop_runs T (asked_for a1)) a1 of
             Inl e \<Rightarrow> Inl e
           | Inr a2 \<Rightarrow>
               (let a3 = ask Application_unref a2 in
                case emit T (unref_runs T (asked_for a3)) a3 of Inl e \<Rightarrow> Inl e | Inr a4 \<Rightarrow> Inr (status, a4))))"

section \<open>The vector of arguments\<close>

definition disposed :: "my_application \<Rightarrow> bool" where
  "disposed a \<longleftrightarrow> Parent_dispose \<in> set (asked_for a)"

text \<open>The object owns the one vector until it is disposed of, and every project made before got what it holds.\<close>

definition owns_arguments :: "bytes list \<Rightarrow> my_application \<Rightarrow> bool" where
  "owns_arguments args a \<longleftrightarrow>
     (if disposed a then dart_entrypoint_arguments a = None \<and> strvs a = (\<lambda>_. None) \<and> freed a = [0]
      else dart_entrypoint_arguments a = Some 0 \<and> strvs a = [0 \<mapsto> args] \<and> freed a = []) \<and>
     (\<forall>p. Project_arguments p \<in> set (takeWhile (\<lambda>c. c \<noteq> Parent_dispose) (asked_for a)) \<longrightarrow> p = Some args)"

lemma ask_fields [simp]:
  "asked_for (ask c a) = asked_for a @ [c]" "asked_for (ask_all cs a) = asked_for a @ cs"
  "dart_entrypoint_arguments (ask c a) = dart_entrypoint_arguments a" "strvs (ask c a) = strvs a" "freed (ask c a) = freed a"
  "dart_entrypoint_arguments (ask_all cs a) = dart_entrypoint_arguments a" "strvs (ask_all cs a) = strvs a"
  "freed (ask_all cs a) = freed a"
  by (simp_all add: ask_def ask_all_def)

lemma ask_is_ask_all: "ask c a = ask_all [c] a"
  by (simp add: ask_def ask_all_def)

lemma ask_all_append [simp]: "ask_all ds (ask_all cs a) = ask_all (cs @ ds) a"
  by (simp add: ask_all_def)

lemma read_strv_ask_all [simp]: "read_strv p (ask_all cs a) = read_strv p a"
  by (auto simp: read_strv_def split: option.split)

lemma before_dispose [simp]: "Parent_dispose \<notin> set cs \<Longrightarrow> takeWhile (\<lambda>c. c \<noteq> Parent_dispose) cs = cs"
  by (auto simp: takeWhile_eq_all_conv)

text \<open>Calls that hand nothing over keep the ownership; an activation hands over what the object holds.\<close>

lemma owns_ask_all:
  assumes "owns_arguments args a" and "Parent_dispose \<notin> set cs" and "\<And>p. Project_arguments p \<in> set cs \<Longrightarrow> disposed a \<or> p = Some args"
  shows "owns_arguments args (ask_all cs a)"
proof (cases "disposed a")
  case True
  then have "takeWhile (\<lambda>c. c \<noteq> Parent_dispose) (asked_for a @ cs) = takeWhile (\<lambda>c. c \<noteq> Parent_dispose) (asked_for a)"
    by (auto simp: disposed_def takeWhile_append)
  with True assms(1) show ?thesis by (simp add: owns_arguments_def disposed_def)
next
  case False
  with assms show ?thesis by (auto simp: owns_arguments_def disposed_def)
qed

lemma owns_ask: "owns_arguments args a \<Longrightarrow> c \<noteq> Parent_dispose \<Longrightarrow> (\<And>p. c \<noteq> Project_arguments p) \<Longrightarrow> owns_arguments args (ask c a)"
  unfolding ask_is_ask_all by (rule owns_ask_all) auto

lemma activate_owns:
  assumes "owns_arguments args a"
  shows "\<exists>b. my_application_activate T a = Inr b \<and> owns_arguments args b"
proof -
  have "read_strv (dart_entrypoint_arguments a) a = Inr (if disposed a then None else Some args)"
    using assms by (auto simp: owns_arguments_def read_strv_def)
  then have eq: "my_application_activate T a = Inr (ask_all
      ([Window_new] @ (if use_header_bar T (ask Window_new a)
         then [Header_bar_new, Header_bar_show, Header_bar_title ''flutter_app'', Header_bar_close_button True, Window_titlebar]
         else [Window_title ''flutter_app''])
       @ [Window_default_size 1280 720, Window_show, Project_new, Project_arguments (if disposed a then None else Some args),
          View_new, View_show, View_add, View_register_plugins, View_grab_focus, Project_unref]) a)"
    by (simp add: my_application_activate_def ask_is_ask_all Let_def)
  show ?thesis unfolding eq by (rule exI, rule conjI [OF refl], rule owns_ask_all [OF assms]) (auto split: if_splits)
qed

lemma dispose_owns:
  assumes "owns_arguments args a"
  shows "\<exists>b. my_application_dispose a = Inr b \<and> owns_arguments args b \<and> disposed b"
  using assms
  by (cases "disposed a")
    (auto simp: my_application_dispose_def g_strfreev_def owns_arguments_def disposed_def takeWhile_append)

lemma class_owns: "owns_arguments args a \<Longrightarrow> \<exists>b. my_application_class T f a = Inr b \<and> owns_arguments args b"
  using activate_owns [of args a T] dispose_owns [of args a]
  by (cases f) (auto simp: my_application_startup_def my_application_shutdown_def intro: owns_ask)

lemma emit_owns: "owns_arguments args a \<Longrightarrow> \<exists>b. emit T fs a = Inr b \<and> owns_arguments args b"
proof (induction fs arbitrary: a)
  case (Cons f fs)
  with class_owns [of args a T f] show ?case by auto
qed simp

text \<open>The calls only grow, so an object that is disposed of remains so.\<close>

lemma class_extends: "my_application_class T f a = Inr b \<Longrightarrow> \<exists>cs. asked_for b = asked_for a @ cs \<and> (\<forall>m. Warn_registration m \<notin> set cs)"
  by (cases f)
    (auto simp: my_application_activate_def my_application_startup_def my_application_shutdown_def my_application_dispose_def
      g_strfreev_def Let_def split: sum.splits option.splits if_splits)

lemma emit_extends: "emit T fs a = Inr b \<Longrightarrow> \<exists>cs. asked_for b = asked_for a @ cs \<and> (\<forall>m. Warn_registration m \<notin> set cs)"
proof (induction fs arbitrary: a)
  case (Cons f fs)
  then obtain c where c: "my_application_class T f a = Inr c" "emit T fs c = Inr b" by (auto split: sum.splits)
  from class_extends [OF c(1)] Cons.IH [OF c(2)] show ?case by fastforce
qed simp

lemma emit_disposes: "owns_arguments args a \<Longrightarrow> Dispose \<in> set fs \<Longrightarrow> emit T fs a = Inr b \<Longrightarrow> disposed b"
proof (induction fs arbitrary: a)
  case (Cons f fs)
  from Cons.prems(3) obtain c where c: "my_application_class T f a = Inr c" "emit T fs c = Inr b" by (auto split: sum.splits)
  with class_owns [OF Cons.prems(1), of T f] have owns: "owns_arguments args c" by auto
  show ?case
  proof (cases "f = Dispose")
    case True
    with dispose_owns [OF Cons.prems(1)] c(1) have "disposed c" by auto
    with emit_extends [OF c(2)] show ?thesis by (auto simp: disposed_def)
  next
    case False
    with Cons.prems(2) Cons.IH [OF owns _ c(2)] show ?thesis by auto
  qed
qed simp

section \<open>What a run comes to\<close>

lemma command_line_owns:
  assumes "argv \<noteq> []"
  shows "\<exists>status b. my_application_local_command_line T argv (ask Application_run (my_application_new T)) = Inr (True, status, b)
    \<and> owns_arguments (tl argv) b \<and> status = (if \<exists>m. Warn_registration m \<in> set (asked_for b) then 1 else 0)"
proof -
  let ?a = "ask Application_run (my_application_new T)"
  let ?a2 = "ask Application_register ((snd (g_strdupv (tl argv) ?a))\<lparr>dart_entrypoint_arguments := Some 0\<rparr>)"
  obtain fs error where answer: "registered T (asked_for ?a2) = (fs, error)" by fastforce
  have owns2: "owns_arguments (tl argv) ?a2"
    by (auto simp: owns_arguments_def disposed_def my_application_new_def g_strdupv_def ask_def)
  have calm2: "Warn_registration m \<notin> set (asked_for ?a2)" for m
    by (simp add: my_application_new_def g_strdupv_def ask_def)
  obtain a3 where a3: "emit T fs ?a2 = Inr a3" "owns_arguments (tl argv) a3" using emit_owns [OF owns2] by blast
  have calm3: "Warn_registration m \<notin> set (asked_for a3)" for m using emit_extends [OF a3(1)] calm2 by auto
  have p: "g_strdupv (tl argv) ?a = (0, snd (g_strdupv (tl argv) ?a))"
    by (simp add: g_strdupv_def my_application_new_def ask_def)
  show ?thesis
  proof (cases error)
    case (Some message)
    have "owns_arguments (tl argv) (ask_all [Warn_registration message, Error_free] a3)" by (rule owns_ask_all [OF a3(2)]) auto
    with Some assms p answer a3(1) show ?thesis
      by (intro exI [of _ 1] exI [of _ "ask_all [Warn_registration message, Error_free] a3"])
        (auto simp: my_application_local_command_line_def Let_def split: prod.split)
  next
    case None
    let ?a4 = "ask Application_activate a3"
    obtain b where b: "emit T (activated T (asked_for ?a4)) ?a4 = Inr b" "owns_arguments (tl argv) b"
      using emit_owns [OF owns_ask [OF a3(2)]] by blast
    have "Warn_registration m \<notin> set (asked_for b)" for m using emit_extends [OF b(1)] calm3 by auto
    with b None assms p answer a3(1) show ?thesis
      by (intro exI [of _ 0] exI [of _ b]) (auto simp: my_application_local_command_line_def Let_def split: prod.split)
  qed
qed

lemma linux_run:
  assumes "argv \<noteq> []"
  shows "\<exists>status a b. linux_main T argv = Inr (status, a) \<and> owns_arguments (tl argv) a
    \<and> owns_arguments (tl argv) b \<and> emit T (unref_runs T (asked_for b)) b = Inr a
    \<and> status = (if \<exists>m. Warn_registration m \<in> set (asked_for a) then 1 else 0)"
proof -
  obtain status a1 where line: "my_application_local_command_line T argv (ask Application_run (my_application_new T)) = Inr (True, status, a1)"
    and owns1: "owns_arguments (tl argv) a1" and status: "status = (if \<exists>m. Warn_registration m \<in> set (asked_for a1) then 1 else 0)"
    using command_line_owns [OF assms] by blast
  obtain a2 where a2: "emit T (loop_runs T (asked_for a1)) a1 = Inr a2" "owns_arguments (tl argv) a2" using emit_owns [OF owns1] by blast
  let ?b = "ask Application_unref a2"
  have owns_b: "owns_arguments (tl argv) ?b" by (rule owns_ask [OF a2(2)]) auto
  then obtain a where a: "emit T (unref_runs T (asked_for ?b)) ?b = Inr a" "owns_arguments (tl argv) a" using emit_owns by blast
  have "(\<exists>m. Warn_registration m \<in> set (asked_for a)) \<longleftrightarrow> (\<exists>m. Warn_registration m \<in> set (asked_for a1))"
    using emit_extends [OF a2(1)] emit_extends [OF a(1)] by auto
  moreover have "linux_main T argv = Inr (status, a)" using line a2(1) a(1) by (simp add: linux_main_def Let_def)
  ultimately show ?thesis using status owns_b a by (intro exI [of _ status] exI [of _ a] exI [of _ ?b]) simp
qed

text \<open>
  With a program name on the command line, whatever functions of the class GLib runs and when, nothing is read or freed
  after it was freed, and every project made before the object is disposed of gets the arguments after the name; the
  status is 1 exactly when the registration failed. Where the last release runs the dispose function, as GLib documents, the
  vector has been freed, once.
\<close>

theorem linux_program:
  assumes "argv \<noteq> []"
  shows "\<exists>status a. linux_main T argv = Inr (status, a)
    \<and> (\<forall>p. Project_arguments p \<in> set (takeWhile (\<lambda>c. c \<noteq> Parent_dispose) (asked_for a)) \<longrightarrow> p = Some (tl argv))
    \<and> status = (if \<exists>m. Warn_registration m \<in> set (asked_for a) then 1 else 0)
    \<and> ((\<forall>cs. Dispose \<in> set (unref_runs T cs)) \<longrightarrow> strvs a = (\<lambda>_. None) \<and> freed a = [0])"
proof -
  obtain status a b where run: "linux_main T argv = Inr (status, a)" "owns_arguments (tl argv) a"
    "owns_arguments (tl argv) b" "emit T (unref_runs T (asked_for b)) b = Inr a"
    "status = (if \<exists>m. Warn_registration m \<in> set (asked_for a) then 1 else 0)"
    using linux_run [OF assms] by blast
  have "(\<forall>cs. Dispose \<in> set (unref_runs T cs)) \<longrightarrow> disposed a" using emit_disposes [OF run(3) _ run(4)] by blast
  with run(1,2,5) show ?thesis by (auto simp: owns_arguments_def)
qed

lemma linux_no_name: "linux_main T [] = Inl Past_terminator"
  by (simp add: linux_main_def my_application_local_command_line_def)

end
