(* ===== verification/Spec2Isabelle.thy ===== *)
theory Spec2Isabelle
  imports StoreProps CryptoProps MessagingProps FfiProps StoreContract CatalogContract FfiThreadProps
    FfiSimulation FfiEndToEnd MessagingThreadProps SessionContract AbiContract MessagingContract
    BoundaryRuns PushPlane DartApi InitLogging RunnerUtils WindowProps LinuxRunner
begin

text \<open>
  Verification library for the chat core of GeniusCognitiveSystem: the C++ library under \<open>src/src/lib\<close>
  and its C boundary under \<open>src/src/ffi\<close>. Paths below are relative to \<open>src/src\<close>.

  \<^bold>\<open>The program.\<close> A Dart application drives the library through four C functions (\<open>ffi/gcs_core.h\<close>):
  \<open>gcs_init\<close>, \<open>gcs_publish\<close>, \<open>gcs_subscribe\<close>, \<open>gcs_shutdown\<close>. The boundary keeps one session in globals
  under a mutex. A session (\<open>CoreSession\<close>) owns the store object (\<open>GcsGlobalDb\<close>), which owns the replicated
  database and the gossip pubsub of SuperGenius. The entity catalog (\<open>EntityStore\<close>: spaces and rooms) and
  the messaging component (\<open>Messaging\<close>: sending, receiving, history, archive) borrow the session; messaging
  encrypts through the OpenSSL adapter (\<open>gcs_crypto\<close>). Deliveries come back on foreign threads through two
  bridges, the live gossip callback and the callback on replicated keys, and events leave through
  \<open>Dart_PostCObject_DL\<close>. A process-exit hook tears down what the application left running.

  \<^bold>\<open>Theories and sources.\<close>
  \<^item> \<open>Prelude\<close>: bytes, widths, decimal rendering, string searches, \<open>std::map\<close> as a sorted association list
    with its contract \<open>ordered_map\<close>, the collections \<open>frame_simps\<close> and \<open>gcs_defs\<close>.
  \<^item> \<open>GcsError\<close>: \<open>lib/gcs_storage/common/error.hpp\<close> and \<open>error.cpp\<close>; \<open>outcome::result\<close> is a sum.
  \<^item> \<open>ChatProto\<close>: \<open>proto/gcs_chat.proto\<close>. \<open>Platform\<close>: everything outside the repository, as one record of
    operations, and the process record (outside world, id generators, Dart port, what was posted, which
    callbacks are registered).
  \<^item> \<open>GlobalDb\<close>: \<open>lib/gcs_storage/gcs_global_db.hpp\<close> and \<open>.cpp\<close>, with partial initialisation and every
    nullable handle. \<open>CoreSession\<close>: \<open>lib/gcs_core.hpp\<close> and \<open>.cpp\<close>, with the contracts \<open>kv_session\<close> and
    \<open>kv_topic_session\<close> that its clients rely on.
  \<^item> \<open>Crypto\<close>: \<open>lib/gcs_crypto.hpp\<close> and \<open>.cpp\<close>, call by call of the EVP interface, with the contracts
    \<open>payload_seam\<close> and \<open>crypto_seam\<close>.
  \<^item> \<open>EntityStore\<close>: \<open>lib/gcs_entity_store.hpp\<close> and \<open>.cpp\<close>. \<open>Messaging\<close>: \<open>lib/gcs_messaging.hpp\<close> and \<open>.cpp\<close>.
  \<^item> \<open>DartPort\<close>, \<open>Ffi\<close>, \<open>FfiCommands\<close>, \<open>FfiLifecycle\<close>: \<open>ffi/gcs_core_ffi.cpp\<close>. \<open>Ffi\<close> has the globals as the
    record \<open>ffi\<close>, the helpers, the two receive bridges and the derived joins; \<open>FfiCommands\<close> has \<open>gcs_publish\<close>
    with its five commands and \<open>gcs_subscribe\<close>; \<open>FfiLifecycle\<close> has the boot of the node, \<open>gcs_init\<close>, the
    teardown body, \<open>gcs_shutdown\<close> and the exit hook.
  \<^item> \<open>FfiThreads\<close>: the same file as interleavings of threads over the mutex, the condition variable, the
    count of operations in flight and the two gates.
  \<^item> \<open>MessagingThreads\<close>: \<open>lib/gcs_messaging.cpp\<close> as interleavings of deliveries, sends, history scans, the archive
    worker and the destructor, over the dedupe lock and the archive lock.
  \<^item> \<open>BoundaryThreads\<close>: both thread models composed, one messaging component for every session, with deliveries, sends,
    scans and destructors on the boundary's threads where the code makes them.
  \<^item> \<open>RunnerUtils\<close>, \<open>WindowRunner\<close>: the Windows runner under \<open>app/windows/runner\<close>. \<open>RunnerUtils\<close> has the command line
    (\<open>utils.cpp\<close>); \<open>WindowRunner\<close> has the window object (\<open>win32_window.cpp\<close>, \<open>flutter_window.cpp\<close>), with the messages that
    reach it while the system is executing its own calls, and the program (\<open>main.cpp\<close>).
  \<^item> \<open>LinuxRunner\<close>: the Linux runner (\<open>app/linux/runner/my_application.cc\<close>, \<open>main.cc\<close>), its application object and the
    functions GLib runs on it, with the lemmas on its vector of arguments: freed once, and never read after that.
  \<^item> \<open>DartApi\<close>: \<open>ffi/dart_api_dl.c\<close> and its headers. \<open>Logging\<close>: \<open>lib/gcs_storage/common/logging.hpp\<close>; \<open>InitLogging\<close>: its
    use by \<open>gcs_init\<close> and the store, over all the sessions of a process.
  \<^item> \<open>RefPlatform\<close>: a concrete outside world, on which the witnesses compute; it models no code.

  A class or the set of globals is a record with the members as fields. A method takes the record and the
  process and returns outcome, record and process; a failure is \<open>Inl\<close>, a null pointer \<open>None\<close>, an exception
  that leaves a function \<open>None\<close> (\<open>RoomTopicFromKey\<close>, \<open>OnMessageArrived\<close>). Machine integers are words.

  \<^bold>\<open>What the lemmas show.\<close>
  \<^item> Contracts: \<open>StoreContract\<close> states the two-state store that \<open>gcs_global_db.hpp\<close> documents and proves that
    every operation and both lifecycle operations refine it and follow no null handle; \<open>CatalogContract\<close>
    states what \<open>gcs_entity_store.hpp\<close> promises over an abstract catalog and proves that mutators and
    queries keep it; \<open>StoreProps\<close> proves that the catalog survives a restart. \<open>Refinement\<close> is the notion of one
    object implementing another over every sequence of calls (\<open>machine_refinement\<close>); \<open>SessionContract\<close> interprets it on
    the session of \<open>gcs_core.hpp\<close>. \<open>MessagingContract\<close> and \<open>AbiContract\<close> state what \<open>gcs_messaging.hpp\<close> and \<open>gcs_core.h\<close>
    promise of each operation and prove it.
  \<^item> \<open>CryptoProps\<close>: round trip and authentication. \<open>MessagingProps\<close>: delivery at most once,
    equivalence with a plain reference, order and completeness of the history, the archive worker, the
    bound of the dedupe set.
  \<^item> \<open>FfiInv\<close>: the invariant of the globals over every step of the boundary (\<open>ffi_step\<close>: calls, bridges,
    archive worker, exit hook, changes from outside). \<open>FfiEffects\<close>, \<open>FfiOutcomes\<close> and \<open>FfiProps\<close>: what each handler
    does on each branch, and how failures are reported.
  \<^item> \<open>FfiThreadInv\<close> and \<open>FfiThreadProps\<close>: no use of a destroyed session, progress of every call, and the teardown
    gate. \<open>FfiSimulation\<close>: each handler of the sequential model is a run of one thread of \<open>FfiThreads\<close>.
  \<^item> \<open>MessagingThreadProps\<close>: a message is shown at most once more than the dedupe set was cleared, nothing shown is
    lost, the destructor ends, and the sequential operations are runs of \<open>MessagingThreads\<close>. Those theorems ask a
    discipline of the owner (\<open>owner_waits\<close>), which \<open>BoundaryThreads\<close> proves of the C boundary. \<open>BoundaryRuns\<close>: every
    operation of the sequential boundary, with what it does to the messaging component, is a run of the composition.
  \<^item> \<open>PushPlane\<close>: what any operation hands to Dart is a serialised event for the registered port.
  \<^item> \<open>FfiEndToEnd\<close>: a message from the command of one process to the Dart port of another.
  \<^item> \<open>WindowProps\<close>: every message returns but one that follows a null controller, the teardown of the window call by
    call, and what a run of the program leaves behind.

  \<^bold>\<open>Loops and bounds.\<close> The archive worker and the exit hook's bounded lock acquisition are
  \<open>partial_function\<close>s, where not returning is \<open>None\<close>, with theorems that say when they return: the worker
  exactly when it is stopped, the acquisition within 201 attempts at one per millisecond. Every other loop is
  structural. The dedupe set is bounded by 4096 identifiers where deliveries and history insert. The thread
  model counts operations in flight in 32 bits, so its theorems assume fewer than \<open>2 ^ 32\<close> threads; a
  call takes at most five steps in it. The end of the messaging component takes at most two steps per queued
  record and three more. Lengths handed to OpenSSL and protobuf are checked against \<open>int\<close> where
  the code checks them and are a hypothesis (\<open>fits_int\<close>) where it does not.

  \<^bold>\<open>Assumptions.\<close> The protobuf runtime, SuperGenius, the GeniusSDK, OpenSSL, the clock and the random device are
  parameters. What the theorems need of them are named predicates: \<open>protobuf_ok\<close> (parsing inverts serialising on
  well-formed messages), \<open>store_puts\<close> and \<open>store_frame\<close> (a successful put is read back, other keys keep their
  values), \<open>openssl_ok\<close> (HKDF is a function of its inputs, GCM opens what it sealed and nothing else, the
  calls the code makes succeed), \<open>broadcasts_accepted\<close>. Each is shown to hold on \<open>RefPlatform\<close>. A wait on a
  condition variable is modelled by its specification. The exit hook's timeouts are left out of the theorem on
  destroyed sessions, because going on after one is the best effort the code documents.

  \<^bold>\<open>Not modelled.\<close>
  \<^item> The calls of the logger inside handlers: they write no state the code reads back. The facade itself is in
    \<open>Logging\<close>, the order in which \<open>gcs_init\<close> uses it in \<open>InitLogging\<close>.
  \<^item> \<open>gcs_use_test_secure_storage\<close> and \<open>test_env.hpp\<close>, which install a factory for tests, and the tests.
  \<^item> \<open>ffi/dart_api.h\<close> and \<open>dart_native_api.h\<close> beyond the message object in \<open>DartPort\<close>: declarations from the Dart SDK.
  \<^item> The runners for other platforms, in Swift and Kotlin, and the Flutter application, in Dart. In the Windows runner, messages sent while calls other than creating and destroying a window are
    executing, and a failing \<open>GetMessage\<close>.
  \<^item> Allocation failure, and the memory model below the mutex and the atomics.
\<close>

end
